(* ===== verification/Prelude.thy ===== *)
theory Prelude
  imports Main "HOL-Library.Word"
begin

text \<open>
  Shared vocabulary of the development: the widths of the machine integers the program
  uses, Rust's \<open>Result\<close> with the question-mark operator, and loops that stop at
  the first error.

  A \<open>Result<T, E>\<close> is a sum \<open>'e + 'a\<close> with \<open>Inl\<close> the error. An unsigned
  integer type of the source is a word of its width; where the source compares a
  length with a configured \<open>usize\<close> the model compares natural numbers through
  \<open>unat\<close>, and where it computes on \<open>usize\<close> the model computes on words, so that
  the wrap-around of a release build (\<open>[profile.release]\<close> of \<open>Cargo.toml\<close> does not
  turn overflow checks on) is part of the model.
\<close>

type_synonym u16 = "16 word"
type_synonym u32 = "32 word"
type_synonym u64 = "64 word"
type_synonym usize = "64 word"

named_theorems result_simps \<open>evaluation of the result combinators\<close>
named_theorems wf_intros \<open>operations keep the well-formedness of their state\<close>
named_theorems frame_simps \<open>components an operation leaves alone\<close>

subsection \<open>Results\<close>

text \<open>\<open>and_then r f\<close> is \<open>let x = r?; f(x)\<close>.\<close>

definition and_then :: "'e + 'a \<Rightarrow> ('a \<Rightarrow> 'e + 'b) \<Rightarrow> 'e + 'b" where
  "and_then r f = (case r of Inl e \<Rightarrow> Inl e | Inr x \<Rightarrow> f x)"

lemma and_then_simps [simp, result_simps]:
  "and_then (Inl e) f = Inl e"
  "and_then (Inr x) f = f x"
  by (simp_all add: and_then_def)

lemma and_then_Inr_iff:
  "and_then r f = Inr y \<longleftrightarrow> (\<exists>x. r = Inr x \<and> f x = Inr y)"
  by (cases r) simp_all

lemma and_then_Inl_iff:
  "and_then r f = Inl e \<longleftrightarrow> r = Inl e \<or> (\<exists>x. r = Inr x \<and> f x = Inl e)"
  by (cases r) auto

text \<open>\<open>guard_err b e\<close> is \<open>if b { return Err(e) }\<close>.\<close>

definition guard_err :: "bool \<Rightarrow> 'e \<Rightarrow> 'e + unit" where
  "guard_err b e = (if b then Inl e else Inr ())"

lemma guard_err_simps [simp, result_simps]:
  "guard_err True e = Inl e"
  "guard_err False e = Inr ()"
  by (simp_all add: guard_err_def)

lemma guard_err_Inr_iff [simp]: "guard_err b e = Inr u \<longleftrightarrow> \<not> b"
  by (simp add: guard_err_def)

lemma guard_err_Inl_iff [simp]: "guard_err b e = Inl e' \<longleftrightarrow> b \<and> e' = e"
  by (auto simp: guard_err_def)

lemma and_then_guard_Inr [simp]:
  "and_then (guard_err b e) f = Inr y \<longleftrightarrow> \<not> b \<and> f () = Inr y"
  by (cases b) simp_all

text \<open>\<open>map_err\<close>, \<open>ok_or\<close> and the loop \<open>for x in xs { f(x)?; }\<close>.\<close>

definition ok_or :: "'a option \<Rightarrow> 'e \<Rightarrow> 'e + 'a" where
  "ok_or x e = (case x of None \<Rightarrow> Inl e | Some v \<Rightarrow> Inr v)"

lemma ok_or_simps [simp, result_simps]:
  "ok_or None e = Inl e"
  "ok_or (Some v) e = Inr v"
  by (simp_all add: ok_or_def)

lemma ok_or_Inr_iff [simp]: "ok_or x e = Inr v \<longleftrightarrow> x = Some v"
  by (cases x) simp_all

lemma ok_or_Inl_iff [simp]: "ok_or x e = Inl e' \<longleftrightarrow> x = None \<and> e' = e"
  by (cases x) auto

fun for_each :: "('a \<Rightarrow> 'e + 'b) \<Rightarrow> 'a list \<Rightarrow> 'e + unit" where
  "for_each f [] = Inr ()"
| "for_each f (x # xs) = and_then (f x) (\<lambda>_. for_each f xs)"

lemma for_each_Inr_iff:
  "for_each f xs = Inr u \<longleftrightarrow> (\<forall>x\<in>set xs. \<exists>y. f x = Inr y)"
  by (induction xs) (auto simp: and_then_Inr_iff)

text \<open>The loop reports the error of the first element that fails.\<close>

lemma for_each_Inl_iff:
  "for_each f xs = Inl e \<longleftrightarrow>
     (\<exists>ys z zs. xs = ys @ z # zs \<and> (\<forall>y\<in>set ys. \<exists>v. f y = Inr v) \<and> f z = Inl e)"
    (is "?L xs \<longleftrightarrow> ?R xs")
proof (induction xs)
  case Nil
  then show ?case by simp
next
  case (Cons x xs)
  show ?case
  proof (cases "f x")
    case (Inl e')
    show ?thesis
    proof
      assume "?L (x # xs)"
      with Inl have "x # xs = [] @ x # xs \<and> f x = Inl e" by simp
      then show "?R (x # xs)" by fastforce
    next
      assume "?R (x # xs)"
      with Inl show "?L (x # xs)" by (auto simp: Cons_eq_append_conv)
    qed
  next
    case (Inr v)
    show ?thesis
    proof
      assume "?L (x # xs)"
      with Inr Cons obtain ys z zs where "xs = ys @ z # zs"
        "\<forall>y\<in>set ys. \<exists>v. f y = Inr v" "f z = Inl e" by auto
      with Inr have "x # xs = (x # ys) @ z # zs \<and> (\<forall>y\<in>set (x # ys). \<exists>v. f y = Inr v) \<and> f z = Inl e"
        by simp
      then show "?R (x # xs)" by blast
    next
      assume "?R (x # xs)"
      then obtain ys z zs where *: "x # xs = ys @ z # zs"
        "\<forall>y\<in>set ys. \<exists>v. f y = Inr v" "f z = Inl e" by blast
      with Inr obtain ys' where "ys = x # ys'" by (cases ys) auto
      with * have "xs = ys' @ z # zs \<and> (\<forall>y\<in>set ys'. \<exists>v. f y = Inr v) \<and> f z = Inl e"
        by simp
      then have "?R xs" by blast
      with Inr Cons show "?L (x # xs)" by simp
    qed
  qed
qed

lemma for_each_cong [fundef_cong]:
  "xs = ys \<Longrightarrow> (\<And>x. x \<in> set ys \<Longrightarrow> f x = g x) \<Longrightarrow> for_each f xs = for_each g ys"
  by (induction xs arbitrary: ys) auto

subsection \<open>Lists\<close>

lemma find_SomeD: "find P xs = Some x \<Longrightarrow> P x \<and> x \<in> set xs"
  by (induction xs) (auto split: if_splits)

lemma find_distinct_key:
  assumes "distinct (map k xs)" and "x \<in> set xs"
  shows "find (\<lambda>y. k y = k x) xs = Some x"
  using assms by (induction xs) auto

lemma find_snoc:
  "find P (xs @ [x]) = (case find P xs of Some y \<Rightarrow> Some y | None \<Rightarrow> if P x then Some x else None)"
  by (induction xs) auto

lemma find_eq_None_iff: "find P xs = None \<longleftrightarrow> (\<forall>x\<in>set xs. \<not> P x)"
  by (auto simp: find_None_iff)

lemma distinct_map_remove1:
  "distinct (List.map f (xs @ ys)) \<Longrightarrow> distinct (List.map f (xs @ remove1 y ys))"
  using set_remove1_subset [of y ys] by (auto simp: distinct_map intro: inj_on_subset)

end
