(* ===== verification/Rust_Str.thy ===== *)
theory Rust_Str
  imports Prelude "HOL-Library.Sublist"
begin

text \<open>
  The operations of Rust's \<open>str\<close> that the program uses. A \<open>str\<close> is the list of
  its UTF-8 bytes, a \<^typ>\<open>string\<close>: \<open>len\<close> counts bytes, \<open>bytes()\<close> is the list
  itself, and \<open>chars().count()\<close> counts the bytes that are not UTF-8 continuation
  bytes. Every statement of the development holds for arbitrary byte lists, the
  valid UTF-8 strings among them.
\<close>

type_synonym str = string

abbreviation byte :: "char \<Rightarrow> nat" where
  "byte c \<equiv> of_char c"

subsection \<open>Characters\<close>

definition ascii_lower :: "char \<Rightarrow> char" where
  "ascii_lower c = (if 65 \<le> byte c \<and> byte c \<le> 90 then char_of (byte c + 32) else c)"

lemma ascii_lower_idem [simp]: "ascii_lower (ascii_lower c) = ascii_lower c"
  by (auto simp: ascii_lower_def)

definition eq_ignore_ascii_case :: "str \<Rightarrow> str \<Rightarrow> bool" where
  "eq_ignore_ascii_case a b \<longleftrightarrow> map ascii_lower a = map ascii_lower b"

lemma eq_ignore_ascii_case_refl [simp]: "eq_ignore_ascii_case a a"
  by (simp add: eq_ignore_ascii_case_def)

lemma eq_ignore_ascii_case_sym: "eq_ignore_ascii_case a b \<Longrightarrow> eq_ignore_ascii_case b a"
  by (simp add: eq_ignore_ascii_case_def)

lemma eq_ignore_ascii_case_trans:
  "eq_ignore_ascii_case a b \<Longrightarrow> eq_ignore_ascii_case b c \<Longrightarrow> eq_ignore_ascii_case a c"
  by (simp add: eq_ignore_ascii_case_def)

lemma eq_ignore_ascii_case_lower [simp]:
  "eq_ignore_ascii_case a (map ascii_lower b) \<longleftrightarrow> eq_ignore_ascii_case a b"
  by (simp add: eq_ignore_ascii_case_def comp_def)

definition is_continuation :: "char \<Rightarrow> bool" where
  "is_continuation c \<longleftrightarrow> 128 \<le> byte c \<and> byte c < 192"

definition chars_count :: "str \<Rightarrow> nat" where
  "chars_count s = length (filter (\<lambda>c. \<not> is_continuation c) s)"

lemma chars_count_le_len: "chars_count s \<le> length s"
  by (simp add: chars_count_def)

subsection \<open>Searching and splitting\<close>

definition starts_with :: "str \<Rightarrow> str \<Rightarrow> bool" where
  "starts_with s p \<longleftrightarrow> take (length p) s = p"

definition strip_prefix :: "str \<Rightarrow> str \<Rightarrow> str option" where
  "strip_prefix s p = (if starts_with s p then Some (drop (length p) s) else None)"

lemma strip_prefix_Some_iff: "strip_prefix s p = Some r \<longleftrightarrow> s = p @ r"
  by (auto simp: strip_prefix_def starts_with_def)
     (metis append_take_drop_id)

fun contains_str :: "str \<Rightarrow> str \<Rightarrow> bool" where
  "contains_str [] p \<longleftrightarrow> p = []"
| "contains_str (c # s) p \<longleftrightarrow> starts_with (c # s) p \<or> contains_str s p"

lemma contains_str_iff_sublist: "contains_str s p \<longleftrightarrow> sublist p s"
proof (induction s)
  case Nil
  then show ?case by simp
next
  case (Cons c s)
  have "starts_with (c # s) p \<longleftrightarrow> prefix p (c # s)"
    by (metis prefix_def starts_with_def append_eq_conv_conj)
  with Cons show ?case by (simp add: sublist_Cons_right)
qed

text \<open>\<open>split(c)\<close>: the pieces between the separators, at least one.\<close>

fun split_on :: "char \<Rightarrow> str \<Rightarrow> str list" where
  "split_on c [] = [[]]"
| "split_on c (x # xs) =
     (if x = c then [] # split_on c xs
      else (case split_on c xs of [] \<Rightarrow> [[x]] | p # ps \<Rightarrow> (x # p) # ps))"

lemma split_on_not_Nil [simp]: "split_on c s \<noteq> []"
  by (cases s) (auto split: list.splits)

text \<open>\<open>rsplit_once(c)\<close>: the text before and after the last separator.\<close>

fun rsplit_once :: "char \<Rightarrow> str \<Rightarrow> (str \<times> str) option" where
  "rsplit_once c [] = None"
| "rsplit_once c (x # xs) =
     (case rsplit_once c xs of
        Some (l, r) \<Rightarrow> Some (x # l, r)
      | None \<Rightarrow> if x = c then Some ([], xs) else None)"

lemma rsplit_once_None_iff: "rsplit_once c s = None \<longleftrightarrow> c \<notin> set s"
  by (induction s) (auto split: option.splits)

lemma rsplit_once_Some_iff:
  "rsplit_once c s = Some (l, r) \<longleftrightarrow> s = l @ c # r \<and> c \<notin> set r"
proof (induction s arbitrary: l)
  case Nil
  then show ?case by simp
next
  case (Cons x xs)
  show ?case
  proof (cases "rsplit_once c xs")
    case None
    then have "c \<notin> set xs" by (simp add: rsplit_once_None_iff)
    with None show ?thesis by (auto simp: Cons_eq_append_conv)
  next
    case (Some p)
    then obtain l' r' where p: "p = (l', r')" by (cases p)
    with Some have "c \<in> set xs"
      by (metis option.distinct(1) rsplit_once_None_iff)
    with Some p Cons.IH [of l'] Cons.IH [of "tl l"] show ?thesis
      by (auto simp: Cons_eq_append_conv)
  qed
qed

text \<open>
  \<open>s.rfind(c).map(|i| &s[i + 1..])\<close>: the text after the last separator.
\<close>

definition after_last :: "char \<Rightarrow> str \<Rightarrow> str option" where
  "after_last c s = map_option snd (rsplit_once c s)"

lemma after_last_Some_iff:
  "after_last c s = Some r \<longleftrightarrow> (\<exists>l. s = l @ c # r) \<and> c \<notin> set r"
  by (auto simp: after_last_def rsplit_once_Some_iff)

lemma after_last_None_iff: "after_last c s = None \<longleftrightarrow> c \<notin> set s"
  by (simp add: after_last_def rsplit_once_None_iff)

subsection \<open>White space\<close>

text \<open>
  \<open>trim\<close> removes the characters with the Unicode property White\_Space at both ends:
  U+0009 to U+000D, U+0020, U+0085, U+00A0, U+1680, U+2000 to U+200A, U+2028, U+2029,
  U+202F, U+205F, U+3000. \<open>ws_len s\<close> is the number of bytes of a white-space
  character at the front of \<open>s\<close>, 0 if there is none; \<open>ws_len_rev\<close> reads a reversed
  string.
\<close>

definition ws3 :: "nat \<Rightarrow> nat \<Rightarrow> nat \<Rightarrow> bool" where
  "ws3 a b c \<longleftrightarrow>
     a = 225 \<and> b = 154 \<and> c = 128 \<or>
     a = 226 \<and> b = 128 \<and> (128 \<le> c \<and> c \<le> 138 \<or> c = 168 \<or> c = 169 \<or> c = 175) \<or>
     a = 226 \<and> b = 129 \<and> c = 159 \<or>
     a = 227 \<and> b = 128 \<and> c = 128"

definition ws1 :: "nat \<Rightarrow> bool" where
  "ws1 a \<longleftrightarrow> 9 \<le> a \<and> a \<le> 13 \<or> a = 32"

definition ws_len :: "str \<Rightarrow> nat" where
  "ws_len s =
     (case map byte s of
        a # b # c # _ \<Rightarrow> if ws1 a then 1 else if a = 194 \<and> (b = 133 \<or> b = 160) then 2
                        else if ws3 a b c then 3 else 0
      | [a, b] \<Rightarrow> if ws1 a then 1 else if a = 194 \<and> (b = 133 \<or> b = 160) then 2 else 0
      | [a] \<Rightarrow> if ws1 a then 1 else 0
      | [] \<Rightarrow> 0)"

definition ws_len_rev :: "str \<Rightarrow> nat" where
  "ws_len_rev s =
     (case map byte s of
        c # b # a # _ \<Rightarrow> if ws1 c then 1 else if b = 194 \<and> (c = 133 \<or> c = 160) then 2
                        else if ws3 a b c then 3 else 0
      | [c, b] \<Rightarrow> if ws1 c then 1 else if b = 194 \<and> (c = 133 \<or> c = 160) then 2 else 0
      | [c] \<Rightarrow> if ws1 c then 1 else 0
      | [] \<Rightarrow> 0)"

lemma ws_len_Nil [simp]: "ws_len [] = 0"
  by (simp add: ws_len_def)

function trim_by :: "(str \<Rightarrow> nat) \<Rightarrow> str \<Rightarrow> str" where
  "trim_by w s = (if w s = 0 \<or> s = [] then s else trim_by w (drop (w s) s))"
  by pat_completeness auto
termination
  by (relation "measure (\<lambda>(w, s). length s)") auto

declare trim_by.simps [simp del]

definition trim :: "str \<Rightarrow> str" where
  "trim s = rev (trim_by ws_len_rev (rev (trim_by ws_len s)))"

lemma trim_by_Nil [simp]: "trim_by w [] = []"
  by (simp add: trim_by.simps)

lemma trim_by_no_ws: "w s = 0 \<Longrightarrow> trim_by w s = s"
  by (simp add: trim_by.simps)

lemma trim_Nil [simp]: "trim [] = []"
  by (simp add: trim_def)

text \<open>\<open>trim_matches(c)\<close> for a single character.\<close>

definition trim_matches :: "char \<Rightarrow> str \<Rightarrow> str" where
  "trim_matches c s = rev (dropWhile (\<lambda>x. x = c) (rev (dropWhile (\<lambda>x. x = c) s)))"

subsection \<open>Decimal numbers\<close>

text \<open>\<open>to_string()\<close> of an unsigned integer.\<close>

fun show_nat :: "nat \<Rightarrow> str" where
  "show_nat n =
     (if n < 10 then [char_of (48 + n)]
      else show_nat (n div 10) @ [char_of (48 + n mod 10)])"

declare show_nat.simps [simp del]

definition is_digit :: "char \<Rightarrow> bool" where
  "is_digit c \<longleftrightarrow> 48 \<le> byte c \<and> byte c \<le> 57"

fun read_nat :: "nat \<Rightarrow> str \<Rightarrow> nat option" where
  "read_nat acc [] = Some acc"
| "read_nat acc (c # s) =
     (if is_digit c then read_nat (10 * acc + (byte c - 48)) s else None)"

lemma byte_digit: "d < 10 \<Longrightarrow> byte (char_of (48 + d) :: char) = 48 + d"
  by simp

lemma read_nat_append:
  "read_nat acc (s @ t) = Option.bind (read_nat acc s) (\<lambda>a. read_nat a t)"
  by (induction s arbitrary: acc) auto

lemma read_show_nat: "read_nat 0 (show_nat n) = Some n"
proof (induction n rule: show_nat.induct)
  case (1 n)
  show ?case
  proof (cases "n < 10")
    case True
    then show ?thesis
      by (subst show_nat.simps) (simp add: is_digit_def)
  next
    case False
    have d: "n mod 10 < 10" by simp
    from False "1.IH" have "read_nat 0 (show_nat (n div 10)) = Some (n div 10)" by simp
    with False d show ?thesis
      by (subst show_nat.simps) (simp add: read_nat_append is_digit_def)
  qed
qed

lemma show_nat_digits: "c \<in> set (show_nat n) \<Longrightarrow> is_digit c"
proof (induction n rule: show_nat.induct)
  case (1 n)
  then show ?case
    by (cases "n < 10") (auto simp: show_nat.simps [of n] is_digit_def)
qed

lemma show_nat_inj: "show_nat m = show_nat n \<longleftrightarrow> m = n"
  by (metis option.inject read_show_nat)

end
