(* ===== verification/Ip_Addr.thy ===== *)
theory Ip_Addr
  imports Rust_Str
begin

text \<open>
  Internet addresses of Rust's standard library, \<open>std::net::IpAddr\<close> and
  \<open>SocketAddr\<close>, with their text parsers as the library has them: a recursive-descent
  parser over the bytes that gives back the unread rest. The program parses addresses
  out of proxy headers (\<open>auth.rs\<close>) and out of its configuration
  (\<open>config/validate.rs\<close>).
\<close>

datatype ip_addr = V4 "32 word" | V6 "128 word"

definition localhost_v4 :: ip_addr where
  "localhost_v4 = V4 0x7F000001"

subsection \<open>Numbers\<close>

text \<open>\<open>char::to_digit(radix)\<close> for the radixes 10 and 16.\<close>

definition to_digit :: "nat \<Rightarrow> char \<Rightarrow> nat option" where
  "to_digit radix c =
     (let b = byte c;
          d = (if 48 \<le> b \<and> b \<le> 57 then Some (b - 48)
               else if 97 \<le> b \<and> b \<le> 122 then Some (b - 87)
               else if 65 \<le> b \<and> b \<le> 90 then Some (b - 55)
               else None)
      in case d of Some v \<Rightarrow> if v < radix then Some v else None | None \<Rightarrow> None)"

text \<open>
  The digit loop of \<open>read_number\<close>: \<open>maxv\<close> is the largest value of the target
  integer (the checked multiplication and addition), \<open>maxd\<close> the largest number of
  digits. \<open>None\<close> is failure.
\<close>

fun read_digits :: "nat \<Rightarrow> nat \<Rightarrow> nat option \<Rightarrow> nat \<Rightarrow> nat \<Rightarrow> str \<Rightarrow> (nat \<times> nat \<times> str) option" where
  "read_digits radix maxv maxd acc n [] = Some (acc, n, [])"
| "read_digits radix maxv maxd acc n (c # s) =
     (case to_digit radix c of
        None \<Rightarrow> Some (acc, n, c # s)
      | Some d \<Rightarrow>
          if radix * acc + d > maxv then None
          else (case maxd of
                  Some m \<Rightarrow> if Suc n > m then None
                            else read_digits radix maxv maxd (radix * acc + d) (Suc n) s
                | None \<Rightarrow> read_digits radix maxv maxd (radix * acc + d) (Suc n) s))"

definition read_number :: "nat \<Rightarrow> nat \<Rightarrow> nat option \<Rightarrow> bool \<Rightarrow> str \<Rightarrow> (nat \<times> str) option" where
  "read_number radix maxv maxd allow_zero_prefix s =
     (case read_digits radix maxv maxd 0 0 s of
        None \<Rightarrow> None
      | Some (v, n, r) \<Rightarrow>
          if n = 0 then None
          else if \<not> allow_zero_prefix \<and> take 1 s = ''0'' \<and> n > 1 then None
          else Some (v, r))"

definition read_given_char :: "char \<Rightarrow> str \<Rightarrow> str option" where
  "read_given_char c s = (case s of x # r \<Rightarrow> if x = c then Some r else None | [] \<Rightarrow> None)"

definition read_separator :: "char \<Rightarrow> nat \<Rightarrow> (str \<Rightarrow> ('a \<times> str) option) \<Rightarrow> str \<Rightarrow> ('a \<times> str) option" where
  "read_separator sep i inner s =
     (if i > 0 then Option.bind (read_given_char sep s) inner else inner s)"

subsection \<open>IPv4\<close>

definition read_octet :: "nat \<Rightarrow> str \<Rightarrow> (nat \<times> str) option" where
  "read_octet i = read_separator (CHR ''.'') i (read_number 10 255 (Some 3) False)"

definition read_ipv4_addr :: "str \<Rightarrow> (nat list \<times> str) option" where
  "read_ipv4_addr s =
     Option.bind (read_octet 0 s) (\<lambda>(a, s).
     Option.bind (read_octet 1 s) (\<lambda>(b, s).
     Option.bind (read_octet 2 s) (\<lambda>(c, s).
     Option.bind (read_octet 3 s) (\<lambda>(d, s). Some ([a, b, c, d], s)))))"

definition v4_of_octets :: "nat list \<Rightarrow> 32 word" where
  "v4_of_octets os = of_nat (foldl (\<lambda>acc o'. acc * 256 + o') 0 os)"

subsection \<open>IPv6\<close>

text \<open>
  \<open>read_groups limit i\<close> reads the groups \<open>i, i + 1, \<dots>\<close> of at most \<open>limit\<close>; the
  result is the groups read, whether they end with an embedded IPv4 address, and the
  rest of the text. The first argument counts the groups left, \<open>limit - i\<close>.
\<close>

fun read_groups :: "nat \<Rightarrow> nat \<Rightarrow> str \<Rightarrow> nat list \<times> bool \<times> str" where
  "read_groups 0 i s = ([], False, s)"
| "read_groups (Suc left) i s =
     (case (if left > 0 then read_separator (CHR '':'') i read_ipv4_addr s else None) of
        Some (os, r) \<Rightarrow> ([os ! 0 * 256 + os ! 1, os ! 2 * 256 + os ! 3], True, r)
      | None \<Rightarrow>
          (case read_separator (CHR '':'') i (read_number 16 65535 (Some 4) True) s of
             None \<Rightarrow> ([], False, s)
           | Some (g, r) \<Rightarrow>
               (case read_groups left (Suc i) r of (gs, v4, r') \<Rightarrow> (g # gs, v4, r'))))"

definition v6_of_groups :: "nat list \<Rightarrow> 128 word" where
  "v6_of_groups gs = of_nat (foldl (\<lambda>acc g. acc * 65536 + g) 0 gs)"

definition read_ipv6_addr :: "str \<Rightarrow> (128 word \<times> str) option" where
  "read_ipv6_addr s =
     (case read_groups 8 0 s of
        (hd_gs, head_ipv4, r) \<Rightarrow>
          if length hd_gs = 8 then Some (v6_of_groups hd_gs, r)
          else if head_ipv4 then None
          else Option.bind (read_given_char (CHR '':'') r) (\<lambda>r.
               Option.bind (read_given_char (CHR '':'') r) (\<lambda>r.
               (case read_groups (8 - (length hd_gs + 1)) 0 r of
                  (tl_gs, _, r') \<Rightarrow>
                    Some (v6_of_groups
                            (hd_gs @ replicate (8 - length hd_gs - length tl_gs) 0 @ tl_gs), r')))))"

subsection \<open>\<open>IpAddr::from_str\<close> and \<open>SocketAddr::from_str\<close>\<close>

definition read_ip_addr :: "str \<Rightarrow> (ip_addr \<times> str) option" where
  "read_ip_addr s =
     (case read_ipv4_addr s of
        Some (os, r) \<Rightarrow> Some (V4 (v4_of_octets os), r)
      | None \<Rightarrow> map_option (\<lambda>(w, r). (V6 w, r)) (read_ipv6_addr s))"

definition parse_ip :: "str \<Rightarrow> ip_addr option" where
  "parse_ip s =
     (case read_ip_addr s of Some (a, []) \<Rightarrow> Some a | _ \<Rightarrow> None)"

definition read_port :: "str \<Rightarrow> (nat \<times> str) option" where
  "read_port s = Option.bind (read_given_char (CHR '':'') s) (read_number 10 65535 None True)"

definition read_scope_id :: "str \<Rightarrow> (nat \<times> str) option" where
  "read_scope_id s =
     Option.bind (read_given_char (CHR ''%'') s) (read_number 10 4294967295 None True)"

definition read_socket_addr_v4 :: "str \<Rightarrow> (ip_addr \<times> nat \<times> str) option" where
  "read_socket_addr_v4 s =
     Option.bind (read_ipv4_addr s) (\<lambda>(os, r).
     Option.bind (read_port r) (\<lambda>(p, r). Some (V4 (v4_of_octets os), p, r)))"

definition read_socket_addr_v6 :: "str \<Rightarrow> (ip_addr \<times> nat \<times> str) option" where
  "read_socket_addr_v6 s =
     Option.bind (read_given_char (CHR ''['') s) (\<lambda>r.
     Option.bind (read_ipv6_addr r) (\<lambda>(w, r).
     (let r = (case read_scope_id r of Some (_, r') \<Rightarrow> r' | None \<Rightarrow> r) in
     Option.bind (read_given_char (CHR '']'') r) (\<lambda>r.
     Option.bind (read_port r) (\<lambda>(p, r). Some (V6 w, p, r))))))"

definition parse_socket_addr :: "str \<Rightarrow> (ip_addr \<times> nat) option" where
  "parse_socket_addr s =
     (case (case read_socket_addr_v4 s of Some x \<Rightarrow> Some x | None \<Rightarrow> read_socket_addr_v6 s) of
        Some (a, p, []) \<Rightarrow> Some (a, p)
      | _ \<Rightarrow> None)"

subsection \<open>The parsers on examples\<close>

lemmas ip_eval =
  parse_ip_def parse_socket_addr_def read_socket_addr_v4_def read_socket_addr_v6_def
  read_scope_id_def read_port_def read_ip_addr_def read_ipv4_addr_def read_ipv6_addr_def
  read_octet_def read_separator_def read_number_def to_digit_def read_given_char_def
  v4_of_octets_def v6_of_groups_def localhost_v4_def

lemmas read_groups_numeral =
  read_groups.simps(2) [of "pred_numeral k" for k, folded numeral_eq_Suc]

lemmas replicate_numeral =
  replicate.simps(2) [of "pred_numeral k" for k, folded numeral_eq_Suc]

lemma parse_ip_localhost: "parse_ip ''127.0.0.1'' = Some localhost_v4"
  by (simp add: ip_eval)

lemma parse_ip_v6_loopback: "parse_ip ''::1'' = Some (V6 1)"
  by (simp add: ip_eval read_groups_numeral replicate_numeral)

lemma parse_ip_v4_mapped: "parse_ip ''::ffff:10.0.0.1'' = Some (V6 0xFFFF0A000001)"
  by (simp add: ip_eval read_groups_numeral replicate_numeral)

lemma parse_ip_leading_zero: "parse_ip ''010.0.0.1'' = None"
  by (simp add: ip_eval read_groups_numeral replicate_numeral)

lemma parse_ip_overflow: "parse_ip ''256.0.0.1'' = None"
  by (simp add: ip_eval read_groups_numeral replicate_numeral)

lemma parse_socket_addr_default: "parse_socket_addr ''127.0.0.1:8080'' = Some (localhost_v4, 8080)"
  by (simp add: ip_eval)

lemma parse_socket_addr_v6: "parse_socket_addr ''[::]:80'' = Some (V6 0, 80)"
  by (simp add: ip_eval read_groups_numeral replicate_numeral)

end
