(* ===== verification/Externals.thy ===== *)
theory Externals
  imports Ip_Addr
begin

text \<open>
  The third-party functions the program calls, as one record that the definitions take as
  an argument: address and content-type parsing of \<open>lettre\<close>, base64 decoding of the
  \<open>base64\<close> crate, network prefixes of \<open>ipnet\<close>, the constant-time comparison of
  \<open>subtle\<close>, ULID parsing of \<open>ulid\<close>, header text of \<open>http\<close>, and the Unicode lower-casing tables behind
  \<open>str::to_lowercase\<close>. What the program relies on is stated as named hypotheses;
  \<open>example_externals\<close> is a concrete instance that satisfies them all.
\<close>

type_synonym bytes = "8 word list"

record externals =
  \<comment> \<open>\<open>s.parse::<lettre::Address>()\<close>, then \<open>to_string\<close>\<close>
  x_parse_address :: "str \<Rightarrow> str option"
  \<comment> \<open>\<open>s.parse::<lettre::message::Mailbox>()\<close>: display name and address\<close>
  x_parse_mailbox :: "str \<Rightarrow> (str option \<times> str) option"
  \<comment> \<open>\<open>s.parse::<lettre::message::header::ContentType>()\<close>\<close>
  x_parse_content_type :: "str \<Rightarrow> str option"
  \<comment> \<open>\<open>base64::engine::general_purpose::STANDARD.decode\<close>\<close>
  x_b64_decode :: "str \<Rightarrow> bytes option"
  \<comment> \<open>\<open>s.parse::<ipnet::IpNet>()\<close>, as the membership test \<open>contains\<close>\<close>
  x_parse_net :: "str \<Rightarrow> (ip_addr \<Rightarrow> bool) option"
  \<comment> \<open>\<open>subtle::ConstantTimeEq::ct_eq\<close> on slices of one length\<close>
  x_ct_eq :: "str \<Rightarrow> str \<Rightarrow> bool"
  \<comment> \<open>\<open>ulid::Ulid::from_string(s).is_ok()\<close>\<close>
  x_ulid_ok :: "str \<Rightarrow> bool"
  \<comment> \<open>\<open>str::to_lowercase\<close>\<close>
  x_to_lowercase :: "str \<Rightarrow> str"
  \<comment> \<open>\<open>http::HeaderValue::to_str().ok()\<close>\<close>
  x_header_to_str :: "str \<Rightarrow> str option"

subsection \<open>What the program relies on\<close>

text \<open>A string that parses as a mail address contains an at sign.\<close>

definition address_has_at :: "externals \<Rightarrow> bool" where
  "address_has_at X \<longleftrightarrow> (\<forall>s a. x_parse_address X s = Some a \<longrightarrow> CHR ''@'' \<in> set s)"

text \<open>\<open>ct_eq\<close> on slices of one length is equality.\<close>

definition ct_eq_correct :: "externals \<Rightarrow> bool" where
  "ct_eq_correct X \<longleftrightarrow> (\<forall>a b. length a = length b \<longrightarrow> x_ct_eq X a b = (a = b))"

text \<open>Lower-casing an ASCII string lower-cases its letters A to Z.\<close>

definition is_ascii :: "str \<Rightarrow> bool" where
  "is_ascii s \<longleftrightarrow> (\<forall>c\<in>set s. byte c < 128)"

definition lowercase_ascii :: "externals \<Rightarrow> bool" where
  "lowercase_ascii X \<longleftrightarrow> (\<forall>s. is_ascii s \<longrightarrow> x_to_lowercase X s = map ascii_lower s)"

subsection \<open>A concrete instance\<close>

text \<open>
  Addresses with a non-empty local part and domain around a single at sign, base64 of the
  standard alphabet with padding, the two loopback prefixes, and ASCII lower-casing.
\<close>

definition example_parse_address :: "str \<Rightarrow> str option" where
  "example_parse_address s =
     (case split_on (CHR ''@'') s of [l, d] \<Rightarrow> if l \<noteq> [] \<and> d \<noteq> [] then Some s else None | _ \<Rightarrow> None)"

definition b64_value :: "char \<Rightarrow> nat option" where
  "b64_value c =
     (let b = byte c in
      if 65 \<le> b \<and> b \<le> 90 then Some (b - 65)
      else if 97 \<le> b \<and> b \<le> 122 then Some (b - 71)
      else if 48 \<le> b \<and> b \<le> 57 then Some (b + 4)
      else if b = 43 then Some 62
      else if b = 47 then Some 63
      else None)"

fun example_b64_decode :: "str \<Rightarrow> bytes option" where
  "example_b64_decode [] = Some []"
| "example_b64_decode [a, b, c, d] =
     (case (b64_value a, b64_value b) of
        (Some x, Some y) \<Rightarrow>
          if c = CHR ''='' \<and> d = CHR ''='' then
            (if y mod 16 = 0 then Some [of_nat (x * 4 + y div 16)] else None)
          else (case b64_value c of
                  None \<Rightarrow> None
                | Some z \<Rightarrow>
                    if d = CHR ''='' then
                      (if z mod 4 = 0
                       then Some [of_nat (x * 4 + y div 16), of_nat (y mod 16 * 16 + z div 4)]
                       else None)
                    else (case b64_value d of
                            None \<Rightarrow> None
                          | Some w \<Rightarrow> Some [of_nat (x * 4 + y div 16),
                                           of_nat (y mod 16 * 16 + z div 4),
                                           of_nat (z mod 4 * 64 + w)]))
      | _ \<Rightarrow> None)"
| "example_b64_decode (a # b # c # d # s) =
     (case (b64_value a, b64_value b, b64_value c, b64_value d) of
        (Some x, Some y, Some z, Some w) \<Rightarrow>
          map_option (\<lambda>r. of_nat (x * 4 + y div 16) # of_nat (y mod 16 * 16 + z div 4)
                         # of_nat (z mod 4 * 64 + w) # r) (example_b64_decode s)
      | _ \<Rightarrow> None)"
| "example_b64_decode _ = None"

definition example_parse_net :: "str \<Rightarrow> (ip_addr \<Rightarrow> bool) option" where
  "example_parse_net s =
     (if s = ''127.0.0.1/32'' then Some (\<lambda>ip. ip = localhost_v4)
      else if s = ''::1/128'' then Some (\<lambda>ip. ip = V6 1)
      else None)"

definition example_externals :: externals where
  "example_externals =
     \<lparr>x_parse_address = example_parse_address,
      x_parse_mailbox = (\<lambda>s. map_option (Pair None) (example_parse_address s)),
      x_parse_content_type = (\<lambda>s. if CHR ''/'' \<in> set s then Some s else None),
      x_b64_decode = example_b64_decode,
      x_parse_net = example_parse_net,
      x_ct_eq = (=),
      x_ulid_ok = (\<lambda>s. length s = 26),
      x_to_lowercase = map ascii_lower,
      x_header_to_str =
        (\<lambda>v. if \<forall>c\<in>set v. 32 \<le> byte c \<and> byte c < 127 \<or> byte c = 9 then Some v else None)\<rparr>"

lemma example_externals_simps [simp]:
  "x_parse_address example_externals = example_parse_address"
  "x_parse_mailbox example_externals s = map_option (Pair None) (example_parse_address s)"
  "x_parse_content_type example_externals s = (if CHR ''/'' \<in> set s then Some s else None)"
  "x_b64_decode example_externals = example_b64_decode"
  "x_parse_net example_externals = example_parse_net"
  "x_ct_eq example_externals = (=)"
  "x_ulid_ok example_externals s = (length s = 26)"
  "x_to_lowercase example_externals = map ascii_lower"
  "x_header_to_str example_externals v =
     (if \<forall>c\<in>set v. 32 \<le> byte c \<and> byte c < 127 \<or> byte c = 9 then Some v else None)"
  by (simp_all add: example_externals_def)

lemma split_on_no_sep: "c \<notin> set s \<Longrightarrow> split_on c s = [s]"
  by (induction s) auto

lemma example_address_has_at: "address_has_at example_externals"
proof -
  have "CHR ''@'' \<in> set s" if "example_parse_address s = Some a" for s a
    using that split_on_no_sep [of "CHR ''@''" s]
    by (cases "CHR ''@'' \<in> set s") (auto simp: example_parse_address_def)
  then show ?thesis by (simp add: address_has_at_def)
qed

lemma example_ct_eq_correct: "ct_eq_correct example_externals"
  by (simp add: ct_eq_correct_def)

lemma example_lowercase_ascii: "lowercase_ascii example_externals"
  by (simp add: lowercase_ascii_def)

end
