(* ===== verification/Config.thy ===== *)
theory Config
  imports Externals
begin

text \<open>
  \<open>config.rs\<close> and the \<open>Default\<close> implementations of \<open>config/validate.rs\<close>: the
  configuration records, the defaults, the effective burst sizes, and the two functions
  that decide what a SIGHUP reload changes.
\<close>

subsection \<open>Configuration records\<close>

record status_config =
  sc_enabled :: bool
  sc_store :: str
  sc_ttl_seconds :: u64
  sc_max_records :: usize
  sc_cleanup_interval_seconds :: u64
  sc_db_path :: "str option"
  sc_redis_url :: "str option"

record server_config =
  sv_bind_address :: str
  sv_max_request_body_bytes :: usize
  sv_request_timeout_seconds :: u64
  sv_shutdown_timeout_seconds :: u64
  sv_concurrency_limit :: usize
  sv_tls_cert :: "str option"
  sv_tls_key :: "str option"
  sv_monitoring_cidrs :: "str list"

text \<open>\<open>SecretString\<close>: shown only as a fixed text, read through \<open>expose\<close>.\<close>

datatype secret_string = SecretString (expose: str)

definition secret_display :: "secret_string \<Rightarrow> str" where
  "secret_display _ = ''[REDACTED]''"

record api_key_config =
  ak_id :: str
  ak_secret :: secret_string
  ak_enabled :: bool
  ak_description :: "str option"
  ak_allowed_recipient_domains :: "str list"
  ak_allowed_recipients :: "str list"
  ak_rate_limit_per_min :: "u32 option"
  ak_burst :: u32
  ak_mask_recipient :: "bool option"

record security_config =
  se_trust_proxy_headers :: bool
  se_trusted_source_cidrs :: "str list"
  se_allowed_source_cidrs :: "str list"
  se_api_keys :: "api_key_config list"

record mail_config =
  ml_default_from :: str
  ml_default_from_name :: "str option"
  ml_allowed_recipient_domains :: "str list"
  ml_max_subject_chars :: usize
  ml_max_body_bytes :: usize
  ml_max_recipients :: usize
  ml_max_attachments :: usize
  ml_max_attachment_bytes :: usize
  ml_max_bulk_messages :: usize
  ml_allow_html_body :: bool
  ml_allow_attachments :: bool
  ml_allow_bulk_send :: bool
  ml_max_total_attachment_bytes :: "usize option"

record smtp_config =
  sm_mode :: str
  sm_tls :: str
  sm_host :: str
  sm_port :: u16
  sm_connect_timeout_seconds :: u64
  sm_submission_timeout_seconds :: u64
  sm_auth_user :: "str option"
  sm_auth_password :: "secret_string option"
  sm_pipe_command :: str
  sm_bulk_concurrency :: usize

record rate_limit_config =
  rl_global_per_min :: u32
  rl_per_ip_per_min :: u32
  rl_per_key_per_min :: u32
  rl_global_burst :: u32
  rl_per_ip_burst :: u32
  rl_per_key_burst :: u32
  rl_burst_size :: u32
  rl_ip_table_size :: usize

record logging_config =
  lg_format :: str
  lg_level :: str
  lg_mask_recipient :: bool

record app_config =
  cf_server :: server_config
  cf_security :: security_config
  cf_mail :: mail_config
  cf_smtp :: smtp_config
  cf_rate_limit :: rate_limit_config
  cf_logging :: logging_config
  cf_status :: status_config

subsection \<open>Defaults\<close>

definition default_status_config :: status_config where
  "default_status_config =
     \<lparr>sc_enabled = True, sc_store = ''memory'', sc_ttl_seconds = 3600, sc_max_records = 10000,
      sc_cleanup_interval_seconds = 60, sc_db_path = None, sc_redis_url = None\<rparr>"

definition default_global_burst :: u32 where "default_global_burst = 10"
definition default_per_ip_burst :: u32 where "default_per_ip_burst = 5"
definition default_per_key_burst :: u32 where "default_per_key_burst = 5"

definition default_rate_limit_config :: rate_limit_config where
  "default_rate_limit_config =
     \<lparr>rl_global_per_min = 60, rl_per_ip_per_min = 20, rl_per_key_per_min = 30,
      rl_global_burst = default_global_burst, rl_per_ip_burst = default_per_ip_burst,
      rl_per_key_burst = default_per_key_burst, rl_burst_size = 0, rl_ip_table_size = 10000\<rparr>"

definition default_logging_config :: logging_config where
  "default_logging_config =
     \<lparr>lg_format = ''text'', lg_level = ''info'', lg_mask_recipient = False\<rparr>"

text \<open>
  The sections that have required fields, with the defaults of every other field: what
  deserialisation yields for a section that sets the required fields only.
\<close>

definition default_server_config :: "str \<Rightarrow> server_config" where
  "default_server_config bind =
     \<lparr>sv_bind_address = bind, sv_max_request_body_bytes = 1048576,
      sv_request_timeout_seconds = 30, sv_shutdown_timeout_seconds = 30,
      sv_concurrency_limit = 0, sv_tls_cert = None, sv_tls_key = None,
      sv_monitoring_cidrs = [''127.0.0.1/32'', ''::1/128'']\<rparr>"

definition default_mail_config :: "str \<Rightarrow> mail_config" where
  "default_mail_config from =
     \<lparr>ml_default_from = from, ml_default_from_name = None, ml_allowed_recipient_domains = [],
      ml_max_subject_chars = 255, ml_max_body_bytes = 65536, ml_max_recipients = 10,
      ml_max_attachments = 5, ml_max_attachment_bytes = 10 * 1024 * 1024,
      ml_max_bulk_messages = 10, ml_allow_html_body = False, ml_allow_attachments = False,
      ml_allow_bulk_send = False, ml_max_total_attachment_bytes = None\<rparr>"

definition default_smtp_config :: smtp_config where
  "default_smtp_config =
     \<lparr>sm_mode = ''smtp'', sm_tls = ''none'', sm_host = ''127.0.0.1'', sm_port = 25,
      sm_connect_timeout_seconds = 5, sm_submission_timeout_seconds = 30,
      sm_auth_user = None, sm_auth_password = None,
      sm_pipe_command = ''/usr/sbin/sendmail'', sm_bulk_concurrency = 5\<rparr>"

definition default_security_config :: "api_key_config list \<Rightarrow> security_config" where
  "default_security_config keys =
     \<lparr>se_trust_proxy_headers = False, se_trusted_source_cidrs = [],
      se_allowed_source_cidrs = [], se_api_keys = keys\<rparr>"

definition default_api_key :: "str \<Rightarrow> str \<Rightarrow> api_key_config" where
  "default_api_key i secret =
     \<lparr>ak_id = i, ak_secret = SecretString secret, ak_enabled = True, ak_description = None,
      ak_allowed_recipient_domains = [], ak_allowed_recipients = [],
      ak_rate_limit_per_min = None, ak_burst = 0, ak_mask_recipient = None\<rparr>"

subsection \<open>Effective burst sizes\<close>

definition effective_global_burst :: "rate_limit_config \<Rightarrow> u32" where
  "effective_global_burst c =
     (if rl_global_burst c > 0 then rl_global_burst c
      else if rl_burst_size c > 0 then rl_burst_size c
      else default_global_burst)"

definition effective_per_ip_burst :: "rate_limit_config \<Rightarrow> u32" where
  "effective_per_ip_burst c =
     (if rl_per_ip_burst c > 0 then rl_per_ip_burst c
      else if rl_burst_size c > 0 then rl_burst_size c
      else default_per_ip_burst)"

definition effective_per_key_burst :: "rate_limit_config \<Rightarrow> u32" where
  "effective_per_key_burst c =
     (if rl_per_key_burst c > 0 then rl_per_key_burst c
      else if rl_burst_size c > 0 then rl_burst_size c
      else default_per_key_burst)"

lemma effective_bursts_positive:
  "effective_global_burst c > 0" "effective_per_ip_burst c > 0" "effective_per_key_burst c > 0"
  by (simp_all add: effective_global_burst_def effective_per_ip_burst_def
      effective_per_key_burst_def default_global_burst_def default_per_ip_burst_def
      default_per_key_burst_def)

subsection \<open>Reload boundary\<close>

text \<open>
  \<open>restart_required_changes\<close>: the labels of the changed fields, in the order of the
  checks; \<open>merge_reloadable\<close>: the configuration that takes effect.
\<close>

definition restart_checks :: "app_config \<Rightarrow> app_config \<Rightarrow> (bool \<times> str) list" where
  "restart_checks old new =
     [(sv_bind_address (cf_server old) \<noteq> sv_bind_address (cf_server new), ''server.bind_address''),
      (sv_request_timeout_seconds (cf_server old) \<noteq> sv_request_timeout_seconds (cf_server new),
         ''server.request_timeout_seconds''),
      (sv_max_request_body_bytes (cf_server old) \<noteq> sv_max_request_body_bytes (cf_server new),
         ''server.max_request_body_bytes''),
      (sv_concurrency_limit (cf_server old) \<noteq> sv_concurrency_limit (cf_server new),
         ''server.concurrency_limit''),
      (sm_host (cf_smtp old) \<noteq> sm_host (cf_smtp new), ''smtp.host''),
      (sm_port (cf_smtp old) \<noteq> sm_port (cf_smtp new), ''smtp.port''),
      (sm_mode (cf_smtp old) \<noteq> sm_mode (cf_smtp new), ''smtp.mode''),
      (rl_global_per_min (cf_rate_limit old) \<noteq> rl_global_per_min (cf_rate_limit new),
         ''rate_limit.global_per_min''),
      (rl_per_ip_per_min (cf_rate_limit old) \<noteq> rl_per_ip_per_min (cf_rate_limit new),
         ''rate_limit.per_ip_per_min''),
      (rl_per_key_per_min (cf_rate_limit old) \<noteq> rl_per_key_per_min (cf_rate_limit new),
         ''rate_limit.per_key_per_min''),
      (se_trust_proxy_headers (cf_security old) \<noteq> se_trust_proxy_headers (cf_security new),
         ''security.trust_proxy_headers''),
      (se_trusted_source_cidrs (cf_security old) \<noteq> se_trusted_source_cidrs (cf_security new),
         ''security.trusted_source_cidrs''),
      (se_allowed_source_cidrs (cf_security old) \<noteq> se_allowed_source_cidrs (cf_security new),
         ''security.allowed_source_cidrs''),
      (sc_enabled (cf_status old) \<noteq> sc_enabled (cf_status new), ''status.enabled''),
      (sc_store (cf_status old) \<noteq> sc_store (cf_status new), ''status.store''),
      (sc_db_path (cf_status old) \<noteq> sc_db_path (cf_status new), ''status.db_path''),
      (sc_redis_url (cf_status old) \<noteq> sc_redis_url (cf_status new), ''status.redis_url'')]"

definition restart_required_changes :: "app_config \<Rightarrow> app_config \<Rightarrow> str list" where
  "restart_required_changes old new = map snd (filter fst (restart_checks old new))"

definition merge_reloadable :: "app_config \<Rightarrow> app_config \<Rightarrow> app_config" where
  "merge_reloadable current new =
     \<lparr>cf_server = cf_server current,
      cf_security = cf_security new,
      cf_mail = cf_mail new,
      cf_smtp = cf_smtp current,
      cf_rate_limit = cf_rate_limit current,
      cf_logging = cf_logging new,
      cf_status =
        \<lparr>sc_enabled = sc_enabled (cf_status current),
         sc_store = sc_store (cf_status current),
         sc_ttl_seconds = sc_ttl_seconds (cf_status new),
         sc_max_records = sc_max_records (cf_status new),
         sc_cleanup_interval_seconds = sc_cleanup_interval_seconds (cf_status new),
         sc_db_path = sc_db_path (cf_status current),
         sc_redis_url = sc_redis_url (cf_status current)\<rparr>\<rparr>"

lemma merge_reloadable_idem:
  "merge_reloadable (merge_reloadable c n) n = merge_reloadable c n"
  by (simp add: merge_reloadable_def)

definition reloaded_anyway :: "str list" where
  "reloaded_anyway = [''security.trust_proxy_headers'', ''security.trusted_source_cidrs'',
     ''security.allowed_source_cidrs'']"

lemma filter_mask:
  "filter fst (map (\<lambda>(b, l). (b \<and> P l, l)) xs) = filter (\<lambda>x. P (snd x)) (filter fst xs)"
  by (induction xs) auto

lemma restart_checks_merged:
  "restart_checks current (merge_reloadable current new)
     = map (\<lambda>(b, l). (b \<and> l \<in> set reloaded_anyway, l)) (restart_checks current new)"
  by (simp add: restart_checks_def merge_reloadable_def reloaded_anyway_def)

lemma restart_required_merged:
  "restart_required_changes current (merge_reloadable current new)
     = filter (\<lambda>l. l \<in> set reloaded_anyway) (restart_required_changes current new)"
  unfolding restart_required_changes_def restart_checks_merged filter_mask
  by (simp only: filter_map o_def)

end
