(* ===== verification/Config_Validate.thy ===== *)
theory Config_Validate
  imports Config
begin

text \<open>
  \<open>config/validate.rs\<close>: the checks a configuration passes before the server starts or
  a reload takes effect, in the order of the source, with the error of the first check
  that fails. The cargo features that compile the \<open>tls\<close>, \<open>sqlite\<close> and \<open>redis\<close> parts
  in are an argument.
\<close>

datatype config_error =
    ConfigIo str
  | ConfigParse str
  | InvalidBindAddress
  | InvalidDefaultFrom
  | NoApiKeys
  | NoEnabledApiKeys
  | InvalidCidr str
  | ConfigValidation str
  | InvalidSmtpPort
  | InvalidRateLimit
  | InvalidLogLevel
  | InvalidLogFormat

record features =
  ft_tls :: bool
  ft_sqlite :: bool
  ft_redis :: bool

subsection \<open>The checks, one group each\<close>

definition check_cidr :: "externals \<Rightarrow> str \<Rightarrow> config_error + unit" where
  "check_cidr X cidr = guard_err (x_parse_net X cidr = None) (InvalidCidr cidr)"

definition check_smtp_tls :: "smtp_config \<Rightarrow> config_error + unit" where
  "check_smtp_tls c =
     guard_err (sm_tls c \<notin> {''none'', ''starttls'', ''tls''})
       (ConfigValidation (''smtp.tls must be \"none\", \"starttls\", or \"tls\"; got \"''
          @ sm_tls c @ ''\"''))"

definition check_smtp_auth :: "smtp_config \<Rightarrow> config_error + unit" where
  "check_smtp_auth c =
     (case (sm_auth_user c, sm_auth_password c) of
        (Some _, None) \<Rightarrow> Inl (ConfigValidation
            ''smtp.auth_user and smtp.auth_password must both be set or both absent'')
      | (None, Some _) \<Rightarrow> Inl (ConfigValidation
            ''smtp.auth_user and smtp.auth_password must both be set or both absent'')
      | _ \<Rightarrow> Inr ())"

definition check_tls_files :: "features \<Rightarrow> server_config \<Rightarrow> config_error + unit" where
  "check_tls_files F c =
     (case (sv_tls_cert c, sv_tls_key c) of
        (Some _, None) \<Rightarrow> Inl (ConfigValidation
            ''server.tls_cert and server.tls_key must both be set or both be absent'')
      | (None, Some _) \<Rightarrow> Inl (ConfigValidation
            ''server.tls_cert and server.tls_key must both be set or both be absent'')
      | (Some _, Some _) \<Rightarrow> guard_err (\<not> ft_tls F) (ConfigValidation
            ''server.tls_cert/tls_key is configured but TLS is not available in this build.                  Rebuild with: cargo build --features tls'')
      | (None, None) \<Rightarrow> Inr ())"

definition check_status_store :: "features \<Rightarrow> status_config \<Rightarrow> config_error + unit" where
  "check_status_store F c =
     (if sc_enabled c then
        (if sc_store c = ''sqlite'' then
           and_then (guard_err (sc_db_path c = None) (ConfigValidation
              ''status.db_path is required when status.store = \"sqlite\"''))
             (\<lambda>_. guard_err (\<not> ft_sqlite F) (ConfigValidation
              ''status.store = \"sqlite\" is not available in this build.              Rebuild with: cargo build --features sqlite''))
         else if sc_store c = ''redis'' then
           and_then (guard_err (sc_redis_url c = None) (ConfigValidation
              ''status.redis_url is required when status.store = \"redis\"''))
             (\<lambda>_. guard_err (\<not> ft_redis F) (ConfigValidation
              ''status.store = \"redis\" is not available in this build.              Rebuild with: cargo build --features redis''))
         else guard_err (sc_store c \<noteq> ''memory'') (ConfigValidation
              (''status.store must be \"memory\", \"sqlite\", or \"redis\"; got \"''
                 @ sc_store c @ ''\"'')))
      else Inr ())"

definition check_pipe_auth :: "smtp_config \<Rightarrow> config_error + unit" where
  "check_pipe_auth c =
     guard_err (sm_mode c = ''pipe'' \<and> (sm_auth_user c \<noteq> None \<or> sm_auth_password c \<noteq> None))
       (ConfigValidation
          ''smtp.auth_user/auth_password are not applicable when smtp.mode = \"pipe\"'')"

definition min_secret_len :: nat where "min_secret_len = 32"

definition blocked_secrets :: "str list" where
  "blocked_secrets =
     [''your-secret-here'', ''generate-with-openssl-rand-base64-32'', ''changeme'',
      ''secret'', ''password'', ''example-secret'', ''replace-me'']"

definition check_api_key_secret :: "api_key_config \<Rightarrow> config_error + unit" where
  "check_api_key_secret key =
     (let s = expose (ak_secret key) in
      and_then (guard_err (length s < min_secret_len) (ConfigValidation
          (''api_keys['' @ ak_id key @ ''].secret: minimum '' @ show_nat min_secret_len
             @ '' bytes required (got '' @ show_nat (length s)
             @ '').                  Generate with: openssl rand -base64 32'')))
        (\<lambda>_. guard_err (\<exists>b\<in>set blocked_secrets. contains_str s b) (ConfigValidation
          (''api_keys['' @ ak_id key
             @ ''].secret: placeholder value detected.                  Replace with: openssl rand -base64 32''))))"

subsection \<open>\<open>validate_config\<close>\<close>

definition validate_config :: "externals \<Rightarrow> features \<Rightarrow> app_config \<Rightarrow> config_error + unit" where
  "validate_config X F config =
     and_then (ok_or (parse_socket_addr (sv_bind_address (cf_server config))) InvalidBindAddress)
       (\<lambda>_.
     and_then (ok_or (x_parse_address X (ml_default_from (cf_mail config))) InvalidDefaultFrom)
       (\<lambda>_.
     and_then (for_each (check_cidr X)
         (se_trusted_source_cidrs (cf_security config)
            @ se_allowed_source_cidrs (cf_security config)))
       (\<lambda>_.
     and_then (guard_err (sm_port (cf_smtp config) = 0) InvalidSmtpPort) (\<lambda>_.
     and_then (check_smtp_tls (cf_smtp config)) (\<lambda>_.
     and_then (check_smtp_auth (cf_smtp config)) (\<lambda>_.
     and_then (check_tls_files F (cf_server config)) (\<lambda>_.
     and_then (check_status_store F (cf_status config)) (\<lambda>_.
     and_then (check_pipe_auth (cf_smtp config)) (\<lambda>_.
     and_then (guard_err (rl_global_per_min (cf_rate_limit config) = 0
                           \<or> rl_per_ip_per_min (cf_rate_limit config) = 0) InvalidRateLimit)
       (\<lambda>_.
     and_then (guard_err (lg_level (cf_logging config)
                 \<notin> set [''trace'', ''debug'', ''info'', ''warn'', ''error'']) InvalidLogLevel)
       (\<lambda>_.
     and_then (guard_err (lg_format (cf_logging config) \<notin> set [''text'', ''json''])
                 InvalidLogFormat)
       (\<lambda>_.
     and_then (for_each check_api_key_secret (se_api_keys (cf_security config))) (\<lambda>_.
     and_then (guard_err (se_api_keys (cf_security config) = []) NoApiKeys) (\<lambda>_.
     guard_err (\<not> (\<exists>k\<in>set (se_api_keys (cf_security config)). ak_enabled k))
       NoEnabledApiKeys))))))))))))))"

text \<open>
  \<open>load_from_str\<close> and \<open>load\<close>: the TOML parser and the file are outside the program, so
  their results are arguments.
\<close>

definition load_from_str ::
  "externals \<Rightarrow> features \<Rightarrow> (str \<Rightarrow> str + app_config) \<Rightarrow> str \<Rightarrow> config_error + app_config" where
  "load_from_str X F toml text =
     (case toml text of
        Inl e \<Rightarrow> Inl (ConfigParse e)
      | Inr config \<Rightarrow> and_then (validate_config X F config) (\<lambda>_. Inr config))"

definition load ::
  "externals \<Rightarrow> features \<Rightarrow> (str \<Rightarrow> str + app_config) \<Rightarrow> (str \<Rightarrow> str + str) \<Rightarrow> str \<Rightarrow>
     config_error + app_config" where
  "load X F toml read_file path =
     (case read_file path of
        Inl e \<Rightarrow> Inl (ConfigIo e)
      | Inr text \<Rightarrow>
          (case toml text of
             Inl e \<Rightarrow> Inl (ConfigParse e)
           | Inr config \<Rightarrow> and_then (validate_config X F config) (\<lambda>_. Inr config)))"

subsection \<open>Lemmas\<close>

lemma check_status_store_Inr_iff:
  "check_status_store F c = Inr u \<longleftrightarrow>
     (sc_enabled c \<longrightarrow>
        sc_store c = ''memory''
        \<or> sc_store c = ''sqlite'' \<and> sc_db_path c \<noteq> None \<and> ft_sqlite F
        \<or> sc_store c = ''redis'' \<and> sc_redis_url c \<noteq> None \<and> ft_redis F)"
  by (auto simp: check_status_store_def)

lemma check_smtp_auth_Inr_iff:
  "check_smtp_auth c = Inr u \<longleftrightarrow> (sm_auth_user c = None \<longleftrightarrow> sm_auth_password c = None)"
  by (auto simp: check_smtp_auth_def split: option.splits)

lemma check_tls_files_Inr_iff:
  "check_tls_files F c = Inr u \<longleftrightarrow>
     (sv_tls_cert c = None \<longleftrightarrow> sv_tls_key c = None) \<and> (sv_tls_cert c \<noteq> None \<longrightarrow> ft_tls F)"
  by (auto simp: check_tls_files_def split: option.splits)

lemma check_api_key_secret_Inr_iff:
  "check_api_key_secret k = Inr u \<longleftrightarrow>
     min_secret_len \<le> length (expose (ak_secret k))
     \<and> (\<forall>b\<in>set blocked_secrets. \<not> contains_str (expose (ak_secret k)) b)"
  by (auto simp: check_api_key_secret_def Let_def)

lemmas config_check_iffs =
  check_status_store_Inr_iff check_smtp_auth_Inr_iff check_tls_files_Inr_iff
  check_api_key_secret_Inr_iff

end
