(* ===== verification/Policy.thy ===== *)
theory Policy
  imports Config
begin

text \<open>
  \<open>policy.rs\<close>: lookup of the configuration of an API key, and the predicates that say
  whether a recipient domain or address is allowed, globally and for a key.
\<close>

definition find_key :: "app_config \<Rightarrow> str \<Rightarrow> api_key_config option" where
  "find_key config key_id = find (\<lambda>k. ak_id k = key_id) (se_api_keys (cf_security config))"

definition domain_in :: "str list \<Rightarrow> str \<Rightarrow> bool" where
  "domain_in ds domain \<longleftrightarrow> (\<exists>d\<in>set ds. eq_ignore_ascii_case d domain)"

definition domain_permitted_globally :: "app_config \<Rightarrow> str \<Rightarrow> bool" where
  "domain_permitted_globally config domain \<longleftrightarrow>
     ml_allowed_recipient_domains (cf_mail config) = []
     \<or> domain_in (ml_allowed_recipient_domains (cf_mail config)) domain"

definition domain_permitted_for_key :: "api_key_config \<Rightarrow> str \<Rightarrow> bool" where
  "domain_permitted_for_key key domain \<longleftrightarrow>
     ak_allowed_recipient_domains key = []
     \<or> domain_in (ak_allowed_recipient_domains key) domain"

definition policy_extract_domain :: "str \<Rightarrow> str" where
  "policy_extract_domain address = (case after_last (CHR ''@'') address of Some d \<Rightarrow> d | None \<Rightarrow> [])"

definition address_permitted_for_key :: "api_key_config \<Rightarrow> str \<Rightarrow> bool" where
  "address_permitted_for_key key address =
     (if ak_allowed_recipients key \<noteq> []
      then (\<exists>r\<in>set (ak_allowed_recipients key). eq_ignore_ascii_case r address)
      else domain_permitted_for_key key (policy_extract_domain address))"

subsection \<open>Lemmas\<close>

lemma domain_in_cong_case:
  "eq_ignore_ascii_case a b \<Longrightarrow> domain_in ds a \<longleftrightarrow> domain_in ds b"
  by (meson domain_in_def eq_ignore_ascii_case_sym eq_ignore_ascii_case_trans)

lemma domain_permitted_cong_case:
  assumes "eq_ignore_ascii_case a b"
  shows "domain_permitted_globally c a \<longleftrightarrow> domain_permitted_globally c b"
    and "domain_permitted_for_key k a \<longleftrightarrow> domain_permitted_for_key k b"
  using domain_in_cong_case [OF assms]
  by (simp_all add: domain_permitted_globally_def domain_permitted_for_key_def)

lemma domain_in_lower [simp]: "domain_in ds (map ascii_lower d) \<longleftrightarrow> domain_in ds d"
  by (simp add: domain_in_def)

text \<open>With distinct key ids the lookup by id finds every configured key.\<close>

lemma find_key_distinct:
  assumes "distinct (map ak_id (se_api_keys (cf_security config)))"
    and "k \<in> set (se_api_keys (cf_security config))"
  shows "find_key config (ak_id k) = Some k"
  using assms by (simp add: find_key_def find_distinct_key)

lemma find_key_SomeD:
  "find_key config i = Some k \<Longrightarrow> ak_id k = i \<and> k \<in> set (se_api_keys (cf_security config))"
  by (auto simp: find_key_def dest: find_SomeD)

end
