(* ===== verification/Errors.thy ===== *)
theory Errors
  imports Rust_Str
begin

text \<open>
  \<open>error.rs\<close>: the external error codes, the internal error type, the HTTP status
  and message each error maps to, and the JSON responses built from them.
\<close>

subsection \<open>JSON values\<close>

text \<open>
  The part of \<open>serde_json::Value\<close> the handlers build with \<open>json!\<close> and read with
  \<open>get\<close> and \<open>as_str\<close>. An object is the list of its fields.
\<close>

datatype json =
    JNull
  | JBool bool
  | JNum int
  | JStr str
  | JArr "json list"
  | JObj "(str \<times> json) list"

definition json_get :: "json \<Rightarrow> str \<Rightarrow> json option" where
  "json_get v k = (case v of JObj fs \<Rightarrow> map_of fs k | _ \<Rightarrow> None)"

definition json_as_str :: "json \<Rightarrow> str option" where
  "json_as_str v = (case v of JStr s \<Rightarrow> Some s | _ \<Rightarrow> None)"

definition json_opt :: "('a \<Rightarrow> json) \<Rightarrow> 'a option \<Rightarrow> json" where
  "json_opt f x = (case x of None \<Rightarrow> JNull | Some v \<Rightarrow> f v)"

subsection \<open>\<open>ErrorCode\<close>\<close>

datatype error_code =
    Code_BadRequest
  | Code_ValidationFailed
  | Code_Unauthorized
  | Code_Forbidden
  | Code_PayloadTooLarge
  | Code_UnsupportedMediaType
  | Code_RateLimited
  | Code_SmtpUnavailable
  | Code_SmtpRejected
  | Code_SubmissionNotFound
  | Code_StatusStoreUnavailable
  | Code_FeatureDisabled
  | Code_InternalError

fun code_as_str :: "error_code \<Rightarrow> str" where
  "code_as_str Code_BadRequest = ''bad_request''"
| "code_as_str Code_ValidationFailed = ''validation_failed''"
| "code_as_str Code_Unauthorized = ''unauthorized''"
| "code_as_str Code_Forbidden = ''forbidden''"
| "code_as_str Code_PayloadTooLarge = ''payload_too_large''"
| "code_as_str Code_UnsupportedMediaType = ''unsupported_media_type''"
| "code_as_str Code_RateLimited = ''rate_limited''"
| "code_as_str Code_SmtpUnavailable = ''smtp_unavailable''"
| "code_as_str Code_SmtpRejected = ''smtp_rejected''"
| "code_as_str Code_SubmissionNotFound = ''submission_not_found''"
| "code_as_str Code_StatusStoreUnavailable = ''status_store_unavailable''"
| "code_as_str Code_FeatureDisabled = ''feature_disabled''"
| "code_as_str Code_InternalError = ''internal_error''"

lemma code_as_str_inj: "code_as_str a = code_as_str b \<longleftrightarrow> a = b"
  by (cases a; cases b) simp_all

subsection \<open>\<open>AppError\<close>\<close>

datatype app_error =
    BadRequest
  | Unauthorized
  | Forbidden
  | PayloadTooLarge
  | UnsupportedMediaType
  | RateLimited (retry_after_secs: "u64 option")
  | Validation str
  | SmtpUnavailable
  | SmtpRejected
  | FeatureDisabled str
  | Internal

fun app_error_code :: "app_error \<Rightarrow> error_code" where
  "app_error_code BadRequest = Code_BadRequest"
| "app_error_code Unauthorized = Code_Unauthorized"
| "app_error_code Forbidden = Code_Forbidden"
| "app_error_code PayloadTooLarge = Code_PayloadTooLarge"
| "app_error_code UnsupportedMediaType = Code_UnsupportedMediaType"
| "app_error_code (RateLimited _) = Code_RateLimited"
| "app_error_code (Validation _) = Code_ValidationFailed"
| "app_error_code SmtpUnavailable = Code_SmtpUnavailable"
| "app_error_code SmtpRejected = Code_SmtpRejected"
| "app_error_code (FeatureDisabled _) = Code_FeatureDisabled"
| "app_error_code Internal = Code_InternalError"

fun http_status :: "app_error \<Rightarrow> nat" where
  "http_status BadRequest = 400"
| "http_status (Validation _) = 400"
| "http_status Unauthorized = 401"
| "http_status Forbidden = 403"
| "http_status PayloadTooLarge = 413"
| "http_status UnsupportedMediaType = 415"
| "http_status (RateLimited _) = 429"
| "http_status SmtpUnavailable = 502"
| "http_status SmtpRejected = 502"
| "http_status (FeatureDisabled _) = 404"
| "http_status Internal = 500"

text \<open>The \<open>Display\<close> text of an error, from its \<open>#[error]\<close> attribute.\<close>

fun app_error_display :: "app_error \<Rightarrow> str" where
  "app_error_display BadRequest = ''request payload is not valid JSON or contains unknown fields''"
| "app_error_display Unauthorized = ''authentication required''"
| "app_error_display Forbidden = ''access denied''"
| "app_error_display PayloadTooLarge = ''request payload too large''"
| "app_error_display UnsupportedMediaType = ''unsupported media type''"
| "app_error_display (RateLimited _) = ''rate limit exceeded''"
| "app_error_display (Validation m) = ''validation failed: '' @ m"
| "app_error_display SmtpUnavailable = ''SMTP server unavailable''"
| "app_error_display SmtpRejected = ''SMTP server rejected the message''"
| "app_error_display (FeatureDisabled f) = ''feature disabled: '' @ f"
| "app_error_display Internal = ''internal error''"

fun client_message :: "app_error \<Rightarrow> str" where
  "client_message Internal = ''An internal error occurred.''"
| "client_message (FeatureDisabled f) = ''Feature not available: '' @ f"
| "client_message e = app_error_display e"

subsection \<open>Responses\<close>

record response =
  rs_status :: nat
  rs_body :: json
  rs_retry_after :: "str option"

text \<open>
  \<open>Retry-After\<close> is set when the error carries a number of seconds; its decimal text is
  always a legal header value.
\<close>

fun retry_after_header :: "app_error \<Rightarrow> str option" where
  "retry_after_header (RateLimited (Some s)) = Some (show_nat (unat s))"
| "retry_after_header _ = None"

record request_error =
  re_request_id :: str
  re_source :: app_error

definition request_error_response :: "request_error \<Rightarrow> response" where
  "request_error_response re =
     \<lparr>rs_status = http_status (re_source re),
      rs_body = JObj
        [(''status'', JStr ''error''),
         (''code'', JStr (code_as_str (app_error_code (re_source re)))),
         (''message'', JStr (client_message (re_source re))),
         (''request_id'', JStr (re_request_id re))],
      rs_retry_after = retry_after_header (re_source re)\<rparr>"

definition app_error_response :: "app_error \<Rightarrow> response" where
  "app_error_response e =
     \<lparr>rs_status = http_status e,
      rs_body = JObj
        [(''status'', JStr ''error''),
         (''code'', JStr (code_as_str (app_error_code e))),
         (''message'', JStr (client_message e))],
      rs_retry_after = retry_after_header e\<rparr>"

subsection \<open>Lemmas\<close>

lemma http_status_range: "400 \<le> http_status e \<and> http_status e < 600"
  by (cases e) simp_all

lemma retry_after_header_iff:
  "retry_after_header e = Some h \<longleftrightarrow> (\<exists>s. e = RateLimited (Some s) \<and> h = show_nat (unat s))"
  by (cases e rule: retry_after_header.cases) auto

end
