(* ===== verification/Metrics.thy ===== *)
theory Metrics
  imports Rust_Str
begin

text \<open>
  \<open>metrics.rs\<close>: the Prometheus metrics as a record of counters. A labelled counter
  maps its label (or label pair) to its value; the gauge of live status records is an
  integer, as the program can take it below zero; the histogram of SMTP durations keeps
  its observations, in nanoseconds. The registry and the text encoder belong to the
  \<open>prometheus\<close> crate.
\<close>

record metrics =
  mt_requests :: "str \<Rightarrow> nat"
  mt_smtp_submissions :: "str \<Rightarrow> nat"
  mt_smtp_durations :: "nat list"
  mt_auth_failures :: "str \<Rightarrow> nat"
  mt_rate_limited :: "str \<Rightarrow> nat"
  mt_validation_failures :: "str \<Rightarrow> nat"
  mt_status_records_current :: int
  mt_status_transitions :: "str \<times> str \<Rightarrow> nat"
  mt_status_expired :: nat

definition metrics_new :: metrics where
  "metrics_new =
     \<lparr>mt_requests = (\<lambda>_. 0), mt_smtp_submissions = (\<lambda>_. 0), mt_smtp_durations = [],
      mt_auth_failures = (\<lambda>_. 0), mt_rate_limited = (\<lambda>_. 0), mt_validation_failures = (\<lambda>_. 0),
      mt_status_records_current = 0, mt_status_transitions = (\<lambda>_. 0), mt_status_expired = 0\<rparr>"

definition bump :: "'a \<Rightarrow> ('a \<Rightarrow> nat) \<Rightarrow> ('a \<Rightarrow> nat)" where
  "bump l f = f(l := Suc (f l))"

definition inc_request :: "str \<Rightarrow> metrics \<Rightarrow> metrics" where
  "inc_request c m = m\<lparr>mt_requests := bump c (mt_requests m)\<rparr>"

definition inc_smtp_ok :: "metrics \<Rightarrow> metrics" where
  "inc_smtp_ok m = m\<lparr>mt_smtp_submissions := bump ''ok'' (mt_smtp_submissions m)\<rparr>"

definition inc_smtp_error :: "metrics \<Rightarrow> metrics" where
  "inc_smtp_error m = m\<lparr>mt_smtp_submissions := bump ''error'' (mt_smtp_submissions m)\<rparr>"

definition observe_smtp_duration :: "nat \<Rightarrow> metrics \<Rightarrow> metrics" where
  "observe_smtp_duration nanos m = m\<lparr>mt_smtp_durations := nanos # mt_smtp_durations m\<rparr>"

definition inc_auth_failure :: "str \<Rightarrow> metrics \<Rightarrow> metrics" where
  "inc_auth_failure r m = m\<lparr>mt_auth_failures := bump r (mt_auth_failures m)\<rparr>"

definition inc_rate_limited :: "str \<Rightarrow> metrics \<Rightarrow> metrics" where
  "inc_rate_limited t m = m\<lparr>mt_rate_limited := bump t (mt_rate_limited m)\<rparr>"

definition inc_validation_failure :: "str \<Rightarrow> metrics \<Rightarrow> metrics" where
  "inc_validation_failure f m = m\<lparr>mt_validation_failures := bump f (mt_validation_failures m)\<rparr>"

definition status_record_created :: "metrics \<Rightarrow> metrics" where
  "status_record_created m =
     m\<lparr>mt_status_records_current := mt_status_records_current m + 1,
       mt_status_transitions := bump (''received'', ''none'') (mt_status_transitions m)\<rparr>"

definition status_transitioned :: "str \<Rightarrow> str \<Rightarrow> metrics \<Rightarrow> metrics" where
  "status_transitioned s c m =
     m\<lparr>mt_status_transitions := bump (s, c) (mt_status_transitions m)\<rparr>"

definition status_records_expired :: "nat \<Rightarrow> metrics \<Rightarrow> metrics" where
  "status_records_expired n m =
     (if n > 0
      then m\<lparr>mt_status_records_current := mt_status_records_current m - int n,
             mt_status_expired := mt_status_expired m + n\<rparr>
      else m)"

text \<open>\<open>status_store_error\<close> only logs.\<close>

definition status_store_error :: "str \<Rightarrow> metrics \<Rightarrow> metrics" where
  "status_store_error operation m = m"

definition status_record_expired_one :: "metrics \<Rightarrow> metrics" where
  "status_record_expired_one m =
     m\<lparr>mt_status_records_current := mt_status_records_current m - 1,
       mt_status_expired := mt_status_expired m + 1\<rparr>"

definition status_set_current :: "nat \<Rightarrow> metrics \<Rightarrow> metrics" where
  "status_set_current n m = m\<lparr>mt_status_records_current := int n\<rparr>"

text \<open>
  \<open>encode\<close>: \<open>text_encoder\<close> is the encoder of the \<open>prometheus\<close> crate on what the registry
  gathers, \<open>from_utf8\<close> the check of its output.
\<close>

definition metrics_encode :: "(metrics \<Rightarrow> str + str) \<Rightarrow> (str \<Rightarrow> str + str) \<Rightarrow> metrics \<Rightarrow> str + str" where
  "metrics_encode text_encoder from_utf8 m =
     (case text_encoder m of
        Inl e \<Rightarrow> Inl (''metrics encoding failed: '' @ e)
      | Inr buf \<Rightarrow>
          (case from_utf8 buf of
             Inl e \<Rightarrow> Inl (''metrics UTF-8 error: '' @ e)
           | Inr text \<Rightarrow> Inr text))"

lemmas metrics_defs =
  inc_request_def inc_smtp_ok_def inc_smtp_error_def observe_smtp_duration_def
  inc_auth_failure_def inc_rate_limited_def inc_validation_failure_def
  status_record_created_def status_transitioned_def status_records_expired_def
  status_store_error_def status_record_expired_one_def status_set_current_def

lemma bump_apply: "bump l f l' = (if l' = l then Suc (f l) else f l')"
  by (simp add: bump_def)

text \<open>The gauge of live records: only the status-store helpers move it.\<close>

lemma records_current_frame [frame_simps, simp]:
  "mt_status_records_current (inc_request c m) = mt_status_records_current m"
  "mt_status_records_current (inc_smtp_ok m) = mt_status_records_current m"
  "mt_status_records_current (inc_smtp_error m) = mt_status_records_current m"
  "mt_status_records_current (observe_smtp_duration n m) = mt_status_records_current m"
  "mt_status_records_current (inc_auth_failure r m) = mt_status_records_current m"
  "mt_status_records_current (inc_rate_limited t m) = mt_status_records_current m"
  "mt_status_records_current (inc_validation_failure f m) = mt_status_records_current m"
  "mt_status_records_current (status_transitioned s c m) = mt_status_records_current m"
  by (simp_all add: metrics_defs)

lemma records_current_store [simp]:
  "mt_status_records_current (status_record_created m) = mt_status_records_current m + 1"
  "mt_status_records_current (status_record_expired_one m) = mt_status_records_current m - 1"
  "mt_status_records_current (status_records_expired n m) = mt_status_records_current m - int n"
  "mt_status_records_current (status_set_current n m) = int n"
  by (simp_all add: metrics_defs)

end
