(* ===== verification/Auth.thy ===== *)
theory Auth
  imports Policy Errors Metrics
begin

text \<open>
  \<open>auth.rs\<close>: the extractor that turns a request into an \<open>AuthContext\<close>. It resolves the
  client address (honouring proxy headers of trusted peers only), checks the source
  allowlist, extracts the token, and compares it with every configured secret.

  A request is the list of its headers, names in lower case, and the socket peer; header
  values are raw bytes that \<open>to_str\<close> turns into text.
\<close>

record auth_context =
  ac_key_id :: str
  ac_client_ip :: ip_addr
  ac_key_rate_limit_per_min :: "u32 option"
  ac_key_burst :: u32

record parts =
  pt_headers :: "(str \<times> str) list"
  pt_connect_info :: "ip_addr option"

definition header_text :: "externals \<Rightarrow> parts \<Rightarrow> str \<Rightarrow> str option" where
  "header_text X p name = Option.bind (map_of (pt_headers p) name) (x_header_to_str X)"

subsection \<open>Token extraction\<close>

definition extract_token :: "externals \<Rightarrow> parts \<Rightarrow> str option" where
  "extract_token X p =
     (case header_text X p ''authorization'' of
        Some auth \<Rightarrow> strip_prefix auth ''Bearer ''
      | None \<Rightarrow> header_text X p ''x-api-key'')"

subsection \<open>Key matching\<close>

datatype match_result =
    Matched str "u32 option" u32
  | Disabled str
  | NotFound

definition ct_eq_bytes :: "externals \<Rightarrow> str \<Rightarrow> str \<Rightarrow> bool" where
  "ct_eq_bytes X a b = (if length a \<noteq> length b then False else x_ct_eq X a b)"

text \<open>The loop never stops early: the last key whose secret matches is kept.\<close>

fun match_loop ::
  "externals \<Rightarrow> str \<Rightarrow> api_key_config list \<Rightarrow> api_key_config option \<Rightarrow> api_key_config option" where
  "match_loop X token [] matched_key = matched_key"
| "match_loop X token (key # keys) matched_key =
     match_loop X token keys
       (if ct_eq_bytes X token (expose (ak_secret key)) then Some key else matched_key)"

definition find_matching_key :: "externals \<Rightarrow> api_key_config list \<Rightarrow> str \<Rightarrow> match_result" where
  "find_matching_key X keys token =
     (case match_loop X token keys None of
        Some k \<Rightarrow> if ak_enabled k then Matched (ak_id k) (ak_rate_limit_per_min k) (ak_burst k)
                  else Disabled (ak_id k)
      | None \<Rightarrow> NotFound)"

subsection \<open>Client address resolution\<close>

definition ip_in_cidrs :: "externals \<Rightarrow> ip_addr \<Rightarrow> str list \<Rightarrow> bool" where
  "ip_in_cidrs X ip cidrs \<longleftrightarrow>
     (\<exists>net\<in>set (List.map_filter (x_parse_net X) cidrs). net ip)"

definition resolve_peer_ip :: "parts \<Rightarrow> ip_addr" where
  "resolve_peer_ip p = (case pt_connect_info p of Some ip \<Rightarrow> ip | None \<Rightarrow> localhost_v4)"

text \<open>The loop over the directives of the first list item of a \<open>Forwarded\<close> header.\<close>

fun forwarded_loop :: "str list \<Rightarrow> ip_addr option" where
  "forwarded_loop [] = None"
| "forwarded_loop (raw # rest) =
     (let part = trim raw; lower = map ascii_lower part in
      case strip_prefix lower ''for='' of
        Some addr_part \<Rightarrow>
          (let addr_str = trim_matches (CHR '']'') (trim_matches (CHR ''['')
                (trim_matches (CHR 0x22) (drop (length part - length addr_part) part)))
           in case parse_ip addr_str of Some ip \<Rightarrow> Some ip | None \<Rightarrow> forwarded_loop rest)
      | None \<Rightarrow> forwarded_loop rest)"

definition parse_forwarded_for :: "externals \<Rightarrow> parts \<Rightarrow> ip_addr option" where
  "parse_forwarded_for X p =
     Option.bind (header_text X p ''forwarded'')
       (\<lambda>value. forwarded_loop (split_on (CHR '';'') (hd (split_on (CHR '','') value))))"

definition resolve_client_ip :: "externals \<Rightarrow> parts \<Rightarrow> ip_addr \<Rightarrow> str list \<Rightarrow> ip_addr" where
  "resolve_client_ip X p peer_ip trusted_cidrs =
     (if \<not> ip_in_cidrs X peer_ip trusted_cidrs then peer_ip
      else (case parse_forwarded_for X p of
              Some ip \<Rightarrow> ip
            | None \<Rightarrow>
                (case Option.bind (header_text X p ''x-forwarded-for'')
                        (\<lambda>v. parse_ip (trim (hd (split_on (CHR '','') v)))) of
                   Some ip \<Rightarrow> ip
                 | None \<Rightarrow> peer_ip)))"

subsection \<open>The extractor\<close>

definition unauthorized_response :: response where
  "unauthorized_response =
     \<lparr>rs_status = 401,
      rs_body = JObj [(''status'', JStr ''error''), (''code'', JStr ''unauthorized''),
                      (''message'', JStr ''Authentication required'')],
      rs_retry_after = None\<rparr>"

definition forbidden_response :: response where
  "forbidden_response =
     \<lparr>rs_status = 403,
      rs_body = JObj [(''status'', JStr ''error''), (''code'', JStr ''forbidden''),
                      (''message'', JStr ''Access denied'')],
      rs_retry_after = None\<rparr>"

definition auth_client_ip :: "externals \<Rightarrow> security_config \<Rightarrow> parts \<Rightarrow> ip_addr" where
  "auth_client_ip X security p =
     (if se_trust_proxy_headers security
      then resolve_client_ip X p (resolve_peer_ip p) (se_trusted_source_cidrs security)
      else resolve_peer_ip p)"

definition authenticate ::
  "externals \<Rightarrow> app_config \<Rightarrow> parts \<Rightarrow> metrics \<Rightarrow> (response + auth_context) \<times> metrics" where
  "authenticate X cfg p m =
     (let security = cf_security cfg; client_ip = auth_client_ip X security p in
      if se_allowed_source_cidrs security \<noteq> []
           \<and> \<not> ip_in_cidrs X client_ip (se_allowed_source_cidrs security)
      then (Inl forbidden_response, m)
      else (case extract_token X p of
              None \<Rightarrow> (Inl unauthorized_response,
                       inc_request ''4xx'' (inc_auth_failure ''missing_token'' m))
            | Some token \<Rightarrow>
                (case find_matching_key X (se_api_keys security) token of
                   Matched key_id rate burst \<Rightarrow>
                     (Inr \<lparr>ac_key_id = key_id, ac_client_ip = client_ip,
                           ac_key_rate_limit_per_min = rate, ac_key_burst = burst\<rparr>, m)
                 | Disabled key_id \<Rightarrow>
                     (Inl forbidden_response,
                      inc_request ''4xx'' (inc_auth_failure ''disabled_key'' m))
                 | NotFound \<Rightarrow>
                     (Inl forbidden_response,
                      inc_request ''4xx'' (inc_auth_failure ''invalid_token'' m)))))"

end
