(* ===== verification/Sanitize.thy ===== *)
theory Sanitize
  imports Errors
begin

text \<open>
  \<open>sanitize.rs\<close>: detection of CR and LF, and of control characters, in text that goes
  into a mail header. A field that contains them is rejected, never rewritten.
\<close>

definition contains_header_injection :: "str \<Rightarrow> bool" where
  "contains_header_injection s \<longleftrightarrow> (\<exists>b\<in>set s. byte b = 13 \<or> byte b = 10)"

definition contains_control_chars :: "str \<Rightarrow> bool" where
  "contains_control_chars s \<longleftrightarrow> (\<exists>b\<in>set s. byte b < 32 \<and> byte b \<noteq> 9)"

definition reject_header_crlf :: "str \<Rightarrow> str \<Rightarrow> app_error + unit" where
  "reject_header_crlf field value =
     (if contains_header_injection value
      then Inl (Validation (field @ '': CR or LF characters are not allowed''))
      else Inr ())"

lemma reject_header_crlf_Inr_iff [simp]:
  "reject_header_crlf f v = Inr u \<longleftrightarrow> \<not> contains_header_injection v"
  by (simp add: reject_header_crlf_def)

lemma byte_CR_LF:
  "byte b = 13 \<longleftrightarrow> b = CHR 0x0D" "byte b = 10 \<longleftrightarrow> b = CHR 0x0A"
  using of_char_eq_iff [of b "CHR 0x0D"] of_char_eq_iff [of b "CHR 0x0A"] by simp_all

lemma contains_header_injection_iff:
  "contains_header_injection s \<longleftrightarrow> CHR 0x0D \<in> set s \<or> CHR 0x0A \<in> set s"
  by (simp only: contains_header_injection_def byte_CR_LF bex_disj_distrib bex_triv_one_point1)

text \<open>
  CR and LF are control characters: the second test subsumes the first, so a field that
  passes \<open>contains_control_chars\<close> cannot end a header line.
\<close>

lemma header_injection_is_control:
  "contains_header_injection s \<Longrightarrow> contains_control_chars s"
  by (force simp: contains_header_injection_def contains_control_chars_def)

lemma contains_header_injection_append [simp]:
  "contains_header_injection (a @ b) \<longleftrightarrow>
     contains_header_injection a \<or> contains_header_injection b"
  by (auto simp: contains_header_injection_def)

end
