(* ===== verification/Validation.thy ===== *)
theory Validation
  imports Auth Sanitize
begin

text \<open>
  \<open>validation.rs\<close>: the pipeline from a raw \<open>MailRequest\<close> to a \<open>ValidatedMailRequest\<close>.
  The definitions follow the stages of \<open>validate_mail_request\<close> in their order; each stage
  returns the error of its first failing check. The theory ends with the declarative
  description of the requests the pipeline accepts.
\<close>

subsection \<open>Request and validated request\<close>

datatype one_or_many = One str | Many "str list"

fun recipients_of :: "one_or_many \<Rightarrow> str list" where
  "recipients_of (One s) = [s]"
| "recipients_of (Many v) = v"

record attachment_spec =
  at_filename :: str
  at_content_type :: str
  at_data :: str

record validated_attachment =
  va_filename :: str
  va_content_type :: str
  va_decoded :: bytes

record mail_request =
  mr_to :: "str list"
  mr_subject :: str
  mr_body :: str
  mr_from_name :: "str option"
  mr_reply_to :: "str list option"
  mr_body_html :: "str option"
  mr_cc :: "str list option"
  mr_attachments :: "attachment_spec list option"
  mr_metadata :: "json option"

record validated_mail_request =
  vm_to :: "str list"
  vm_subject :: str
  vm_body :: str
  vm_from_name :: "str option"
  vm_reply_to :: "str list"
  vm_body_html :: "str option"
  vm_cc :: "str list"
  vm_attachments :: "validated_attachment list"
  vm_client_request_id :: "str option"

subsection \<open>Field validators\<close>

definition validate_email_address :: "externals \<Rightarrow> str \<Rightarrow> str \<Rightarrow> app_error + str" where
  "validate_email_address X raw field =
     (if contains_header_injection raw
      then Inl (Validation (''field `'' @ field @ ''` contains illegal line break''))
      else (case x_parse_address X raw of
              Some a \<Rightarrow> Inr a
            | None \<Rightarrow> Inl (Validation (''field `'' @ field @ ''` is not a valid email address''))))"

definition validate_subject :: "str \<Rightarrow> usize \<Rightarrow> app_error + str" where
  "validate_subject raw max_len =
     (if trim raw = [] then Inl (Validation ''field `subject` must not be empty'')
      else if contains_header_injection raw
      then Inl (Validation ''field `subject` contains illegal line break'')
      else if contains_control_chars raw
      then Inl (Validation ''field `subject` contains illegal control character'')
      else if chars_count raw > unat max_len
      then Inl (Validation (''field `subject` exceeds maximum length of ''
                  @ show_nat (unat max_len) @ '' characters''))
      else Inr raw)"

definition validate_body :: "str \<Rightarrow> usize \<Rightarrow> app_error + str" where
  "validate_body raw max_len =
     (if CHR 0x00 \<in> set raw then Inl (Validation ''field `body` contains NUL byte'')
      else if length raw > unat max_len
      then Inl (Validation (''field `body` exceeds maximum size of ''
                  @ show_nat (unat max_len) @ '' bytes''))
      else Inr raw)"

definition validate_display_name :: "str \<Rightarrow> str \<Rightarrow> app_error + str" where
  "validate_display_name raw field =
     (if contains_header_injection raw
      then Inl (Validation (''field `'' @ field @ ''` contains illegal line break''))
      else Inr raw)"

subsection \<open>Recipient domain policy\<close>

definition extract_domain :: "externals \<Rightarrow> str \<Rightarrow> app_error + str" where
  "extract_domain X email =
     (case rsplit_once (CHR ''@'') email of
        Some (_, d) \<Rightarrow> Inr (x_to_lowercase X d)
      | None \<Rightarrow> Inl (Validation ''could not extract domain from email address''))"

definition check_recipient_domain ::
  "externals \<Rightarrow> str \<Rightarrow> app_config \<Rightarrow> auth_context \<Rightarrow> app_error + unit" where
  "check_recipient_domain X to config auth =
     and_then (extract_domain X to) (\<lambda>domain.
       if ml_allowed_recipient_domains (cf_mail config) \<noteq> []
          \<and> \<not> (\<exists>d\<in>set (ml_allowed_recipient_domains (cf_mail config)).
                 eq_ignore_ascii_case d domain)
       then Inl (Validation (''recipient domain `'' @ domain @ ''` is not permitted''))
       else (case find (\<lambda>k. ak_id k = ac_key_id auth) (se_api_keys (cf_security config)) of
               Some key \<Rightarrow>
                 if ak_allowed_recipient_domains key \<noteq> []
                    \<and> \<not> (\<exists>d\<in>set (ak_allowed_recipient_domains key). eq_ignore_ascii_case d domain)
                 then Inl (Validation (''recipient domain `'' @ domain
                             @ ''` is not permitted for this API key''))
                 else Inr ()
             | None \<Rightarrow> Inr ()))"

definition check_recipient_domain_or_address ::
  "externals \<Rightarrow> str \<Rightarrow> app_config \<Rightarrow> auth_context \<Rightarrow> app_error + unit" where
  "check_recipient_domain_or_address X addr config auth =
     and_then
       (case find (\<lambda>k. ak_id k = ac_key_id auth) (se_api_keys (cf_security config)) of
          Some key_cfg \<Rightarrow>
            guard_err (\<not> address_permitted_for_key key_cfg addr)
              (Validation ''to: recipient is not permitted for this API key'')
        | None \<Rightarrow> Inr ())
       (\<lambda>_. check_recipient_domain X addr config auth)"

subsection \<open>Stages of the pipeline\<close>

definition check_feature_gates :: "mail_request \<Rightarrow> mail_config \<Rightarrow> app_error + unit" where
  "check_feature_gates req mail_cfg =
     (if mr_body_html req \<noteq> None \<and> \<not> ml_allow_html_body mail_cfg
      then Inl (FeatureDisabled ''html body is not enabled on this server'')
      else if (case mr_attachments req of None \<Rightarrow> False | Some a \<Rightarrow> a \<noteq> [])
              \<and> \<not> ml_allow_attachments mail_cfg
      then Inl (FeatureDisabled ''attachments are not enabled on this server'')
      else Inr ())"

text \<open>The three checks on one recipient, in the \<open>to\<close> and \<open>cc\<close> loops.\<close>

definition check_recipient ::
  "externals \<Rightarrow> app_config \<Rightarrow> auth_context \<Rightarrow> str \<Rightarrow> str \<Rightarrow> app_error + unit" where
  "check_recipient X config auth field addr =
     and_then (validate_email_address X addr field) (\<lambda>_.
     and_then (reject_header_crlf field addr) (\<lambda>_.
     check_recipient_domain_or_address X addr config auth))"

definition check_to ::
  "externals \<Rightarrow> app_config \<Rightarrow> auth_context \<Rightarrow> str list \<Rightarrow> app_error + unit" where
  "check_to X config auth recipients =
     (if recipients = [] then Inl (Validation ''to: at least one recipient is required'')
      else if length recipients > unat (ml_max_recipients (cf_mail config))
      then Inl (Validation (''to: too many recipients (max ''
                  @ show_nat (unat (ml_max_recipients (cf_mail config))) @ '')''))
      else for_each (check_recipient X config auth ''to'') recipients)"

definition check_cc ::
  "externals \<Rightarrow> app_config \<Rightarrow> auth_context \<Rightarrow> str list \<Rightarrow> str list option \<Rightarrow> app_error + str list" where
  "check_cc X config auth to cc =
     (case cc of
        None \<Rightarrow> Inr []
      | Some cc_addrs \<Rightarrow>
          if length to + length cc_addrs > unat (ml_max_recipients (cf_mail config))
          then Inl (Validation (''to + cc: too many recipients (max ''
                      @ show_nat (unat (ml_max_recipients (cf_mail config))) @ '')''))
          else and_then (for_each (check_recipient X config auth ''cc'') cc_addrs)
                 (\<lambda>_. Inr cc_addrs))"

definition check_body_html :: "str option \<Rightarrow> usize \<Rightarrow> app_error + unit" where
  "check_body_html body_html max_len =
     (case body_html of
        None \<Rightarrow> Inr ()
      | Some html \<Rightarrow>
          if CHR 0x00 \<in> set html then Inl (Validation ''body_html: contains NUL character'')
          else if length html > unat max_len
          then Inl (Validation (''body_html: exceeds maximum of ''
                      @ show_nat (unat max_len) @ '' bytes''))
          else Inr ())"

definition check_from_name :: "str option \<Rightarrow> app_error + str option" where
  "check_from_name from_name =
     (case from_name of
        None \<Rightarrow> Inr None
      | Some n \<Rightarrow> and_then (validate_display_name n ''from_name'') (\<lambda>n. Inr (Some n)))"

definition check_reply_to :: "externals \<Rightarrow> str list option \<Rightarrow> app_error + str list" where
  "check_reply_to X reply_to =
     (case reply_to of
        None \<Rightarrow> Inr []
      | Some addrs \<Rightarrow>
          and_then (for_each (\<lambda>addr.
              and_then (validate_email_address X addr ''reply_to'')
                (\<lambda>_. reject_header_crlf ''reply_to'' addr)) addrs)
            (\<lambda>_. Inr addrs))"

definition client_request_id :: "json option \<Rightarrow> str option" where
  "client_request_id metadata =
     Option.bind metadata (\<lambda>m. Option.bind (json_get m ''request_id'') json_as_str)"

text \<open>
  One round of the attachment loop: \<open>tot\<close> is \<open>total_decoded_bytes\<close> before the round.
  The limit on the encoded size is computed in \<open>usize\<close>, so it wraps around for a
  configured size of \<open>2 ^ 62\<close> and more.
\<close>

definition max_encoded :: "usize \<Rightarrow> usize" where
  "max_encoded max_attachment_bytes = max_attachment_bytes * 4 div 3 + 8"

definition check_attachment_meta :: "attachment_spec \<Rightarrow> app_error + unit" where
  "check_attachment_meta spec =
     (if at_filename spec = [] \<or> length (at_filename spec) > 255
      then Inl (Validation (''attachments[].filename: must be 1''
                  @ [CHR 0xE2, CHR 0x80, CHR 0x93] @ ''255 chars''))
      else if CHR ''/'' \<in> set (at_filename spec) \<or> CHR 0x5C \<in> set (at_filename spec)
              \<or> CHR 0x00 \<in> set (at_filename spec)
      then Inl (Validation ''attachments[].filename: path separators not allowed'')
      else and_then (reject_header_crlf ''attachments[].filename'' (at_filename spec)) (\<lambda>_.
        if at_content_type spec = [] \<or> CHR ''/'' \<notin> set (at_content_type spec)
           \<or> contains_header_injection (at_content_type spec)
           \<or> contains_control_chars (at_content_type spec)
        then Inl (Validation
               ''attachments[].content_type: invalid format or forbidden characters'')
        else Inr ()))"

definition check_attachment ::
  "externals \<Rightarrow> mail_config \<Rightarrow> nat \<Rightarrow> nat \<Rightarrow> attachment_spec \<Rightarrow> app_error + validated_attachment" where
  "check_attachment X mail_cfg i tot spec =
     and_then (check_attachment_meta spec) (\<lambda>_.
       if length (at_data spec) > unat (max_encoded (ml_max_attachment_bytes mail_cfg))
       then Inl (Validation (''attachments['' @ show_nat i @ ''].data: encoded size ''
                   @ show_nat (length (at_data spec)) @ '' bytes exceeds limit''))
       else (case x_b64_decode X (at_data spec) of
               None \<Rightarrow> Inl (Validation ''attachments[].data: invalid base64'')
             | Some decoded \<Rightarrow>
                 if length decoded > unat (ml_max_attachment_bytes mail_cfg)
                 then Inl (Validation (''attachments[].data: decoded size ''
                        @ show_nat (length decoded) @ '' exceeds maximum ''
                        @ show_nat (unat (ml_max_attachment_bytes mail_cfg))))
                 else (case ml_max_total_attachment_bytes mail_cfg of
                         Some max_total \<Rightarrow>
                           if tot + length decoded > unat max_total
                           then Inl (Validation (''attachments: total decoded size ''
                                  @ show_nat (tot + length decoded)
                                  @ '' exceeds aggregate limit '' @ show_nat (unat max_total)))
                           else Inr \<lparr>va_filename = at_filename spec,
                                     va_content_type = at_content_type spec,
                                     va_decoded = decoded\<rparr>
                       | None \<Rightarrow> Inr \<lparr>va_filename = at_filename spec,
                                      va_content_type = at_content_type spec,
                                      va_decoded = decoded\<rparr>)))"

fun attachments_loop ::
  "externals \<Rightarrow> mail_config \<Rightarrow> nat \<Rightarrow> nat \<Rightarrow> attachment_spec list \<Rightarrow>
     app_error + validated_attachment list" where
  "attachments_loop X mail_cfg i tot [] = Inr []"
| "attachments_loop X mail_cfg i tot (spec # specs) =
     and_then (check_attachment X mail_cfg i tot spec) (\<lambda>v.
     and_then (attachments_loop X mail_cfg (Suc i) (tot + length (va_decoded v)) specs)
       (\<lambda>vs. Inr (v # vs)))"

definition check_attachments ::
  "externals \<Rightarrow> mail_config \<Rightarrow> attachment_spec list option \<Rightarrow> app_error + validated_attachment list" where
  "check_attachments X mail_cfg attachments =
     (let specs = (case attachments of Some a \<Rightarrow> a | None \<Rightarrow> []) in
      if length specs > unat (ml_max_attachments mail_cfg)
      then Inl (Validation (''attachments: too many (max ''
                  @ show_nat (unat (ml_max_attachments mail_cfg)) @ '')''))
      else attachments_loop X mail_cfg 0 0 specs)"

subsection \<open>\<open>validate_mail_request\<close>\<close>

definition validate_mail_request ::
  "externals \<Rightarrow> mail_request \<Rightarrow> app_config \<Rightarrow> auth_context \<Rightarrow>
     app_error + validated_mail_request" where
  "validate_mail_request X req config auth =
     (let mail_cfg = cf_mail config in
      and_then (check_feature_gates req mail_cfg) (\<lambda>_.
      and_then (check_to X config auth (mr_to req)) (\<lambda>_.
      and_then (check_cc X config auth (mr_to req) (mr_cc req)) (\<lambda>cc.
      and_then (validate_subject (mr_subject req) (ml_max_subject_chars mail_cfg)) (\<lambda>subject.
      and_then (validate_body (mr_body req) (ml_max_body_bytes mail_cfg)) (\<lambda>body.
      and_then (check_body_html (mr_body_html req) (ml_max_body_bytes mail_cfg)) (\<lambda>_.
      and_then (check_from_name (mr_from_name req)) (\<lambda>from_name.
      and_then (check_reply_to X (mr_reply_to req)) (\<lambda>reply_to.
      and_then (check_attachments X mail_cfg (mr_attachments req)) (\<lambda>attachments.
        Inr \<lparr>vm_to = mr_to req, vm_subject = subject, vm_body = body, vm_from_name = from_name,
             vm_reply_to = reply_to, vm_body_html = mr_body_html req, vm_cc = cc,
             vm_attachments = attachments,
             vm_client_request_id = client_request_id (mr_metadata req)\<rparr>))))))))))"

end
