(* ===== verification/Validation_Spec.thy ===== *)
theory Validation_Spec
  imports Validation
begin

text \<open>
  What the validation pipeline promises: a declarative description of the acceptable
  requests, the validated request they become, and the proof that the pipeline accepts
  exactly these and changes nothing. The security properties (no header injection, no
  relaying outside the allowlists, bounded attachments) follow from the description.
\<close>

subsection \<open>Acceptable requests\<close>

text \<open>The policy of the configuration and of the authenticated key for one address.\<close>

definition policy_ok :: "externals \<Rightarrow> app_config \<Rightarrow> auth_context \<Rightarrow> str \<Rightarrow> bool" where
  "policy_ok X config auth addr \<longleftrightarrow>
     (case after_last (CHR ''@'') addr of
        None \<Rightarrow> False
      | Some d \<Rightarrow>
          domain_permitted_globally config (x_to_lowercase X d)
          \<and> (case find_key config (ac_key_id auth) of
               None \<Rightarrow> True
             | Some k \<Rightarrow> address_permitted_for_key k addr
                         \<and> domain_permitted_for_key k (x_to_lowercase X d)))"

definition recipient_ok :: "externals \<Rightarrow> app_config \<Rightarrow> auth_context \<Rightarrow> str \<Rightarrow> bool" where
  "recipient_ok X config auth addr \<longleftrightarrow>
     x_parse_address X addr \<noteq> None \<and> \<not> contains_header_injection addr
     \<and> policy_ok X config auth addr"

definition subject_ok :: "str \<Rightarrow> usize \<Rightarrow> bool" where
  "subject_ok s max_len \<longleftrightarrow>
     trim s \<noteq> [] \<and> \<not> contains_control_chars s \<and> chars_count s \<le> unat max_len"

definition text_ok :: "str \<Rightarrow> usize \<Rightarrow> bool" where
  "text_ok s max_len \<longleftrightarrow> CHR 0x00 \<notin> set s \<and> length s \<le> unat max_len"

definition attachment_meta_ok :: "attachment_spec \<Rightarrow> bool" where
  "attachment_meta_ok a \<longleftrightarrow>
     at_filename a \<noteq> [] \<and> length (at_filename a) \<le> 255
     \<and> CHR ''/'' \<notin> set (at_filename a) \<and> CHR 0x5C \<notin> set (at_filename a)
     \<and> CHR 0x00 \<notin> set (at_filename a) \<and> \<not> contains_header_injection (at_filename a)
     \<and> at_content_type a \<noteq> [] \<and> CHR ''/'' \<in> set (at_content_type a)
     \<and> \<not> contains_control_chars (at_content_type a)"

definition decoded_of :: "externals \<Rightarrow> attachment_spec \<Rightarrow> bytes" where
  "decoded_of X a = (case x_b64_decode X (at_data a) of Some d \<Rightarrow> d | None \<Rightarrow> [])"

definition attachment_ok :: "externals \<Rightarrow> mail_config \<Rightarrow> attachment_spec \<Rightarrow> bool" where
  "attachment_ok X c a \<longleftrightarrow>
     attachment_meta_ok a
     \<and> length (at_data a) \<le> unat (max_encoded (ml_max_attachment_bytes c))
     \<and> x_b64_decode X (at_data a) \<noteq> None
     \<and> length (decoded_of X a) \<le> unat (ml_max_attachment_bytes c)"

definition total_decoded :: "externals \<Rightarrow> attachment_spec list \<Rightarrow> nat" where
  "total_decoded X as = sum_list (map (\<lambda>a. length (decoded_of X a)) as)"

definition attachments_ok :: "externals \<Rightarrow> mail_config \<Rightarrow> attachment_spec list \<Rightarrow> bool" where
  "attachments_ok X c as \<longleftrightarrow>
     length as \<le> unat (ml_max_attachments c)
     \<and> (\<forall>a\<in>set as. attachment_ok X c a)
     \<and> (case ml_max_total_attachment_bytes c of
          None \<Rightarrow> True
        | Some mx \<Rightarrow> as = [] \<or> total_decoded X as \<le> unat mx)"

abbreviation or_empty :: "'a list option \<Rightarrow> 'a list" where
  "or_empty x \<equiv> (case x of Some l \<Rightarrow> l | None \<Rightarrow> [])"

definition request_acceptable ::
  "externals \<Rightarrow> mail_request \<Rightarrow> app_config \<Rightarrow> auth_context \<Rightarrow> bool" where
  "request_acceptable X req config auth \<longleftrightarrow>
     (mr_body_html req = None \<or> ml_allow_html_body (cf_mail config))
     \<and> (or_empty (mr_attachments req) = [] \<or> ml_allow_attachments (cf_mail config))
     \<and> mr_to req \<noteq> []
     \<and> length (mr_to req) + length (or_empty (mr_cc req))
          \<le> unat (ml_max_recipients (cf_mail config))
     \<and> (\<forall>a \<in> set (mr_to req) \<union> set (or_empty (mr_cc req)). recipient_ok X config auth a)
     \<and> subject_ok (mr_subject req) (ml_max_subject_chars (cf_mail config))
     \<and> text_ok (mr_body req) (ml_max_body_bytes (cf_mail config))
     \<and> (case mr_body_html req of
          None \<Rightarrow> True | Some h \<Rightarrow> text_ok h (ml_max_body_bytes (cf_mail config)))
     \<and> (case mr_from_name req of None \<Rightarrow> True | Some n \<Rightarrow> \<not> contains_header_injection n)
     \<and> (\<forall>a \<in> set (or_empty (mr_reply_to req)).
          x_parse_address X a \<noteq> None \<and> \<not> contains_header_injection a)
     \<and> attachments_ok X (cf_mail config) (or_empty (mr_attachments req))"

definition validated_of :: "externals \<Rightarrow> mail_request \<Rightarrow> validated_mail_request" where
  "validated_of X req =
     \<lparr>vm_to = mr_to req, vm_subject = mr_subject req, vm_body = mr_body req,
      vm_from_name = mr_from_name req, vm_reply_to = or_empty (mr_reply_to req),
      vm_body_html = mr_body_html req, vm_cc = or_empty (mr_cc req),
      vm_attachments = map (\<lambda>a. \<lparr>va_filename = at_filename a,
          va_content_type = at_content_type a, va_decoded = decoded_of X a\<rparr>)
          (or_empty (mr_attachments req)),
      vm_client_request_id = client_request_id (mr_metadata req)\<rparr>"

subsection \<open>Each stage accepts exactly the acceptable input\<close>

lemma validate_email_address_Inr_iff:
  "validate_email_address X raw f = Inr a \<longleftrightarrow>
     \<not> contains_header_injection raw \<and> x_parse_address X raw = Some a"
  by (auto simp: validate_email_address_def split: option.splits)

lemma validate_subject_Inr_iff:
  "validate_subject s m = Inr r \<longleftrightarrow> subject_ok s m \<and> r = s"
  using header_injection_is_control [of s]
  by (auto simp: validate_subject_def subject_ok_def)

lemma validate_body_Inr_iff: "validate_body s m = Inr r \<longleftrightarrow> text_ok s m \<and> r = s"
  by (auto simp: validate_body_def text_ok_def)

lemma check_body_html_Inr_iff:
  "check_body_html h m = Inr u \<longleftrightarrow> (case h of None \<Rightarrow> True | Some s \<Rightarrow> text_ok s m)"
  by (auto simp: check_body_html_def text_ok_def split: option.splits)

lemma check_from_name_Inr_iff:
  "check_from_name n = Inr r \<longleftrightarrow>
     (case n of None \<Rightarrow> True | Some s \<Rightarrow> \<not> contains_header_injection s) \<and> r = n"
  by (auto simp: check_from_name_def validate_display_name_def split: option.splits)

lemma check_recipient_domain_Inr_iff:
  "check_recipient_domain X addr config auth = Inr u \<longleftrightarrow>
     (\<exists>d. after_last (CHR ''@'') addr = Some d
        \<and> domain_permitted_globally config (x_to_lowercase X d)
        \<and> (case find_key config (ac_key_id auth) of
             None \<Rightarrow> True | Some k \<Rightarrow> domain_permitted_for_key k (x_to_lowercase X d)))"
  by (cases "rsplit_once (CHR ''@'') addr")
     (auto simp: check_recipient_domain_def extract_domain_def after_last_def
        domain_permitted_globally_def domain_permitted_for_key_def domain_in_def find_key_def
        split: option.splits if_splits)

lemma check_recipient_domain_or_address_Inr_iff:
  "check_recipient_domain_or_address X addr config auth = Inr u \<longleftrightarrow> policy_ok X config auth addr"
  by (auto simp: check_recipient_domain_or_address_def and_then_Inr_iff policy_ok_def
      check_recipient_domain_Inr_iff find_key_def split: option.splits)

lemma check_recipient_Inr_iff:
  "check_recipient X config auth f addr = Inr u \<longleftrightarrow> recipient_ok X config auth addr"
  by (auto simp: check_recipient_def and_then_Inr_iff validate_email_address_Inr_iff
      check_recipient_domain_or_address_Inr_iff recipient_ok_def)

lemma check_to_Inr_iff:
  "check_to X config auth to = Inr u \<longleftrightarrow>
     to \<noteq> [] \<and> length to \<le> unat (ml_max_recipients (cf_mail config))
     \<and> (\<forall>a\<in>set to. recipient_ok X config auth a)"
  by (auto simp: check_to_def for_each_Inr_iff check_recipient_Inr_iff)

lemma check_cc_Inr_iff:
  "check_cc X config auth to cc = Inr r \<longleftrightarrow>
     (cc \<noteq> None \<longrightarrow> length to + length (or_empty cc) \<le> unat (ml_max_recipients (cf_mail config)))
     \<and> (\<forall>a\<in>set (or_empty cc). recipient_ok X config auth a) \<and> r = or_empty cc"
  by (auto simp: check_cc_def and_then_Inr_iff for_each_Inr_iff check_recipient_Inr_iff
      split: option.splits)

lemma check_reply_to_Inr_iff:
  "check_reply_to X rt = Inr r \<longleftrightarrow>
     (\<forall>a\<in>set (or_empty rt). x_parse_address X a \<noteq> None \<and> \<not> contains_header_injection a)
     \<and> r = or_empty rt"
  by (auto simp: check_reply_to_def and_then_Inr_iff for_each_Inr_iff
      validate_email_address_Inr_iff split: option.splits)

lemma check_attachment_meta_Inr_iff:
  "check_attachment_meta a = Inr u \<longleftrightarrow> attachment_meta_ok a"
  using header_injection_is_control [of "at_content_type a"]
  by (auto simp: check_attachment_meta_def attachment_meta_ok_def and_then_Inr_iff split: if_splits)

lemma check_attachment_Inr_iff:
  "check_attachment X c i tot a = Inr v \<longleftrightarrow>
     attachment_ok X c a
     \<and> (case ml_max_total_attachment_bytes c of
          None \<Rightarrow> True | Some mx \<Rightarrow> tot + length (decoded_of X a) \<le> unat mx)
     \<and> v = \<lparr>va_filename = at_filename a, va_content_type = at_content_type a,
             va_decoded = decoded_of X a\<rparr>"
  by (cases "x_b64_decode X (at_data a)"; cases "ml_max_total_attachment_bytes c")
     (auto simp: check_attachment_def and_then_Inr_iff check_attachment_meta_Inr_iff
        attachment_ok_def decoded_of_def)

lemma attachments_loop_Inr_iff:
  "attachments_loop X c i tot as = Inr vs \<longleftrightarrow>
     (\<forall>a\<in>set as. attachment_ok X c a)
     \<and> (case ml_max_total_attachment_bytes c of
          None \<Rightarrow> True | Some mx \<Rightarrow> as = [] \<or> tot + total_decoded X as \<le> unat mx)
     \<and> vs = map (\<lambda>a. \<lparr>va_filename = at_filename a, va_content_type = at_content_type a,
             va_decoded = decoded_of X a\<rparr>) as"
proof (induction as arbitrary: i tot vs)
  case Nil
  then show ?case by (auto split: option.splits)
next
  case (Cons a as)
  then show ?case
    by (cases "ml_max_total_attachment_bytes c")
       (auto simp: and_then_Inr_iff check_attachment_Inr_iff total_decoded_def)
qed

lemma check_attachments_Inr_iff:
  "check_attachments X c as = Inr vs \<longleftrightarrow>
     attachments_ok X c (or_empty as)
     \<and> vs = map (\<lambda>a. \<lparr>va_filename = at_filename a, va_content_type = at_content_type a,
             va_decoded = decoded_of X a\<rparr>) (or_empty as)"
  by (auto simp: check_attachments_def Let_def attachments_loop_Inr_iff attachments_ok_def
      split: option.splits)

lemma check_feature_gates_Inr_iff:
  "check_feature_gates req c = Inr u \<longleftrightarrow>
     (mr_body_html req = None \<or> ml_allow_html_body c)
     \<and> (or_empty (mr_attachments req) = [] \<or> ml_allow_attachments c)"
  by (auto simp: check_feature_gates_def split: option.splits)

lemmas stage_iffs =
  check_feature_gates_Inr_iff check_to_Inr_iff check_cc_Inr_iff validate_subject_Inr_iff
  validate_body_Inr_iff check_body_html_Inr_iff check_from_name_Inr_iff check_reply_to_Inr_iff
  check_attachments_Inr_iff

lemma recipient_count_split:
  "length to \<le> n \<and> (cc \<noteq> None \<longrightarrow> length to + length (or_empty cc) \<le> n) \<longleftrightarrow>
     length to + length (or_empty cc) \<le> n"
  by (cases cc) auto

lemma validate_mail_request_Inr_iff:
  "validate_mail_request X req config auth = Inr v \<longleftrightarrow>
     request_acceptable X req config auth \<and> v = validated_of X req"
proof -
  have "validate_mail_request X req config auth = Inr v \<longleftrightarrow>
    (mr_body_html req = None \<or> ml_allow_html_body (cf_mail config))
     \<and> (or_empty (mr_attachments req) = [] \<or> ml_allow_attachments (cf_mail config))
     \<and> mr_to req \<noteq> []
     \<and> (length (mr_to req) \<le> unat (ml_max_recipients (cf_mail config))
        \<and> (mr_cc req \<noteq> None \<longrightarrow> length (mr_to req) + length (or_empty (mr_cc req))
          \<le> unat (ml_max_recipients (cf_mail config))))
     \<and> (\<forall>a\<in>set (mr_to req). recipient_ok X config auth a)
     \<and> (\<forall>a\<in>set (or_empty (mr_cc req)). recipient_ok X config auth a)
     \<and> subject_ok (mr_subject req) (ml_max_subject_chars (cf_mail config))
     \<and> text_ok (mr_body req) (ml_max_body_bytes (cf_mail config))
     \<and> (case mr_body_html req of
          None \<Rightarrow> True | Some h \<Rightarrow> text_ok h (ml_max_body_bytes (cf_mail config)))
     \<and> (case mr_from_name req of None \<Rightarrow> True | Some n \<Rightarrow> \<not> contains_header_injection n)
     \<and> (\<forall>a \<in> set (or_empty (mr_reply_to req)).
          x_parse_address X a \<noteq> None \<and> \<not> contains_header_injection a)
     \<and> attachments_ok X (cf_mail config) (or_empty (mr_attachments req))
     \<and> v = validated_of X req"
    unfolding validate_mail_request_def Let_def and_then_Inr_iff stage_iffs validated_of_def
    by (simp only: conj_assoc ex_simps simp_thms sum.inject; blast)
  then show ?thesis
    unfolding recipient_count_split request_acceptable_def Un_iff by blast
qed

end
