(* ===== verification/Auth_Claims.thy ===== *)
theory Auth_Claims
  imports Examples
begin

text \<open>
  The properties of authentication: which requests become an \<open>AuthContext\<close>, which of
  several matching keys wins, and that neither proxy headers of untrusted peers nor a
  malformed \<open>Authorization\<close> header can change the outcome.
\<close>

subsection \<open>Key matching\<close>

lemma ct_eq_bytes_iff: "ct_eq_correct X \<Longrightarrow> ct_eq_bytes X a b \<longleftrightarrow> a = b"
  by (auto simp: ct_eq_bytes_def ct_eq_correct_def)

lemma find_append: "find P (xs @ ys) = (case find P xs of Some x \<Rightarrow> Some x | None \<Rightarrow> find P ys)"
  by (induction xs) auto

lemma match_loop_find:
  "ct_eq_correct X \<Longrightarrow>
     match_loop X token keys m =
       (case find (\<lambda>k. expose (ak_secret k) = token) (rev keys) of Some k \<Rightarrow> Some k | None \<Rightarrow> m)"
  by (induction keys arbitrary: m)
     (auto simp: find_append ct_eq_bytes_iff split: option.splits)

abbreviation last_key_with :: "api_key_config list \<Rightarrow> str \<Rightarrow> api_key_config option" where
  "last_key_with keys token \<equiv> find (\<lambda>k. expose (ak_secret k) = token) (rev keys)"

lemma find_matching_key_last:
  "ct_eq_correct X \<Longrightarrow>
     find_matching_key X keys token =
       (case last_key_with keys token of
          None \<Rightarrow> NotFound
        | Some k \<Rightarrow> if ak_enabled k then Matched (ak_id k) (ak_rate_limit_per_min k) (ak_burst k)
                    else Disabled (ak_id k))"
  by (simp add: find_matching_key_def match_loop_find split: option.split)

abbreviation source_allowed :: "externals \<Rightarrow> app_config \<Rightarrow> parts \<Rightarrow> bool" where
  "source_allowed X cfg p \<equiv>
     (se_allowed_source_cidrs (cf_security cfg) = []
      \<or> ip_in_cidrs X (auth_client_ip X (cf_security cfg) p)
          (se_allowed_source_cidrs (cf_security cfg)))"

definition auth_context_of :: "externals \<Rightarrow> app_config \<Rightarrow> parts \<Rightarrow> api_key_config \<Rightarrow> auth_context" where
  "auth_context_of X cfg p k =
     \<lparr>ac_key_id = ak_id k, ac_client_ip = auth_client_ip X (cf_security cfg) p,
      ac_key_rate_limit_per_min = ak_rate_limit_per_min k, ac_key_burst = ak_burst k\<rparr>"

lemma authenticate_Inr_iff:
  assumes "ct_eq_correct X"
  shows "authenticate X cfg p m = (Inr ac, m') \<longleftrightarrow>
    source_allowed X cfg p \<and> m' = m
    \<and> (\<exists>token k. extract_token X p = Some token
          \<and> last_key_with (se_api_keys (cf_security cfg)) token = Some k \<and> ak_enabled k
          \<and> ac = auth_context_of X cfg p k)"
  by (auto simp: authenticate_def Let_def find_matching_key_last [OF assms] auth_context_of_def
      split: option.splits match_result.splits)

lemma authenticate_Inl_status:
  "fst (authenticate X cfg p m) = Inl r \<Longrightarrow> r = unauthorized_response \<or> r = forbidden_response"
  by (auto simp: authenticate_def Let_def split: if_splits option.splits match_result.splits)

lemma example_authenticates:
  "authenticate example_externals example_config example_parts m = (Inr example_auth, m)"
proof -
  have "extract_token example_externals example_parts
      = Some ''aaaaaaaaaaaaaaaaaaaaaaaaaaaaaaaa''"
    by (simp add: extract_token_def header_text_def example_parts_def strip_prefix_def
        starts_with_def)
  then show ?thesis
    by (simp add: authenticate_Inr_iff [OF example_ct_eq_correct] auth_context_of_def
        example_auth_def auth_client_ip_def default_security_config_def resolve_peer_ip_def
        example_parts_def)
qed

subsection \<open>Properties\<close>

text \<open>C2: A request is authenticated exactly when its resolved address is in the source allowlist
  (if there is one), it carries a token, and the last configured key whose secret equals
  the token is enabled; the context then names that key and its limits, and no metric
  changes.\<close>

theorem authenticate_exact:
  assumes "ct_eq_correct X"
  shows "authenticate X cfg p m = (Inr ac, m') \<longleftrightarrow>
    source_allowed X cfg p \<and> m' = m
    \<and> (\<exists>token k. extract_token X p = Some token
          \<and> last_key_with (se_api_keys (cf_security cfg)) token = Some k \<and> ak_enabled k
          \<and> ac = auth_context_of X cfg p k)"
  by (rule authenticate_Inr_iff [OF assms])

theorem authenticate_exact_witness:
  "authenticate example_externals (example_config\<lparr>cf_security :=
       default_security_config [key_off]\<rparr>) example_parts metrics_new \<noteq> (Inr example_auth, metrics_new)"
  using authenticate_exact [OF example_ct_eq_correct, of "example_config\<lparr>cf_security :=
      default_security_config [key_off]\<rparr>" example_parts metrics_new example_auth metrics_new]
  by (auto split: if_splits)



text \<open>C23: A readable \<open>Authorization\<close> header decides alone: if it is not a bearer token the
  request is rejected with 401 or 403, even when \<open>X-API-Key\<close> carries a valid secret.\<close>

theorem malformed_authorization_rejected:
  assumes "header_text X p ''authorization'' = Some h" and "\<not> starts_with h ''Bearer ''"
  shows "\<exists>r m'. authenticate X cfg p m = (Inl r, m') \<and> rs_status r \<in> {401, 403}"
proof -
  have "extract_token X p = None" using assms by (simp add: extract_token_def strip_prefix_def)
  then show ?thesis
    by (simp add: authenticate_def Let_def unauthorized_response_def forbidden_response_def)
qed

theorem malformed_authorization_rejected_witness:
  "\<exists>r m'. authenticate example_externals example_config
       \<lparr>pt_headers = [(''authorization'', ''Basic x''),
                      (''x-api-key'', ''aaaaaaaaaaaaaaaaaaaaaaaaaaaaaaaa'')],
        pt_connect_info = None\<rparr> metrics_new = (Inl r, m') \<and> rs_status r \<in> {401, 403}"
  by (rule malformed_authorization_rejected [where h = "''Basic x''"])
     (simp_all add: header_text_def starts_with_def)

end
