(* ===== verification/Validation_Claims.thy ===== *)
theory Validation_Claims
  imports Examples
begin

text \<open>
  The properties of the validation pipeline: exactly the acceptable requests pass and
  nothing of them is changed, header fields cannot carry a line break, recipients are
  inside the allowlists, sizes are bounded, and every rejection is a client error.
\<close>

subsection \<open>Rejections\<close>

text \<open>The two kinds of error the pipeline produces.\<close>

definition client_fault :: "app_error \<Rightarrow> bool" where
  "client_fault e \<longleftrightarrow> (\<exists>s. e = Validation s \<or> e = FeatureDisabled s)"

definition faults_only :: "app_error + 'a \<Rightarrow> bool" where
  "faults_only r \<longleftrightarrow> (\<forall>e. r = Inl e \<longrightarrow> client_fault e)"

lemma faults_only_simps [simp]:
  "faults_only (Inr x)"
  "faults_only (Inl (Validation s))"
  "faults_only (Inl (FeatureDisabled s))"
  by (simp_all add: faults_only_def client_fault_def)

lemma faults_only_and_then [intro]:
  "faults_only r \<Longrightarrow> (\<And>x. r = Inr x \<Longrightarrow> faults_only (f x)) \<Longrightarrow> faults_only (and_then r f)"
  by (cases r) (auto simp: faults_only_def)

lemma faults_only_for_each [intro]:
  "(\<And>x. x \<in> set xs \<Longrightarrow> faults_only (f x)) \<Longrightarrow> faults_only (for_each f xs)"
  by (induction xs) auto

lemma faults_only_fields [simp]:
  "faults_only (validate_email_address X raw f)"
  "faults_only (validate_subject raw m)"
  "faults_only (validate_body raw m)"
  "faults_only (validate_display_name raw f)"
  "faults_only (reject_header_crlf f raw)"
  "faults_only (extract_domain X raw)"
  "faults_only (guard_err b (Validation s))"
  by (simp_all add: validate_email_address_def validate_subject_def validate_body_def
      validate_display_name_def reject_header_crlf_def extract_domain_def guard_err_def
      split: option.split)

lemma faults_only_recipient [simp]: "faults_only (check_recipient X config auth f addr)"
  unfolding check_recipient_def check_recipient_domain_or_address_def check_recipient_domain_def
  by (intro faults_only_and_then) (auto split: option.split)

lemma faults_only_stages [simp]:
  "faults_only (check_feature_gates req c)"
  "faults_only (check_to X config auth to)"
  "faults_only (check_cc X config auth to cc)"
  "faults_only (check_body_html h m)"
  "faults_only (check_from_name n)"
  "faults_only (check_reply_to X rt)"
  unfolding check_feature_gates_def check_to_def check_cc_def check_body_html_def
    check_from_name_def check_reply_to_def
  by (auto split: option.split intro!: faults_only_and_then faults_only_for_each)

lemma faults_only_attachment [simp]:
  "faults_only (check_attachment X c i tot a)"
  unfolding check_attachment_def check_attachment_meta_def
  by (intro faults_only_and_then) (auto split: option.split)

lemma faults_only_attachments [simp]: "faults_only (check_attachments X c as)"
proof -
  have "faults_only (attachments_loop X c i tot as)" for i tot as
    by (induction as arbitrary: i tot) (auto intro!: faults_only_and_then)
  then show ?thesis by (simp add: check_attachments_def Let_def)
qed

lemma faults_only_validate: "faults_only (validate_mail_request X req config auth)"
  unfolding validate_mail_request_def Let_def by (intro faults_only_and_then) simp_all

lemma sum_list_map_le_length:
  "(\<And>x. x \<in> set xs \<Longrightarrow> f x \<le> (n :: nat)) \<Longrightarrow> sum_list (map f xs) \<le> length xs * n"
  by (induction xs) (auto simp: add_mono)

text \<open>What the allowlists say of an accepted address.\<close>

lemma validated_recipient_policy:
  assumes "validate_mail_request X req config auth = Inr v" and "a \<in> set (vm_to v) \<union> set (vm_cc v)"
  shows "x_parse_address X a \<noteq> None
    \<and> (\<exists>l d. a = l @ CHR ''@'' # d \<and> CHR ''@'' \<notin> set d
        \<and> domain_permitted_globally config (x_to_lowercase X d)
        \<and> (\<forall>k. find_key config (ac_key_id auth) = Some k \<longrightarrow>
              address_permitted_for_key k a \<and> domain_permitted_for_key k (x_to_lowercase X d)))"
proof -
  have "recipient_ok X config auth a"
    using assms(1,2)
    by (auto simp: validate_mail_request_Inr_iff validated_of_def request_acceptable_def)
  then obtain d where d: "after_last (CHR ''@'') a = Some d"
    and ok: "x_parse_address X a \<noteq> None" "domain_permitted_globally config (x_to_lowercase X d)"
      "case find_key config (ac_key_id auth) of None \<Rightarrow> True
       | Some k \<Rightarrow> address_permitted_for_key k a \<and> domain_permitted_for_key k (x_to_lowercase X d)"
    by (auto simp: recipient_ok_def policy_ok_def split: option.splits)
  from d obtain l where l: "a = l @ CHR ''@'' # d" "CHR ''@'' \<notin> set d"
    by (auto simp: after_last_Some_iff)
  with ok show ?thesis by (intro conjI exI [of _ l] exI [of _ d]) auto
qed

text \<open>For an ASCII domain the lowercase form is permitted if and only if the domain itself is.\<close>

lemma lowercase_permitted:
  assumes "lowercase_ascii X" and "is_ascii d"
  shows "domain_permitted_globally config (x_to_lowercase X d) = domain_permitted_globally config d"
    and "domain_permitted_for_key k (x_to_lowercase X d) = domain_permitted_for_key k d"
  using assms by (simp_all add: lowercase_ascii_def domain_permitted_globally_def domain_permitted_for_key_def)

text \<open>The fields of a validated request that are written into headers of the message.\<close>

definition header_fields :: "validated_mail_request \<Rightarrow> str list" where
  "header_fields v =
     vm_subject v # vm_to v @ vm_cc v @ vm_reply_to v
     @ (case vm_from_name v of Some n \<Rightarrow> [n] | None \<Rightarrow> [])
     @ concat (map (\<lambda>a. [va_filename a, va_content_type a]) (vm_attachments v))"

subsection \<open>Properties\<close>

text \<open>C1: The pipeline accepts a request exactly when it is acceptable under the configuration and
  the authenticated key, as the code has it: of the display name this asks only that it has
  no line break (no length, no other control characters), and the body may be empty. The
  validated request carries the fields unchanged: values are rejected, never rewritten.\<close>

theorem validation_exact:
  "validate_mail_request X req config auth = Inr v \<longleftrightarrow>
     request_acceptable X req config auth \<and> v = validated_of X req"
  by (rule validate_mail_request_Inr_iff)

text \<open>C4: Header injection is impossible: no field of a validated request that goes into a mail
  header (recipients, subject, display name, reply addresses, attachment names and
  types) contains a carriage return or a line feed.\<close>

theorem validated_headers_clean:
  assumes "validate_mail_request X req config auth = Inr v" and "f \<in> set (header_fields v)"
  shows "CHR 0x0D \<notin> set f \<and> CHR 0x0A \<notin> set f"
proof -
  have ok: "request_acceptable X req config auth" and v: "v = validated_of X req"
    using assms by (simp_all add: validate_mail_request_Inr_iff)
  have "attachment_meta_ok a" if "a \<in> set (or_empty (mr_attachments req))" for a
    using ok that by (simp add: request_acceptable_def attachments_ok_def attachment_ok_def)
  with ok assms(2) have "\<not> contains_header_injection f"
    using header_injection_is_control
    by (fastforce simp: v header_fields_def validated_of_def request_acceptable_def
        recipient_ok_def subject_ok_def attachment_meta_ok_def split: option.splits)
  then show ?thesis by (simp add: contains_header_injection_iff)
qed

theorem validated_headers_clean_witness:
  "CHR 0x0A \<notin> set ''Hello''"
  using validated_headers_clean [of example_externals example_request example_config example_auth
      "validated_of example_externals example_request" "vm_subject (validated_of example_externals example_request)"]
    example_request_acceptable
  by (simp add: validate_mail_request_Inr_iff header_fields_def)

text \<open>C5: The server is not an open relay: every recipient of a validated request, in the To and
  the Cc list, ASCII or not, is an address that parses, its domain in lowercase is in the
  server's allowlist and, for a configured key, in the key's domain list, and the address
  is in the key's recipient list (or, where that is empty, its domain as written is in the
  key's domain list); an empty list allows everything. Lists are compared up to ASCII
  case. The lowercase form is that of Unicode, so a domain outside ASCII can match an entry
  that it is not; a domain in ASCII is itself in the lists.\<close>

theorem validated_recipients_permitted:
  assumes "validate_mail_request X req config auth = Inr v" and "a \<in> set (vm_to v) \<union> set (vm_cc v)"
  shows "x_parse_address X a \<noteq> None
    \<and> (\<exists>l d. a = l @ CHR ''@'' # d \<and> CHR ''@'' \<notin> set d
        \<and> domain_permitted_globally config (x_to_lowercase X d)
        \<and> (\<forall>k. find_key config (ac_key_id auth) = Some k \<longrightarrow>
              address_permitted_for_key k a \<and> domain_permitted_for_key k (x_to_lowercase X d))
        \<and> (lowercase_ascii X \<longrightarrow> is_ascii d \<longrightarrow>
              domain_permitted_globally config d
              \<and> (\<forall>k. find_key config (ac_key_id auth) = Some k \<longrightarrow> domain_permitted_for_key k d)))"
  using validated_recipient_policy [OF assms] lowercase_permitted [of X] by (smt (verit))

theorem validated_recipients_permitted_witness:
  "\<exists>l d. ''alice@example.com'' = l @ CHR ''@'' # d
     \<and> domain_permitted_for_key key_a d \<and> domain_permitted_globally example_config d"
proof -
  have "is_ascii d" if "''alice@example.com'' = l @ CHR ''@'' # d" for l d
  proof -
    have "is_ascii ''alice@example.com''" by (simp add: is_ascii_def)
    then show ?thesis unfolding that by (simp add: is_ascii_def)
  qed
  moreover have "find_key example_config (ac_key_id example_auth) = Some key_a"
    by (simp add: find_key_def example_auth_def)
  ultimately show ?thesis
    using validated_recipients_permitted [of example_externals example_request example_config
        example_auth "validated_of example_externals example_request" "''alice@example.com''"]
      example_request_acceptable example_lowercase_ascii
    by (fastforce simp: validate_mail_request_Inr_iff validated_of_def example_request_def)
qed

text \<open>C15: The size of a validated request is bounded by the configuration: recipients, subject
  characters, body and HTML bytes, the number and decoded size of attachments, and their
  total (both under the aggregate limit and under number times size).\<close>

theorem validated_sizes_bounded:
  assumes "validate_mail_request X req config auth = Inr v"
  shows "1 \<le> length (vm_to v)
    \<and> length (vm_to v) + length (vm_cc v) \<le> unat (ml_max_recipients (cf_mail config))
    \<and> chars_count (vm_subject v) \<le> unat (ml_max_subject_chars (cf_mail config))
    \<and> length (vm_body v) \<le> unat (ml_max_body_bytes (cf_mail config))
    \<and> length (or_empty (vm_body_html v)) \<le> unat (ml_max_body_bytes (cf_mail config))
    \<and> length (vm_attachments v) \<le> unat (ml_max_attachments (cf_mail config))
    \<and> sum_list (map (\<lambda>a. length (va_decoded a)) (vm_attachments v))
        \<le> unat (ml_max_attachments (cf_mail config))
           * unat (ml_max_attachment_bytes (cf_mail config))
    \<and> (\<forall>mx. ml_max_total_attachment_bytes (cf_mail config) = Some mx \<longrightarrow>
          sum_list (map (\<lambda>a. length (va_decoded a)) (vm_attachments v)) \<le> unat mx)"
proof -
  have ok: "request_acceptable X req config auth" and v: "v = validated_of X req"
    using assms by (simp_all add: validate_mail_request_Inr_iff)
  let ?as = "or_empty (mr_attachments req)" and ?c = "cf_mail config"
  have as: "attachments_ok X ?c ?as" using ok by (simp add: request_acceptable_def)
  have eq: "sum_list (map (\<lambda>a. length (va_decoded a)) (vm_attachments v)) = total_decoded X ?as"
    by (simp add: v validated_of_def total_decoded_def comp_def)
  have "total_decoded X ?as \<le> length ?as * unat (ml_max_attachment_bytes ?c)"
    using as unfolding total_decoded_def
    by (intro sum_list_map_le_length) (auto simp: attachments_ok_def attachment_ok_def)
  also have "\<dots> \<le> unat (ml_max_attachments ?c) * unat (ml_max_attachment_bytes ?c)"
    using as by (intro mult_right_mono) (simp_all add: attachments_ok_def)
  finally have prod: "total_decoded X ?as
      \<le> unat (ml_max_attachments ?c) * unat (ml_max_attachment_bytes ?c)" .
  have agg: "total_decoded X ?as \<le> unat mx" if "ml_max_total_attachment_bytes ?c = Some mx" for mx
    using as that by (auto simp: attachments_ok_def total_decoded_def)
  have "length (vm_attachments v) \<le> unat (ml_max_attachments ?c)"
    using as by (simp add: v validated_of_def attachments_ok_def)
  moreover have "length (or_empty (mr_body_html req)) \<le> unat (ml_max_body_bytes ?c)"
    using ok by (cases "mr_body_html req") (simp_all add: request_acceptable_def text_ok_def)
  ultimately show ?thesis
    using ok prod agg unfolding eq
    by (simp add: v validated_of_def request_acceptable_def subject_ok_def text_ok_def Suc_le_eq)
qed

theorem validated_sizes_bounded_witness:
  "length (vm_body (validated_of example_externals example_request))
     \<le> unat (ml_max_body_bytes (cf_mail example_config))"
  using validated_sizes_bounded [of example_externals example_request example_config example_auth
      "validated_of example_externals example_request"] example_request_acceptable
  by (simp add: validate_mail_request_Inr_iff)

text \<open>A rejected request is always the client's fault: the pipeline fails with a validation
  error or a disabled feature, answered with status 400 or 404, never with a server
  error.\<close>

theorem validation_rejects_4xx:
  assumes "validate_mail_request X req config auth = Inl e"
  shows "http_status e \<in> {400, 404} \<and> app_error_code e \<in> {Code_ValidationFailed, Code_FeatureDisabled}"
  using faults_only_validate [of X req config auth] assms
  by (auto simp: faults_only_def client_fault_def)

theorem validation_rejects_4xx_witness:
  "http_status (Validation ''to: at least one recipient is required'') \<in> {400, 404}"
proof -
  have "validate_mail_request example_externals (example_request\<lparr>mr_to := []\<rparr>) example_config
      example_auth = Inl (Validation ''to: at least one recipient is required'')"
    by (simp add: validate_mail_request_def Let_def check_feature_gates_def check_to_def
        example_request_def)
  from validation_rejects_4xx [OF this] show ?thesis by simp
qed

end
