(* ===== verification/F64.thy ===== *)
theory F64
  imports Complex_Main "HOL-Library.Log_Nat"
begin

text \<open>
  The part of IEEE-754 double precision that the rate limiter uses. A finite \<open>f64\<close> is a
  rational number; an arithmetic operation is the exact operation followed by
  \<open>f64_round\<close>, rounding to 53 significant bits, to the nearest value with ties to even.
  The exponent range is left out: the values of the limiter lie between \<open>2 ^ (-90)\<close> and
  \<open>2 ^ 100\<close> or are 0, far from overflow and from the subnormal numbers.
\<close>

type_synonym f64 = rat

subsection \<open>Rounding to an integer, ties to even\<close>

definition round_even :: "rat \<Rightarrow> int" where
  "round_even y =
     (let f = \<lfloor>y\<rfloor>; r = y - of_int f in
      if r < 1/2 then f
      else if r > 1/2 then f + 1
      else if even f then f else f + 1)"

lemma round_even_of_int [simp]: "round_even (of_int n) = n"
  by (simp add: round_even_def)

lemma round_even_error: "\<bar>of_int (round_even y) - y\<bar> \<le> 1/2"
proof -
  define f where "f = \<lfloor>y\<rfloor>"
  have "of_int f \<le> y" "y < of_int f + 1"
    unfolding f_def using floor_correct [of y] by auto
  then show ?thesis
    by (auto simp: round_even_def Let_def abs_if simp flip: f_def)
qed

lemma round_even_bounds: "\<lfloor>y\<rfloor> \<le> round_even y" "round_even y \<le> \<lfloor>y\<rfloor> + 1"
  by (auto simp: round_even_def Let_def)

lemma round_even_mono:
  assumes "x \<le> y" shows "round_even x \<le> round_even y"
proof (cases "\<lfloor>x\<rfloor> = \<lfloor>y\<rfloor>")
  case True
  with assms show ?thesis by (auto simp: round_even_def Let_def)
next
  case False
  with floor_mono [OF assms] have "\<lfloor>x\<rfloor> + 1 \<le> \<lfloor>y\<rfloor>" by linarith
  with round_even_bounds(2) [of x] round_even_bounds(1) [of y] show ?thesis by linarith
qed

subsection \<open>The exponent of a positive rational\<close>

definition ilog2 :: "rat \<Rightarrow> int" where
  "ilog2 x =
     (case quotient_of x of (p, q) \<Rightarrow>
        let k = bitlen p - bitlen q in if x < 2 powi k then k - 1 else k)"

lemma bitlen_powi_bounds:
  assumes "0 < p"
  shows "2 powi (bitlen p - 1) \<le> (of_int p :: rat)" "(of_int p :: rat) < 2 powi bitlen p"
proof -
  have b: "0 \<le> bitlen p - 1"
    using assms bitlen_nonneg [of p] bitlen_eq_zero_iff [of p] by linarith
  have *: "2 ^ nat (bitlen p - 1) \<le> p" "p < 2 ^ nat (bitlen p)"
    using bitlen_bounds [OF assms] by auto
  from *(1) have "(of_int (2 ^ nat (bitlen p - 1)) :: rat) \<le> of_int p" by (simp only: of_int_le_iff)
  with b show "2 powi (bitlen p - 1) \<le> (of_int p :: rat)"
    by (simp add: power_int_nonneg_exp)
  from *(2) have "(of_int p :: rat) < of_int (2 ^ nat (bitlen p))" by (simp only: of_int_less_iff)
  with b show "(of_int p :: rat) < 2 powi bitlen p"
    by (simp add: power_int_nonneg_exp)
qed

lemma ilog2_bounds:
  assumes "0 < x"
  shows "2 powi ilog2 x \<le> x" "x < 2 powi (ilog2 x + 1)"
proof -
  obtain p q where pq: "quotient_of x = (p, q)" by (cases "quotient_of x")
  have q: "0 < q" using quotient_of_denom_pos [OF pq] .
  have x: "x = of_int p / of_int q" using quotient_of_div [OF pq] .
  with assms q have p: "0 < p" by (simp add: zero_less_divide_iff)
  define k where "k = bitlen p - bitlen q"
  have Q: "(0::rat) < of_int q" using q by simp
  have "(2::rat) powi (k - 1) * of_int q < 2 powi (k - 1) * 2 powi bitlen q"
    using bitlen_powi_bounds(2) [OF q] by (simp add: mult_strict_left_mono)
  also have "\<dots> = 2 powi (bitlen p - 1)"
    by (simp add: k_def flip: power_int_add)
  also have "\<dots> \<le> of_int p" by (rule bitlen_powi_bounds(1) [OF p])
  finally have lo: "2 powi (k - 1) < x" using Q by (simp add: x pos_less_divide_eq)
  have "of_int p < (2::rat) powi bitlen p" by (rule bitlen_powi_bounds(2) [OF p])
  also have "\<dots> = 2 powi (k + 1) * 2 powi (bitlen q - 1)"
    by (simp add: k_def flip: power_int_add)
  also have "\<dots> \<le> 2 powi (k + 1) * of_int q"
    using bitlen_powi_bounds(1) [OF q] by (simp add: mult_left_mono)
  finally have hi: "x < 2 powi (k + 1)" using Q by (simp add: x pos_divide_less_eq)
  have il: "ilog2 x = (if x < 2 powi k then k - 1 else k)"
    by (simp add: ilog2_def pq k_def Let_def)
  show "2 powi ilog2 x \<le> x" using lo by (auto simp: il)
  show "x < 2 powi (ilog2 x + 1)" using hi by (auto simp: il)
qed

lemma powi2_less_iff: "(2::rat) powi a < 2 powi b \<longleftrightarrow> a < b"
  by (metis linorder_not_less one_less_numeral_iff power_int_increasing
      power_int_strict_increasing semiring_norm(76) order_less_imp_le order_le_less_trans
      less_irrefl)

lemma ilog2_mono:
  assumes "0 < x" "x \<le> y" shows "ilog2 x \<le> ilog2 y"
proof -
  have "(2::rat) powi ilog2 x < 2 powi (ilog2 y + 1)"
    using ilog2_bounds(1) [OF assms(1)] ilog2_bounds(2) [of y] assms by linarith
  then show ?thesis by (simp add: powi2_less_iff)
qed

subsection \<open>Rounding to a double\<close>

definition f64_ulp :: "rat \<Rightarrow> rat" where
  "f64_ulp x = 2 powi (ilog2 \<bar>x\<bar> - 52)"

definition f64_round :: "rat \<Rightarrow> f64" where
  "f64_round x = (if x = 0 then 0 else of_int (round_even (x / f64_ulp x)) * f64_ulp x)"

lemma f64_ulp_pos [simp]: "0 < f64_ulp x"
  by (simp add: f64_ulp_def)

lemma f64_ulp_nonzero [simp]: "f64_ulp x \<noteq> 0"
  using f64_ulp_pos [of x] by linarith

lemma f64_round_0 [simp]: "f64_round 0 = 0"
  by (simp add: f64_round_def)

text \<open>The relative error is at most \<open>2 ^ (-53)\<close>.\<close>

lemma f64_round_error: "\<bar>f64_round x - x\<bar> \<le> \<bar>x\<bar> * 2 powi (-53)"
proof (cases "x = 0")
  case True
  then show ?thesis by simp
next
  case False
  let ?u = "f64_ulp x"
  have "f64_round x - x = (of_int (round_even (x / ?u)) - x / ?u) * ?u"
    using False by (simp add: f64_round_def left_diff_distrib)
  then have "\<bar>f64_round x - x\<bar> = \<bar>of_int (round_even (x / ?u)) - x / ?u\<bar> * ?u"
    using abs_of_pos [OF f64_ulp_pos [of x]] by (simp only: abs_mult)
  also have "\<dots> \<le> 1/2 * ?u"
    by (intro mult_right_mono round_even_error less_imp_le f64_ulp_pos)
  also have "\<dots> = 2 powi ilog2 \<bar>x\<bar> * 2 powi (-53)"
    by (simp add: f64_ulp_def power_int_diff power_int_minus)
  also have "\<dots> \<le> \<bar>x\<bar> * 2 powi (-53)"
    using False by (intro mult_right_mono ilog2_bounds(1)) auto
  finally show ?thesis .
qed

text \<open>A value with at most 53 significant bits is a double.\<close>

lemma f64_round_exact:
  assumes "\<bar>m\<bar> < 2 ^ 53"
  shows "f64_round (of_int m * 2 powi e) = of_int m * 2 powi e"
proof (cases "m = 0")
  case True
  then show ?thesis by simp
next
  case False
  let ?x = "of_int m * 2 powi e :: rat"
  have x: "0 < \<bar>?x\<bar>" using False by simp
  define d where "d = e - (ilog2 \<bar>?x\<bar> - 52)"
  have "2 powi ilog2 \<bar>?x\<bar> \<le> \<bar>?x\<bar>" by (rule ilog2_bounds(1) [OF x])
  also have "\<dots> = of_int \<bar>m\<bar> * 2 powi e" by (simp add: abs_mult)
  also have "\<dots> < 2 powi 53 * 2 powi e"
  proof -
    have "(of_int \<bar>m\<bar> :: rat) < of_int (2 ^ 53)" using assms by (simp only: of_int_less_iff)
    then show ?thesis by (intro mult_strict_right_mono) simp_all
  qed
  also have "\<dots> = 2 powi (53 + e)" by (simp add: power_int_add)
  finally have "ilog2 \<bar>?x\<bar> < 53 + e" by (simp only: powi2_less_iff)
  then have d: "0 \<le> d" by (simp add: d_def)
  have "?x / f64_ulp ?x = of_int m * 2 powi d"
    by (simp add: f64_ulp_def d_def power_int_diff)
  also have "\<dots> = of_int (m * 2 ^ nat d)"
    using d by (simp add: power_int_nonneg_exp)
  finally have q: "?x / f64_ulp ?x = of_int (m * 2 ^ nat d)" .
  then have x': "of_int (m * 2 ^ nat d) * f64_ulp ?x = ?x"
    by (metis f64_ulp_nonzero nonzero_divide_eq_eq)
  have "f64_round ?x = of_int (m * 2 ^ nat d) * f64_ulp ?x"
    unfolding f64_round_def q round_even_of_int using False by simp
  with x' show ?thesis by simp
qed

lemma f64_round_of_int: "\<bar>m\<bar> < 2 ^ 53 \<Longrightarrow> f64_round (of_int m) = of_int m"
  using f64_round_exact [of m 0] by simp

lemma f64_round_of_nat: "n < 2 ^ 53 \<Longrightarrow> f64_round (of_nat n) = of_nat n"
  using f64_round_of_int [of "int n"] by simp

subsection \<open>Monotonicity\<close>

lemma f64_round_pos_eq:
  "0 < x \<Longrightarrow> f64_round x = of_int (round_even (x / 2 powi (ilog2 x - 52))) * 2 powi (ilog2 x - 52)"
  by (simp add: f64_round_def f64_ulp_def)

lemma f64_round_le_next_power:
  assumes "0 < x" shows "f64_round x \<le> 2 powi (ilog2 x + 1)"
proof -
  let ?e = "ilog2 x - 52"
  have "x / 2 powi ?e \<le> 2 powi (ilog2 x + 1) / 2 powi ?e"
    using ilog2_bounds(2) [OF assms] by (intro divide_right_mono) auto
  also have "\<dots> = 2 powi 53" by (simp flip: power_int_diff)
  also have "\<dots> = of_int (2 ^ 53)" by simp
  finally have "round_even (x / 2 powi ?e) \<le> 2 ^ 53"
    using round_even_mono round_even_of_int by metis
  then have "(of_int (round_even (x / 2 powi ?e)) :: rat) \<le> of_int (2 ^ 53)"
    by (simp only: of_int_le_iff)
  then have "f64_round x \<le> of_int (2 ^ 53) * 2 powi ?e"
    unfolding f64_round_pos_eq [OF assms] by (intro mult_right_mono) auto
  also have "\<dots> = 2 powi 53 * 2 powi ?e" by simp
  also have "\<dots> = 2 powi (53 + ?e)" by (rule power_int_add [symmetric]) simp
  also have "53 + ?e = ilog2 x + 1" by simp
  finally show ?thesis .
qed

lemma f64_round_ge_power:
  assumes "0 < x" shows "2 powi ilog2 x \<le> f64_round x"
proof -
  let ?e = "ilog2 x - 52"
  have "(of_int (2 ^ 52) :: rat) = 2 powi 52" by simp
  also have "\<dots> = 2 powi ilog2 x / 2 powi ?e" by (simp flip: power_int_diff)
  also have "\<dots> \<le> x / 2 powi ?e"
    using ilog2_bounds(1) [OF assms] by (intro divide_right_mono) auto
  finally have "2 ^ 52 \<le> round_even (x / 2 powi ?e)"
    using round_even_mono round_even_of_int by metis
  then have "(of_int (2 ^ 52) :: rat) \<le> of_int (round_even (x / 2 powi ?e))"
    by (simp only: of_int_le_iff)
  then have "of_int (2 ^ 52) * 2 powi ?e \<le> f64_round x"
    unfolding f64_round_pos_eq [OF assms] by (intro mult_right_mono) auto
  moreover have "of_int (2 ^ 52) * 2 powi ?e = (2::rat) powi ilog2 x"
    by (simp add: power_int_diff)
  ultimately show ?thesis by simp
qed

lemma f64_round_pos: "0 < x \<Longrightarrow> 0 < f64_round x"
  by (rule less_le_trans [OF _ f64_round_ge_power]) simp_all

lemma f64_round_nonneg: "0 \<le> x \<Longrightarrow> 0 \<le> f64_round x"
  using f64_round_pos [of x] by (cases "x = 0") auto

lemma f64_round_mono:
  assumes "0 \<le> x" "x \<le> y" shows "f64_round x \<le> f64_round y"
proof (cases "x = 0")
  case True
  then show ?thesis using f64_round_nonneg [of y] assms by simp
next
  case False
  with assms have x: "0 < x" and y: "0 < y" by auto
  show ?thesis
  proof (cases "ilog2 x = ilog2 y")
    case True
    have "x / 2 powi (ilog2 y - 52) \<le> y / 2 powi (ilog2 y - 52)"
      using assms by (intro divide_right_mono) auto
    then have "round_even (x / 2 powi (ilog2 y - 52)) \<le> round_even (y / 2 powi (ilog2 y - 52))"
      by (rule round_even_mono)
    then show ?thesis
      unfolding f64_round_pos_eq [OF x] f64_round_pos_eq [OF y] True
      by (intro mult_right_mono) auto
  next
    case False
    with ilog2_mono [OF x assms(2)] have "ilog2 x + 1 \<le> ilog2 y" by linarith
    then have "(2::rat) powi (ilog2 x + 1) \<le> 2 powi ilog2 y"
      by (intro power_int_increasing) auto
    with f64_round_le_next_power [OF x] f64_round_ge_power [OF y] show ?thesis by linarith
  qed
qed

lemma f64_round_upper:
  assumes "0 \<le> x" shows "f64_round x \<le> x * (1 + 2 powi (-53))"
proof -
  have "f64_round x - x \<le> \<bar>f64_round x - x\<bar>" by (rule abs_ge_self)
  also have "\<dots> \<le> x * 2 powi (-53)" using f64_round_error [of x] assms by simp
  finally show ?thesis unfolding distrib_left by linarith
qed

subsection \<open>Representable values\<close>

definition is_f64 :: "rat \<Rightarrow> bool" where
  "is_f64 x \<longleftrightarrow> f64_round x = x"

lemma is_f64_0 [simp]: "is_f64 0"
  by (simp add: is_f64_def)

lemma is_f64_of_nat: "n < 2 ^ 53 \<Longrightarrow> is_f64 (of_nat n)"
  by (simp add: is_f64_def f64_round_of_nat)

lemma f64_round_scaled:
  assumes "0 < x"
  obtains m where "f64_round x = of_int m * 2 powi (ilog2 x - 52)" "2 ^ 52 \<le> m" "m \<le> 2 ^ 53"
proof -
  let ?e = "ilog2 x - 52" and ?m = "round_even (x / 2 powi (ilog2 x - 52))"
  have eq: "f64_round x = of_int ?m * 2 powi ?e" by (rule f64_round_pos_eq [OF assms])
  define u where "u = (2::rat) powi ?e"
  define m where "m = ?m"
  have u: "0 < u" by (simp add: u_def)
  have eq': "f64_round x = of_int m * u" using eq by (simp only: u_def m_def)
  have "2 powi (52 + ?e) = (2::rat) powi 52 * u" unfolding u_def by (rule power_int_add) simp
  then have "of_int (2 ^ 52) * u \<le> of_int m * u"
    using f64_round_ge_power [OF assms] by (simp flip: eq')
  then have "(of_int (2 ^ 52) :: rat) \<le> of_int m" using u by (rule mult_right_le_imp_le)
  then have lo: "2 ^ 52 \<le> m" by (simp only: of_int_le_iff)
  have "2 powi (53 + ?e) = (2::rat) powi 53 * u" unfolding u_def by (rule power_int_add) simp
  then have "of_int m * u \<le> of_int (2 ^ 53) * u"
    using f64_round_le_next_power [OF assms] by (simp add: add.commute flip: eq')
  then have "(of_int m :: rat) \<le> of_int (2 ^ 53)" using u by (rule mult_right_le_imp_le)
  then have hi: "m \<le> 2 ^ 53" by (simp only: of_int_le_iff)
  show ?thesis by (rule that [OF eq [folded m_def] lo hi])
qed

lemma is_f64_round: "0 \<le> x \<Longrightarrow> is_f64 (f64_round x)"
proof (cases "x = 0")
  case False
  assume "0 \<le> x"
  with False have x: "0 < x" by simp
  let ?e = "ilog2 x - 52"
  obtain m where eq: "f64_round x = of_int m * 2 powi ?e" and m: "2 ^ 52 \<le> m" "m \<le> 2 ^ 53"
    by (rule f64_round_scaled [OF x])
  show ?thesis
  proof (cases "m = 2 ^ 53")
    case True
    have "(2::rat) powi (?e + 1) = 2 powi ?e * 2" by (rule power_int_add_1) simp
    then have "f64_round x = of_int (2 ^ 52) * 2 powi (?e + 1)"
      unfolding eq True by simp
    then show ?thesis
      using f64_round_exact [of "2 ^ 52" "?e + 1"] by (simp add: is_f64_def)
  next
    case False
    with m show ?thesis using f64_round_exact [of m ?e] by (simp add: is_f64_def eq)
  qed
qed simp

text \<open>Subtracting 1 from a double between 1 and \<open>2 ^ 53\<close> is exact.\<close>

lemma f64_sub_one_exact:
  assumes "is_f64 x" "1 \<le> x" "x < 2 ^ 53"
  shows "f64_round (x - 1) = x - 1"
proof -
  have x: "0 < x" using assms by simp
  let ?e = "ilog2 x - 52"
  obtain m where eq: "x = of_int m * 2 powi ?e" and m: "2 ^ 52 \<le> m" "m \<le> 2 ^ 53"
    using f64_round_scaled [OF x] assms(1) unfolding is_f64_def by metis
  have "(2::rat) powi ilog2 x < 2 powi 53"
    using ilog2_bounds(1) [OF x] assms(3) by simp
  then have e: "?e \<le> 0" by (simp only: powi2_less_iff)
  define k where "k = nat (- ?e)"
  have k: "?e = - int k" using e by (simp add: k_def)
  have one: "1 = of_int (2 ^ k) * (2::rat) powi ?e"
    by (simp add: k power_int_minus)
  have eq': "x - 1 = of_int (m - 2 ^ k) * 2 powi ?e"
    by (subst eq, subst one) (simp add: left_diff_distrib)
  have "0 \<le> (of_int (m - 2 ^ k) :: rat) * 2 powi ?e" using assms(2) eq' by simp
  then have "0 \<le> m - 2 ^ k"
    by (metis of_int_0_le_iff zero_le_mult_iff zero_less_numeral zero_less_power_int not_less)
  moreover have "m - 2 ^ k < 2 ^ 53"
  proof -
    have "(1::int) \<le> 2 ^ k" by simp
    with m(2) show ?thesis by linarith
  qed
  ultimately have "\<bar>m - 2 ^ k\<bar> < 2 ^ 53" by simp
  from f64_round_exact [OF this, of ?e] show ?thesis by (simp only: eq')
qed

subsection \<open>Operations\<close>

definition f64_add :: "f64 \<Rightarrow> f64 \<Rightarrow> f64" where "f64_add a b = f64_round (a + b)"
definition f64_sub :: "f64 \<Rightarrow> f64 \<Rightarrow> f64" where "f64_sub a b = f64_round (a - b)"
definition f64_mul :: "f64 \<Rightarrow> f64 \<Rightarrow> f64" where "f64_mul a b = f64_round (a * b)"
definition f64_of_nat :: "nat \<Rightarrow> f64" where "f64_of_nat n = f64_round (of_nat n)"

text \<open>
  Division of a positive number: \<open>None\<close> is positive infinity, the result of a division
  by zero.
\<close>

definition f64_div :: "f64 \<Rightarrow> f64 \<Rightarrow> f64 option" where
  "f64_div a b = (if b = 0 then None else Some (f64_round (a / b)))"

text \<open>\<open>Duration::as_secs_f64\<close> of a number of nanoseconds.\<close>

definition as_secs_f64 :: "nat \<Rightarrow> f64" where
  "as_secs_f64 nanos =
     f64_add (f64_of_nat (nanos div 1000000000))
             (f64_round (f64_of_nat (nanos mod 1000000000) / 1000000000))"

lemma as_secs_f64_0 [simp]: "as_secs_f64 0 = 0"
  by (simp add: as_secs_f64_def f64_add_def f64_of_nat_def)

lemma as_secs_f64_nonneg [simp]: "0 \<le> as_secs_f64 n"
  by (simp add: as_secs_f64_def f64_add_def f64_of_nat_def f64_round_nonneg)

lemma f64_eps_pow5: "(1 + 2 powi (-53) :: rat) ^ 5 \<le> 1 + 2 powi (-50)"
  by (simp add: field_simps power_int_minus)

text \<open>Seconds as a double are at most three roundings above the exact value.\<close>

lemma as_secs_f64_upper:
  "as_secs_f64 n \<le> of_nat n / 1000000000 * (1 + 2 powi (-53)) ^ 3"
proof -
  let ?k = "1 + 2 powi (-53) :: rat" and ?B = "1000000000 :: rat"
  let ?s = "of_nat (n div 1000000000) :: rat" and ?r = "of_nat (n mod 1000000000) :: rat"
  have k: "1 \<le> ?k" by simp
  have a: "f64_of_nat (n div 1000000000) \<le> ?s * ?k"
    unfolding f64_of_nat_def by (rule f64_round_upper) simp
  have "f64_of_nat (n mod 1000000000) \<le> ?r * ?k"
    unfolding f64_of_nat_def by (rule f64_round_upper) simp
  then have "f64_of_nat (n mod 1000000000) / ?B * ?k \<le> ?r * ?k / ?B * ?k"
    by (intro mult_right_mono divide_right_mono) simp_all
  moreover have "f64_round (f64_of_nat (n mod 1000000000) / ?B)
      \<le> f64_of_nat (n mod 1000000000) / ?B * ?k"
    by (rule f64_round_upper) (simp add: f64_of_nat_def f64_round_nonneg)
  ultimately have b: "f64_round (f64_of_nat (n mod 1000000000) / ?B) \<le> ?r / ?B * ?k\<^sup>2"
    by (simp add: power2_eq_square field_simps)
  have "?s * ?k * 1 \<le> ?s * ?k * ?k" using k by (intro mult_left_mono) simp_all
  with a b have "f64_of_nat (n div 1000000000) + f64_round (f64_of_nat (n mod 1000000000) / ?B)
      \<le> (?s + ?r / ?B) * ?k\<^sup>2"
    by (simp add: power2_eq_square distrib_right mult.assoc)
  also have "?s + ?r / ?B = of_nat n / ?B"
  proof -
    have "(of_nat n :: rat) = of_nat (1000000000 * (n div 1000000000) + n mod 1000000000)"
      by (simp only: mult_div_mod_eq)
    also have "\<dots> = ?B * ?s + ?r" by (simp only: of_nat_add of_nat_mult of_nat_numeral)
    finally show ?thesis by (simp add: field_simps)
  qed
  finally have c: "f64_of_nat (n div 1000000000) + f64_round (f64_of_nat (n mod 1000000000) / ?B)
      \<le> of_nat n / ?B * ?k\<^sup>2" .
  have "as_secs_f64 n \<le> (f64_of_nat (n div 1000000000)
      + f64_round (f64_of_nat (n mod 1000000000) / ?B)) * ?k"
    unfolding as_secs_f64_def f64_add_def
    by (rule f64_round_upper) (simp add: f64_of_nat_def f64_round_nonneg)
  also have "\<dots> \<le> of_nat n / ?B * ?k\<^sup>2 * ?k" using k by (intro mult_right_mono c) simp
  finally show ?thesis by (simp add: power2_eq_square power3_eq_cube mult.assoc)
qed

end
