(* ===== verification/Rate_Limit.thy ===== *)
theory Rate_Limit
  imports Config F64 Hash_Map
begin

text \<open>
  \<open>rate_limit.rs\<close>: token buckets with \<open>f64\<close> arithmetic, the insertion-ordered map of
  per-address buckets with its cap, and the three-tier limiter. An \<open>Instant\<close> is a number
  of nanoseconds; every reading of the clock is an argument.
\<close>

type_synonym instant = nat

subsection \<open>Token bucket\<close>

record token_bucket =
  tb_capacity :: f64
  tb_tokens_per_sec :: f64
  tb_tokens :: f64
  tb_last_refill :: instant

definition bucket_new :: "u32 \<Rightarrow> u32 \<Rightarrow> instant \<Rightarrow> token_bucket" where
  "bucket_new per_minute burst now =
     (let capacity = f64_of_nat (unat burst) in
      \<lparr>tb_capacity = capacity,
       tb_tokens_per_sec = f64_round (f64_of_nat (unat per_minute) / 60),
       tb_tokens = capacity,
       tb_last_refill = now\<rparr>)"

text \<open>\<open>duration_since\<close> saturates at zero, as subtraction of natural numbers does.\<close>

definition refill :: "instant \<Rightarrow> token_bucket \<Rightarrow> token_bucket" where
  "refill now b =
     (let elapsed = as_secs_f64 (now - tb_last_refill b) in
      b\<lparr>tb_tokens := min (f64_add (tb_tokens b) (f64_mul elapsed (tb_tokens_per_sec b)))
                       (tb_capacity b),
        tb_last_refill := now\<rparr>)"

text \<open>\<open>x.ceil() as u64\<close>: the cast saturates, infinity included.\<close>

definition ceil_as_u64 :: "f64 option \<Rightarrow> u64" where
  "ceil_as_u64 x =
     (case x of
        None \<Rightarrow> - 1
      | Some v \<Rightarrow> of_int (max 0 (min (2 ^ 64 - 1) \<lceil>v\<rceil>)))"

definition try_consume :: "instant \<Rightarrow> token_bucket \<Rightarrow> (u64 + unit) \<times> token_bucket" where
  "try_consume now b0 =
     (let b = refill now b0 in
      if tb_tokens b \<ge> 1 then (Inr (), b\<lparr>tb_tokens := f64_sub (tb_tokens b) 1\<rparr>)
      else (let wait = ceil_as_u64 (f64_div (f64_sub 1 (tb_tokens b)) (tb_tokens_per_sec b))
            in (Inl (max wait 1), b)))"

record rate_limited_error =
  rle_tier :: str
  rle_retry_after_secs :: u64

subsection \<open>Capped map in insertion order\<close>

record 'k lru_map =
  lm_map :: "('k, token_bucket) hash_map"
  lm_order :: "'k list"
  lm_cap :: usize

definition lru_new :: "usize \<Rightarrow> 'k lru_map" where
  "lru_new cap = \<lparr>lm_map = [], lm_order = [], lm_cap = cap\<rparr>"

definition lru_evict :: "'k \<Rightarrow> 'k lru_map \<Rightarrow> 'k lru_map" where
  "lru_evict key m =
     (if lm_cap m > 0 \<and> \<not> hm_contains (lm_map m) key
         \<and> length (lm_map m) \<ge> unat (lm_cap m)
      then (case lm_order m of
              oldest # rest \<Rightarrow> m\<lparr>lm_order := rest, lm_map := hm_remove oldest (lm_map m)\<rparr>
            | [] \<Rightarrow> m)
      else m)"

definition lru_insert_new :: "'k \<Rightarrow> u32 \<Rightarrow> u32 \<Rightarrow> instant \<Rightarrow> 'k lru_map \<Rightarrow> 'k lru_map" where
  "lru_insert_new key per_minute burst now m =
     (if \<not> hm_contains (lm_map m) key
      then m\<lparr>lm_map := hm_insert key (bucket_new per_minute burst now) (lm_map m),
             lm_order := lm_order m @ [key]\<rparr>
      else m)"

text \<open>
  The result is the map with an entry for the key; the borrow of that entry is the
  lookup that the caller makes.
\<close>

definition get_or_insert :: "'k \<Rightarrow> u32 \<Rightarrow> u32 \<Rightarrow> instant \<Rightarrow> 'k lru_map \<Rightarrow> 'k lru_map" where
  "get_or_insert key per_minute burst now m =
     lru_insert_new key per_minute burst now (lru_evict key m)"

subsection \<open>Rate limiter\<close>

record rate_limiter =
  rt_global :: token_bucket
  rt_by_ip :: "ip_addr lru_map"
  rt_by_key :: "(str, token_bucket) hash_map"
  rt_global_per_min :: u32
  rt_global_burst :: u32
  rt_ip_per_min :: u32
  rt_ip_burst :: u32
  rt_key_per_min :: u32
  rt_key_burst :: u32

definition limiter_new :: "rate_limit_config \<Rightarrow> instant \<Rightarrow> rate_limiter" where
  "limiter_new cfg now =
     \<lparr>rt_global = bucket_new (rl_global_per_min cfg) (effective_global_burst cfg) now,
      rt_by_ip = lru_new (rl_ip_table_size cfg),
      rt_by_key = [],
      rt_global_per_min = rl_global_per_min cfg,
      rt_global_burst = effective_global_burst cfg,
      rt_ip_per_min = rl_per_ip_per_min cfg,
      rt_ip_burst = effective_per_ip_burst cfg,
      rt_key_per_min = rl_per_key_per_min cfg,
      rt_key_burst = effective_per_key_burst cfg\<rparr>"

definition tier_result :: "str \<Rightarrow> u64 + unit \<Rightarrow> rate_limited_error + unit" where
  "tier_result tier r =
     (case r of Inl s \<Rightarrow> Inl \<lparr>rle_tier = tier, rle_retry_after_secs = s\<rparr> | Inr u \<Rightarrow> Inr u)"

definition check_global :: "instant \<Rightarrow> rate_limiter \<Rightarrow> (rate_limited_error + unit) \<times> rate_limiter" where
  "check_global now rl =
     (case try_consume now (rt_global rl) of
        (r, b) \<Rightarrow> (tier_result ''global'' r, rl\<lparr>rt_global := b\<rparr>))"

text \<open>
  \<open>check_ip\<close> and \<open>check_key\<close> read the clock when they create a bucket (\<open>t0\<close>) and again
  when they refill it (\<open>t1\<close>). The last case of \<open>check_ip\<close> is the \<open>unwrap\<close> that cannot fail.
\<close>

definition check_ip ::
  "instant \<Rightarrow> instant \<Rightarrow> ip_addr \<Rightarrow> rate_limiter \<Rightarrow> (rate_limited_error + unit) \<times> rate_limiter" where
  "check_ip t0 t1 ip rl =
     (let m = get_or_insert ip (rt_ip_per_min rl) (rt_ip_burst rl) t0 (rt_by_ip rl) in
      case hm_get (lm_map m) ip of
        Some b \<Rightarrow>
          (case try_consume t1 b of
             (r, b') \<Rightarrow> (tier_result ''ip'' r,
                        rl\<lparr>rt_by_ip := m\<lparr>lm_map := hm_insert ip b' (lm_map m)\<rparr>\<rparr>))
      | None \<Rightarrow> (Inr (), rl))"

definition check_key ::
  "instant \<Rightarrow> instant \<Rightarrow> str \<Rightarrow> u32 option \<Rightarrow> u32 \<Rightarrow> rate_limiter \<Rightarrow>
     (rate_limited_error + unit) \<times> rate_limiter" where
  "check_key t0 t1 key_id per_min_override burst_override rl =
     (let pm = (case per_min_override of Some v \<Rightarrow> v | None \<Rightarrow> rt_key_per_min rl);
          burst = (if burst_override > 0 then burst_override else rt_key_burst rl);
          b = (case hm_get (rt_by_key rl) key_id of
                 Some b \<Rightarrow> b | None \<Rightarrow> bucket_new pm burst t0)
      in case try_consume t1 b of
           (r, b') \<Rightarrow> (tier_result ''key'' r,
                      rl\<lparr>rt_by_key := hm_insert key_id b' (rt_by_key rl)\<rparr>))"

end
