(* ===== verification/Rate_Gate.thy ===== *)
theory Rate_Gate
  imports Complex_Main
begin

text \<open>
  The contract every tier of the rate limiter shares: a gate that is asked to take one
  token at a time, whose level says how many tokens it holds. \<open>token_gate\<close> is the
  behaviour at one instant, \<open>rated_gate\<close> adds how fast the level may grow. The client
  lemmas count the requests a gate lets through: at one instant, and over any sequence of
  instants.
\<close>

fun run_gate :: "(nat \<Rightarrow> 's \<Rightarrow> ('e + unit) \<times> 's) \<Rightarrow> nat list \<Rightarrow> 's \<Rightarrow> nat \<times> 's" where
  "run_gate take1 [] s = (0, s)"
| "run_gate take1 (t # ts) s =
     (case take1 t s of (r, s') \<Rightarrow>
        (case run_gate take1 ts s' of (n, s'') \<Rightarrow>
           ((case r of Inr _ \<Rightarrow> Suc n | Inl _ \<Rightarrow> n), s'')))"

abbreviation accepted :: "(nat \<Rightarrow> 's \<Rightarrow> ('e + unit) \<times> 's) \<Rightarrow> nat list \<Rightarrow> 's \<Rightarrow> nat" where
  "accepted take1 ts s \<equiv> fst (run_gate take1 ts s)"

lemma accepted_Cons:
  "accepted take1 (t # ts) s =
     (case fst (take1 t s) of Inr _ \<Rightarrow> 1 | Inl _ \<Rightarrow> 0) + accepted take1 ts (snd (take1 t s))"
  by (simp split: prod.splits sum.splits)

locale token_gate =
  fixes take1 :: "nat \<Rightarrow> 's \<Rightarrow> ('e + unit) \<times> 's"
    and level :: "nat \<Rightarrow> 's \<Rightarrow> rat"
    and ok :: "'s \<Rightarrow> bool"
  assumes take_ok: "ok s \<Longrightarrow> ok (snd (take1 t s))"
    and take_accepts: "ok s \<Longrightarrow> fst (take1 t s) = Inr () \<longleftrightarrow> 1 \<le> level t s"
    and level_nonneg: "ok s \<Longrightarrow> 0 \<le> level t s"
    and level_spent:
      "ok s \<Longrightarrow> level t (snd (take1 t s)) = (if 1 \<le> level t s then level t s - 1 else level t s)"
begin

lemma accepted_Cons':
  "ok s \<Longrightarrow> accepted take1 (t # ts) s =
     (if 1 \<le> level t s then 1 else 0) + accepted take1 ts (snd (take1 t s))"
  using take_accepts [of s t]
  by (cases "fst (take1 t s)") (auto simp: accepted_Cons simp del: run_gate.simps)

text \<open>At one instant a gate lets through as many requests as it holds whole tokens.\<close>

lemma accepted_at_once:
  "ok s \<Longrightarrow> accepted take1 (replicate n t) s = min n (nat \<lfloor>level t s\<rfloor>)"
proof (induction n arbitrary: s)
  case 0
  then show ?case by simp
next
  case (Suc n)
  have IH: "accepted take1 (replicate n t) (snd (take1 t s))
      = min n (nat \<lfloor>level t (snd (take1 t s))\<rfloor>)"
    by (rule Suc.IH) (rule take_ok [OF Suc.prems])
  show ?case
  proof (cases "1 \<le> level t s")
    case True
    then have "1 \<le> \<lfloor>level t s\<rfloor>" by simp
    with True IH Suc.prems show ?thesis
      by (simp add: accepted_Cons' level_spent del: run_gate.simps) linarith
  next
    case False
    with level_nonneg [OF Suc.prems, of t] have "\<lfloor>level t s\<rfloor> = 0" by (simp add: floor_eq_iff)
    with False IH Suc.prems show ?thesis
      by (simp add: accepted_Cons' level_spent del: run_gate.simps)
  qed
qed

end

locale rated_gate = token_gate +
  fixes rate :: rat
    and slack :: rat
  assumes level_growth:
      "ok s \<Longrightarrow> t \<le> t' \<Longrightarrow>
         level t' (snd (take1 t s)) \<le> level t (snd (take1 t s)) + rate * of_nat (t' - t) + slack"
    and slack_nonneg: "0 \<le> slack"
begin

text \<open>
  Over any sequence of instants in order, the accepted requests are bounded by the level
  at the start, the rate times the elapsed time, and a slack for each request.
\<close>

lemma accepted_bound:
  "ok s \<Longrightarrow> sorted (t # ts) \<Longrightarrow>
     of_nat (accepted take1 (t # ts) s)
       \<le> level t s + rate * of_nat (last (t # ts) - t) + of_nat (length ts) * slack"
proof (induction ts arbitrary: t s)
  case Nil
  then show ?case
    using level_nonneg [OF Nil(1), of t] by (simp add: accepted_Cons' del: run_gate.simps(2))
next
  case (Cons u us)
  let ?s = "snd (take1 t s)"
  have ok: "ok ?s" and tu: "t \<le> u" and srt: "sorted (u # us)"
    using Cons.prems take_ok by auto
  have ul: "u \<le> last (u # us)" using srt by auto
  have split: "of_nat (last (u # us) - u) + of_nat (u - t) = (of_nat (last (u # us) - t) :: rat)"
    using tu ul by (simp flip: of_nat_add)
  have "of_nat (accepted take1 (t # u # us) s)
      = (if 1 \<le> level t s then 1 else 0) + (of_nat (accepted take1 (u # us) ?s) :: rat)"
    using Cons.prems(1) by (simp add: accepted_Cons' [of s t] del: run_gate.simps(2))
  also have "\<dots> \<le> (if 1 \<le> level t s then 1 else 0)
      + (level u ?s + rate * of_nat (last (u # us) - u) + of_nat (length us) * slack)"
    using Cons.IH [OF ok srt] by simp
  also have "\<dots> \<le> (if 1 \<le> level t s then 1 else 0)
      + (level t ?s + rate * of_nat (u - t) + slack
         + rate * of_nat (last (u # us) - u) + of_nat (length us) * slack)"
    using level_growth [OF Cons.prems(1) tu] by simp
  also have "\<dots> = level t s + rate * (of_nat (last (u # us) - u) + of_nat (u - t))
      + of_nat (length (u # us)) * slack"
    using level_spent [OF Cons.prems(1), of t] by (simp add: algebra_simps)
  also have "\<dots> = level t s + rate * of_nat (last (t # u # us) - t)
      + of_nat (length (u # us)) * slack"
    unfolding split by simp
  finally show ?case .
qed

end

text \<open>
  A gate inside a larger state: \<open>view\<close> finds it at an instant (it may be created then),
  and taking a token from the larger state takes one from the gate it shows.
\<close>

lemma rated_gate_lift:
  assumes gate: "rated_gate take1 level ok rate slack"
    and safe: "\<And>t x. safe x \<Longrightarrow> ok (view t x)"
    and keep: "\<And>t x. safe x \<Longrightarrow> safe (snd (take2 t x))"
    and view: "\<And>t t' x. safe x \<Longrightarrow> view t' (snd (take2 t x)) = snd (take1 t (view t x))"
    and result: "\<And>t x. safe x \<Longrightarrow> fst (take2 t x) = Inr () \<longleftrightarrow> fst (take1 t (view t x)) = Inr ()"
  shows "rated_gate take2 (\<lambda>t x. level t (view t x)) safe rate slack"
proof -
  note laws = rated_gate.axioms(1) [OF gate] rated_gate.level_growth [OF gate]
    rated_gate.slack_nonneg [OF gate]
  note tlaws = token_gate.take_ok [OF laws(1)] token_gate.take_accepts [OF laws(1)]
    token_gate.level_nonneg [OF laws(1)] token_gate.level_spent [OF laws(1)]
  show ?thesis
  proof unfold_locales
    fix x t t'
    assume x: "safe x"
    note ok = safe [OF x, of t]
    show "safe (snd (take2 t x))" by (rule keep [OF x])
    show "fst (take2 t x) = Inr () \<longleftrightarrow> 1 \<le> level t (view t x)"
      using tlaws(2) [OF ok] by (simp add: result [OF x])
    show "0 \<le> level t (view t x)" by (rule tlaws(3) [OF ok])
    show "level t (view t (snd (take2 t x))) =
        (if 1 \<le> level t (view t x) then level t (view t x) - 1 else level t (view t x))"
      using tlaws(4) [OF ok] by (simp add: view [OF x])
    assume "t \<le> t'"
    then show "level t' (view t' (snd (take2 t x)))
        \<le> level t (view t (snd (take2 t x))) + rate * of_nat (t' - t) + slack"
      using laws(2) [OF ok] by (simp add: view [OF x])
  qed (rule laws(3))
qed

end
