(* ===== verification/Rate_Limit_Props.thy ===== *)
theory Rate_Limit_Props
  imports Rate_Limit Rate_Gate
begin

text \<open>
  Properties of the rate limiter: the invariant of a token bucket, the gate contract for
  the bucket and for the global, per-address and per-key tiers, the invariant of the
  capped address map, and independence of addresses and keys.
\<close>

subsection \<open>Token bucket\<close>

definition bucket_ok :: "u32 \<Rightarrow> u32 \<Rightarrow> token_bucket \<Rightarrow> bool" where
  "bucket_ok pm burst b \<longleftrightarrow>
     tb_capacity b = of_nat (unat burst)
     \<and> tb_tokens_per_sec b = f64_round (of_nat (unat pm) / 60)
     \<and> 0 \<le> tb_tokens b \<and> tb_tokens b \<le> tb_capacity b \<and> is_f64 (tb_tokens b)"

declare of_nat_unat [simp del]

lemma unat_u32_bound: "unat (w :: u32) < 2 ^ 32"
proof -
  have "unat w < 2 ^ LENGTH(32)" by (rule unsigned_less)
  then show ?thesis by simp
qed

lemma f64_of_u32: "f64_of_nat (unat (w :: u32)) = of_nat (unat w)"
  using unat_u32_bound [of w] by (simp add: f64_of_nat_def f64_round_of_nat)

lemma is_f64_u32: "is_f64 (of_nat (unat (w :: u32)))"
  using unat_u32_bound [of w] by (intro is_f64_of_nat) simp

lemma bucket_new_ok [wf_intros]: "bucket_ok pm burst (bucket_new pm burst t)"
  by (simp add: bucket_ok_def bucket_new_def Let_def f64_of_u32 is_f64_u32)

lemma bucket_rate_nonneg: "bucket_ok pm burst b \<Longrightarrow> 0 \<le> tb_tokens_per_sec b"
  by (simp add: bucket_ok_def f64_round_nonneg)

lemma refill_ok [wf_intros]:
  assumes "bucket_ok pm burst b" shows "bucket_ok pm burst (refill t b)"
proof -
  let ?inc = "f64_mul (as_secs_f64 (t - tb_last_refill b)) (tb_tokens_per_sec b)"
  have "0 \<le> ?inc"
    using bucket_rate_nonneg [OF assms] by (simp add: f64_mul_def f64_round_nonneg)
  then have "0 \<le> tb_tokens b + ?inc" using assms by (simp add: bucket_ok_def)
  with assms show ?thesis
    by (auto simp: bucket_ok_def refill_def Let_def f64_add_def f64_round_nonneg is_f64_round
        is_f64_u32 min_def)
qed

text \<open>Refilling again at the same instant changes nothing.\<close>

lemma refill_same_instant:
  "bucket_ok pm burst b \<Longrightarrow> tb_last_refill b = t \<Longrightarrow> refill t b = b"
  by (simp add: refill_def bucket_ok_def f64_mul_def f64_add_def is_f64_def min_def)

lemma refill_fields [simp]:
  "tb_last_refill (refill t b) = t"
  "tb_capacity (refill t b) = tb_capacity b"
  "tb_tokens_per_sec (refill t b) = tb_tokens_per_sec b"
  by (simp_all add: refill_def Let_def)

lemma bucket_tokens_bound: "bucket_ok pm burst b \<Longrightarrow> tb_tokens b < 2 ^ 32"
proof -
  assume "bucket_ok pm burst b"
  then have "tb_tokens b \<le> of_nat (unat burst)" by (simp add: bucket_ok_def)
  also have "\<dots> < of_nat (2 ^ 32)"
    using unat_u32_bound [of burst] by (simp only: of_nat_less_iff)
  finally show ?thesis by simp
qed

lemma f64_sub_one_token:
  assumes "bucket_ok pm burst b" "1 \<le> tb_tokens b"
  shows "f64_sub (tb_tokens b) 1 = tb_tokens b - 1"
  using assms bucket_tokens_bound [OF assms(1)] f64_sub_one_exact [of "tb_tokens b"]
  by (simp add: f64_sub_def bucket_ok_def)

lemma is_f64_sub_one_token:
  "bucket_ok pm burst b \<Longrightarrow> 1 \<le> tb_tokens b \<Longrightarrow> is_f64 (tb_tokens b - 1)"
  using f64_sub_one_exact [of "tb_tokens b"] bucket_tokens_bound [of pm burst b]
  by (simp add: is_f64_def bucket_ok_def)

lemma try_consume_state:
  assumes "bucket_ok pm burst b"
  shows "snd (try_consume t b) =
    (refill t b)\<lparr>tb_tokens := (if 1 \<le> tb_tokens (refill t b) then tb_tokens (refill t b) - 1
                              else tb_tokens (refill t b))\<rparr>"
  using f64_sub_one_token [OF refill_ok [OF assms]]
  by (auto simp: try_consume_def Let_def)

lemma try_consume_ok [wf_intros]:
  "bucket_ok pm burst b \<Longrightarrow> bucket_ok pm burst (snd (try_consume t b))"
  using refill_ok [of pm burst b t] is_f64_sub_one_token [of pm burst "refill t b"]
  by (auto simp: try_consume_state bucket_ok_def)

lemma try_consume_last_refill [simp]: "tb_last_refill (snd (try_consume t b)) = t"
  by (simp add: try_consume_def Let_def)

lemma try_consume_accepts:
  "fst (try_consume t b) = Inr () \<longleftrightarrow> 1 \<le> tb_tokens (refill t b)"
  by (simp add: try_consume_def Let_def)

text \<open>A rejected request is told to wait at least one second.\<close>

lemma try_consume_retry_after:
  "fst (try_consume t b) = Inl w \<Longrightarrow> 1 \<le> w"
  by (auto simp: try_consume_def Let_def split: if_splits)

definition bucket_rate :: "u32 \<Rightarrow> rat" where
  "bucket_rate pm = of_nat (unat pm) / 60 / 1000000000 * (1 + 2 powi (-50))"

lemma collect_pow5: "(a * k ^ 3) * (p * k) * k = a * p * (k :: rat) ^ 5"
  by (simp add: eval_nat_numeral)

lemma refill_amount_upper:
  "f64_mul (as_secs_f64 n) (f64_round (of_nat (unat pm) / 60)) \<le> bucket_rate pm * of_nat n"
proof -
  let ?k = "1 + 2 powi (-53) :: rat" and ?p = "of_nat (unat pm) / 60 :: rat"
  have p: "f64_round ?p \<le> ?p * ?k" by (rule f64_round_upper) simp
  have "f64_mul (as_secs_f64 n) (f64_round ?p) \<le> as_secs_f64 n * f64_round ?p * ?k"
    unfolding f64_mul_def by (rule f64_round_upper) (simp add: f64_round_nonneg)
  also have "\<dots> \<le> (of_nat n / 1000000000 * ?k ^ 3) * (?p * ?k) * ?k"
    by (intro mult_right_mono mult_mono as_secs_f64_upper p) (simp_all add: f64_round_nonneg)
  also have "\<dots> = of_nat n / 1000000000 * ?p * ?k ^ 5"
    by (rule collect_pow5)
  also have "\<dots> \<le> of_nat n / 1000000000 * ?p * (1 + 2 powi (-50))"
    by (intro mult_left_mono f64_eps_pow5) simp
  also have "\<dots> = bucket_rate pm * of_nat n" by (simp only: bucket_rate_def) simp
  finally show ?thesis .
qed

lemma refill_growth:
  assumes ok: "bucket_ok pm burst b" and last: "tb_last_refill b = t" and le: "t \<le> t'"
  shows "tb_tokens (refill t' b) \<le> tb_tokens b + bucket_rate pm * of_nat (t' - t) + 2 powi (-21)"
proof -
  define inc where "inc = f64_mul (as_secs_f64 (t' - t)) (f64_round (of_nat (unat pm) / 60))"
  have inc: "0 \<le> inc" "inc \<le> bucket_rate pm * of_nat (t' - t)"
    by (simp_all add: inc_def refill_amount_upper) (simp add: f64_mul_def f64_round_nonneg)
  have lvl: "tb_tokens (refill t' b) = min (f64_round (tb_tokens b + inc)) (tb_capacity b)"
    using ok last by (simp add: refill_def Let_def bucket_ok_def inc_def f64_add_def)
  have cap: "tb_capacity b < 2 ^ 32"
  proof -
    have "tb_capacity b = of_nat (unat burst)" using ok by (simp add: bucket_ok_def)
    also have "\<dots> < of_nat (2 ^ 32)"
      using unat_u32_bound [of burst] by (simp only: of_nat_less_iff)
    finally show ?thesis by simp
  qed
  have slack: "(0 :: rat) \<le> 2 powi (-21)" by simp
  have nn: "0 \<le> tb_tokens b + inc" using ok inc by (simp add: bucket_ok_def)
  have "tb_tokens (refill t' b) \<le> tb_tokens b + inc + 2 powi (-21)"
  proof (cases "tb_tokens b + inc \<le> tb_capacity b")
    case True
    have "f64_round (tb_tokens b + inc) \<le> (tb_tokens b + inc) + (tb_tokens b + inc) * 2 powi (-53)"
      using f64_round_upper [OF nn] by (simp only: distrib_left mult_1_right)
    also have "(tb_tokens b + inc) * 2 powi (-53) \<le> 2 ^ 32 * 2 powi (-53)"
      using True cap by (intro mult_right_mono) simp_all
    also have "(2::rat) ^ 32 * 2 powi (-53) = 2 powi (-21)" by (simp add: power_int_minus)
    finally show ?thesis unfolding lvl by (simp add: min_le_iff_disj)
  next
    case False
    then have "tb_capacity b \<le> tb_tokens b + inc + 2 powi (-21)"
      using slack by linarith
    then show ?thesis unfolding lvl by (simp add: min_le_iff_disj)
  qed
  with inc(2) show ?thesis by linarith
qed

abbreviation bucket_level :: "instant \<Rightarrow> token_bucket \<Rightarrow> rat" where
  "bucket_level t b \<equiv> tb_tokens (refill t b)"

lemma bucket_level_after:
  assumes "bucket_ok pm burst b"
  shows "bucket_level t (snd (try_consume t b)) = tb_tokens (snd (try_consume t b))"
  by (simp add: refill_same_instant [OF try_consume_ok [OF assms]])

interpretation bucket_gate: rated_gate try_consume bucket_level "bucket_ok pm burst"
  "bucket_rate pm" "2 powi (-21)" for pm burst
proof
  fix s t t'
  assume ok: "bucket_ok pm burst s"
  show "bucket_ok pm burst (snd (try_consume t s))" by (rule try_consume_ok [OF ok])
  show "fst (try_consume t s) = Inr () \<longleftrightarrow> 1 \<le> bucket_level t s"
    by (rule try_consume_accepts)
  show "0 \<le> bucket_level t s" using refill_ok [OF ok, of t] by (simp add: bucket_ok_def)
  show "bucket_level t (snd (try_consume t s)) =
      (if 1 \<le> bucket_level t s then bucket_level t s - 1 else bucket_level t s)"
    by (simp add: bucket_level_after [OF ok]) (simp add: try_consume_state [OF ok])
  assume "t \<le> t'"
  then show "bucket_level t' (snd (try_consume t s))
      \<le> bucket_level t (snd (try_consume t s)) + bucket_rate pm * of_nat (t' - t) + 2 powi (-21)"
    unfolding bucket_level_after [OF ok]
    by (intro refill_growth [OF try_consume_ok [OF ok]]) simp_all
next
  show "0 \<le> (2 powi (-21) :: rat)" by simp
qed

subsection \<open>The capped address map\<close>

definition lru_wf :: "'k lru_map \<Rightarrow> bool" where
  "lru_wf m \<longleftrightarrow>
     hm_wf (lm_map m) \<and> distinct (lm_order m) \<and> set (lm_order m) = fst ` set (lm_map m)
     \<and> (0 < lm_cap m \<longrightarrow> length (lm_map m) \<le> unat (lm_cap m))"

lemma lru_wf_length: "lru_wf m \<Longrightarrow> length (lm_order m) = length (lm_map m)"
  using distinct_card [of "lm_order m"] distinct_card [of "map fst (lm_map m)"]
  by (simp add: lru_wf_def hm_wf_def)

lemma lru_new_wf [wf_intros]: "lru_wf (lru_new cap)"
  by (simp add: lru_wf_def lru_new_def)

lemma lru_evict_cap [simp]: "lm_cap (lru_evict k m) = lm_cap m"
  by (simp add: lru_evict_def split: list.splits)

lemma lru_evict_full:
  assumes wf: "lru_wf m" and full: "0 < lm_cap m" "\<not> hm_contains (lm_map m) k"
    "unat (lm_cap m) \<le> length (lm_map m)"
  obtains oldest rest where "lm_order m = oldest # rest"
    "lru_evict k m = m\<lparr>lm_order := rest, lm_map := hm_remove oldest (lm_map m)\<rparr>"
    "hm_contains (lm_map m) oldest"
proof (cases "lm_order m")
  case Nil
  with wf have "lm_map m = []" by (simp add: lru_wf_def)
  with full show ?thesis by (simp add: word_greater_zero_iff unat_eq_zero)
next
  case (Cons a as)
  with that [of a as] full wf show ?thesis
    by (auto simp: lru_evict_def lru_wf_def hm_contains_iff)
qed

lemma lru_evict_wf:
  assumes wf: "lru_wf m"
  shows "lru_wf (lru_evict k m)"
    and "\<not> hm_contains (lm_map m) k \<Longrightarrow> 0 < lm_cap m \<Longrightarrow>
      length (lm_map (lru_evict k m)) < unat (lm_cap m)"
proof -
  let ?full = "0 < lm_cap m \<and> \<not> hm_contains (lm_map m) k \<and> unat (lm_cap m) \<le> length (lm_map m)"
  have "lru_wf (lru_evict k m) \<and> (\<not> hm_contains (lm_map m) k \<longrightarrow> 0 < lm_cap m \<longrightarrow>
      length (lm_map (lru_evict k m)) < unat (lm_cap m))"
  proof (cases ?full)
    case True
    then obtain oldest rest where o: "lm_order m = oldest # rest"
      "lru_evict k m = m\<lparr>lm_order := rest, lm_map := hm_remove oldest (lm_map m)\<rparr>"
      "hm_contains (lm_map m) oldest"
      using lru_evict_full [OF wf] by blast
    then have "0 < length (lm_map m)" by (auto simp: hm_contains_iff)
    with True o wf show ?thesis
      by (auto simp: lru_wf_def hm_len_remove hm_keys_remove)
  next
    case False
    then have "lru_evict k m = m" by (auto simp: lru_evict_def)
    with False wf show ?thesis by auto
  qed
  then show "lru_wf (lru_evict k m)"
    and "\<not> hm_contains (lm_map m) k \<Longrightarrow> 0 < lm_cap m \<Longrightarrow>
      length (lm_map (lru_evict k m)) < unat (lm_cap m)" by blast+
qed

lemma lru_evict_absent:
  "\<not> hm_contains (lm_map m) k \<Longrightarrow> \<not> hm_contains (lm_map (lru_evict k m)) k"
  by (auto simp: lru_evict_def hm_contains_def split: list.splits)

lemma lru_evict_present: "hm_contains (lm_map m) k \<Longrightarrow> lru_evict k m = m"
  by (simp add: lru_evict_def)

lemma get_or_insert_wf [wf_intros]:
  assumes wf: "lru_wf m" shows "lru_wf (get_or_insert k pm burst t m)"
proof (cases "hm_contains (lm_map m) k")
  case True
  with wf show ?thesis by (simp add: get_or_insert_def lru_insert_new_def lru_evict_present)
next
  case False
  have "hm_contains (lm_map (lru_evict k m)) k = False" using lru_evict_absent [OF False] by simp
  with lru_evict_wf [OF wf, of k] False show ?thesis
    by (auto simp: get_or_insert_def lru_insert_new_def lru_wf_def hm_contains_iff hm_keys_insert
        hm_len_insert)
qed

lemma get_or_insert_cap [simp]: "lm_cap (get_or_insert k pm burst t m) = lm_cap m"
  by (simp add: get_or_insert_def lru_insert_new_def)

lemma get_or_insert_self:
  "hm_get (lm_map (get_or_insert k pm burst t m)) k =
     (case hm_get (lm_map m) k of Some b \<Rightarrow> Some b | None \<Rightarrow> Some (bucket_new pm burst t))"
proof (cases "hm_contains (lm_map m) k")
  case True
  then show ?thesis
    by (auto simp: get_or_insert_def lru_insert_new_def lru_evict_present hm_contains_def)
next
  case False
  with lru_evict_absent [OF False] show ?thesis
    by (auto simp: get_or_insert_def lru_insert_new_def hm_contains_def)
qed

text \<open>Another address keeps its bucket, or is the one that was inserted first.\<close>

lemma get_or_insert_other:
  "k' \<noteq> k \<Longrightarrow> hm_get (lm_map (get_or_insert k pm burst t m)) k' =
     (if lm_cap m > 0 \<and> \<not> hm_contains (lm_map m) k \<and> length (lm_map m) \<ge> unat (lm_cap m)
         \<and> (\<exists>rest. lm_order m = k' # rest)
      then None else hm_get (lm_map m) k')"
  by (auto simp: get_or_insert_def lru_insert_new_def lru_evict_def hm_contains_def
      split: list.splits)

subsection \<open>The limiter\<close>

definition limiter_wf :: "rate_limiter \<Rightarrow> bool" where
  "limiter_wf rl \<longleftrightarrow>
     bucket_ok (rt_global_per_min rl) (rt_global_burst rl) (rt_global rl)
     \<and> lru_wf (rt_by_ip rl)
     \<and> (\<forall>ip b. hm_get (lm_map (rt_by_ip rl)) ip = Some b \<longrightarrow>
          bucket_ok (rt_ip_per_min rl) (rt_ip_burst rl) b)
     \<and> hm_wf (rt_by_key rl)"

lemma limiter_new_wf [wf_intros]: "limiter_wf (limiter_new cfg t)"
  by (simp add: limiter_wf_def limiter_new_def bucket_new_ok lru_new_wf) (simp add: lru_new_def)

lemma check_global_split:
  "fst (check_global t rl) = tier_result ''global'' (fst (try_consume t (rt_global rl)))"
  "snd (check_global t rl) = rl\<lparr>rt_global := snd (try_consume t (rt_global rl))\<rparr>"
  by (simp_all add: check_global_def case_prod_unfold)

lemma tier_result_ok [simp]:
  "tier_result tier r = Inr () \<longleftrightarrow> r = Inr ()"
  by (simp add: tier_result_def split: sum.splits)

abbreviation ip_bucket :: "ip_addr \<Rightarrow> instant \<Rightarrow> rate_limiter \<Rightarrow> token_bucket" where
  "ip_bucket ip t0 rl \<equiv> (case hm_get (lm_map (rt_by_ip rl)) ip of
     Some b \<Rightarrow> b | None \<Rightarrow> bucket_new (rt_ip_per_min rl) (rt_ip_burst rl) t0)"

lemma check_ip_split:
  "fst (check_ip t0 t1 ip rl) = tier_result ''ip'' (fst (try_consume t1 (ip_bucket ip t0 rl)))"
  "snd (check_ip t0 t1 ip rl) = rl\<lparr>rt_by_ip :=
     (let m = get_or_insert ip (rt_ip_per_min rl) (rt_ip_burst rl) t0 (rt_by_ip rl)
      in m\<lparr>lm_map := hm_insert ip (snd (try_consume t1 (ip_bucket ip t0 rl))) (lm_map m)\<rparr>)\<rparr>"
  by (simp_all add: check_ip_def get_or_insert_self Let_def case_prod_unfold split: option.splits)

abbreviation key_bucket ::
  "str \<Rightarrow> u32 option \<Rightarrow> u32 \<Rightarrow> instant \<Rightarrow> rate_limiter \<Rightarrow> token_bucket" where
  "key_bucket k pmo bo t0 rl \<equiv> (case hm_get (rt_by_key rl) k of
     Some b \<Rightarrow> b
   | None \<Rightarrow> bucket_new (case pmo of Some v \<Rightarrow> v | None \<Rightarrow> rt_key_per_min rl)
                       (if bo > 0 then bo else rt_key_burst rl) t0)"

lemma check_key_split:
  "fst (check_key t0 t1 k pmo bo rl) =
     tier_result ''key'' (fst (try_consume t1 (key_bucket k pmo bo t0 rl)))"
  "snd (check_key t0 t1 k pmo bo rl) = rl\<lparr>rt_by_key :=
     hm_insert k (snd (try_consume t1 (key_bucket k pmo bo t0 rl))) (rt_by_key rl)\<rparr>"
  by (simp_all add: check_key_def Let_def case_prod_unfold)

lemma check_global_wf [wf_intros]: "limiter_wf rl \<Longrightarrow> limiter_wf (snd (check_global t rl))"
  by (simp add: check_global_split limiter_wf_def try_consume_ok)

lemma ip_bucket_ok:
  "limiter_wf rl \<Longrightarrow> bucket_ok (rt_ip_per_min rl) (rt_ip_burst rl) (ip_bucket ip t0 rl)"
  by (auto simp: limiter_wf_def bucket_new_ok split: option.split)

lemma lru_wf_update_present:
  "lru_wf m \<Longrightarrow> hm_contains (lm_map m) k \<Longrightarrow> lru_wf (m\<lparr>lm_map := hm_insert k b (lm_map m)\<rparr>)"
  by (auto simp: lru_wf_def hm_keys_insert hm_len_insert hm_contains_iff)

lemma check_ip_wf [wf_intros]:
  assumes wf: "limiter_wf rl" shows "limiter_wf (snd (check_ip t0 t1 ip rl))"
proof -
  let ?m = "get_or_insert ip (rt_ip_per_min rl) (rt_ip_burst rl) t0 (rt_by_ip rl)"
  have "hm_contains (lm_map ?m) ip"
    by (simp add: hm_contains_def get_or_insert_self split: option.split)
  moreover have "lru_wf ?m" using wf by (simp add: limiter_wf_def get_or_insert_wf)
  moreover have "\<And>ip' b. ip' \<noteq> ip \<Longrightarrow> hm_get (lm_map ?m) ip' = Some b \<Longrightarrow>
      bucket_ok (rt_ip_per_min rl) (rt_ip_burst rl) b"
    using wf by (auto simp: get_or_insert_other limiter_wf_def split: if_splits)
  ultimately show ?thesis
    using wf try_consume_ok [OF ip_bucket_ok [OF wf]]
    by (auto simp: check_ip_split limiter_wf_def Let_def lru_wf_update_present)
qed

lemma check_key_wf [wf_intros]: "limiter_wf rl \<Longrightarrow> limiter_wf (snd (check_key t0 t1 k pmo bo rl))"
  by (simp add: check_key_split limiter_wf_def)

text \<open>The tiers share no state: a check of one leaves the others as they were.\<close>

lemma tier_frames [frame_simps]:
  "rt_by_ip (snd (check_global t rl)) = rt_by_ip rl"
  "rt_by_key (snd (check_global t rl)) = rt_by_key rl"
  "rt_global (snd (check_ip t0 t1 ip rl)) = rt_global rl"
  "rt_by_key (snd (check_ip t0 t1 ip rl)) = rt_by_key rl"
  "rt_global (snd (check_key t0 t1 k pmo bo rl)) = rt_global rl"
  "rt_by_ip (snd (check_key t0 t1 k pmo bo rl)) = rt_by_ip rl"
  by (simp_all add: check_global_split check_ip_split check_key_split)

lemma check_key_get:
  "hm_get (rt_by_key (snd (check_key t0 t1 k pmo bo rl))) k' =
     (if k' = k then Some (snd (try_consume t1 (key_bucket k pmo bo t0 rl)))
      else hm_get (rt_by_key rl) k')"
  by (simp add: check_key_split)

subsection \<open>Every tier is a rated gate\<close>

interpretation global_gate: rated_gate check_global
  "\<lambda>t rl. bucket_level t (rt_global rl)" "\<lambda>rl. bucket_ok pm burst (rt_global rl)"
  "bucket_rate pm" "2 powi (-21)" for pm burst
  by (rule rated_gate_lift [OF bucket_gate.rated_gate_axioms])
     (simp_all add: check_global_split try_consume_ok)

text \<open>The bucket an address or a key has at any instant, present or about to be made.\<close>

definition ip_ok :: "u32 \<Rightarrow> u32 \<Rightarrow> ip_addr \<Rightarrow> rate_limiter \<Rightarrow> bool" where
  "ip_ok pm burst ip rl \<longleftrightarrow> (\<forall>t. bucket_ok pm burst (ip_bucket ip t rl))"

definition key_ok ::
  "u32 \<Rightarrow> u32 \<Rightarrow> str \<Rightarrow> u32 option \<Rightarrow> u32 \<Rightarrow> rate_limiter \<Rightarrow> bool" where
  "key_ok pm burst k pmo bo rl \<longleftrightarrow> (\<forall>t. bucket_ok pm burst (key_bucket k pmo bo t rl))"

lemma ip_bucket_after:
  "ip_bucket ip t' (snd (check_ip t0 t1 ip rl)) = snd (try_consume t1 (ip_bucket ip t0 rl))"
  by (simp add: check_ip_split Let_def)

lemma key_bucket_after:
  "key_bucket k pmo bo t' (snd (check_key t0 t1 k pmo bo rl))
     = snd (try_consume t1 (key_bucket k pmo bo t0 rl))"
  by (simp add: check_key_get)

lemma ip_rate_gate:
  "rated_gate (\<lambda>t. check_ip t t ip) (\<lambda>t rl. bucket_level t (ip_bucket ip t rl))
     (ip_ok pm burst ip) (bucket_rate pm) (2 powi (-21))"
proof (rule rated_gate_lift [OF bucket_gate.rated_gate_axioms])
  fix t t' rl assume ok: "ip_ok pm burst ip rl"
  show b: "bucket_ok pm burst (ip_bucket ip t rl)" for t using ok by (simp add: ip_ok_def)
  show "ip_ok pm burst ip (snd (check_ip t t ip rl))"
    unfolding ip_ok_def ip_bucket_after using try_consume_ok [OF b] by blast
  show "ip_bucket ip t' (snd (check_ip t t ip rl)) = snd (try_consume t (ip_bucket ip t rl))"
    by (rule ip_bucket_after)
  show "fst (check_ip t t ip rl) = Inr () \<longleftrightarrow> fst (try_consume t (ip_bucket ip t rl)) = Inr ()"
    by (simp add: check_ip_split)
qed

lemma key_rate_gate:
  "rated_gate (\<lambda>t. check_key t t k pmo bo) (\<lambda>t rl. bucket_level t (key_bucket k pmo bo t rl))
     (key_ok pm burst k pmo bo) (bucket_rate pm) (2 powi (-21))"
proof (rule rated_gate_lift [OF bucket_gate.rated_gate_axioms])
  fix t t' rl assume ok: "key_ok pm burst k pmo bo rl"
  show b: "bucket_ok pm burst (key_bucket k pmo bo t rl)" for t using ok by (simp add: key_ok_def)
  show "key_ok pm burst k pmo bo (snd (check_key t t k pmo bo rl))"
    unfolding key_ok_def key_bucket_after using try_consume_ok [OF b] by blast
  show "key_bucket k pmo bo t' (snd (check_key t t k pmo bo rl))
      = snd (try_consume t (key_bucket k pmo bo t rl))"
    by (rule key_bucket_after)
  show "fst (check_key t t k pmo bo rl) = Inr ()
      \<longleftrightarrow> fst (try_consume t (key_bucket k pmo bo t rl)) = Inr ()"
    by (simp add: check_key_split)
qed

interpretation ip_gate: rated_gate "\<lambda>t. check_ip t t ip"
  "\<lambda>t rl. bucket_level t (ip_bucket ip t rl)" "ip_ok pm burst ip" "bucket_rate pm"
  "2 powi (-21)" for ip pm burst
  by (rule ip_rate_gate)

interpretation key_gate: rated_gate "\<lambda>t. check_key t t k pmo bo"
  "\<lambda>t rl. bucket_level t (key_bucket k pmo bo t rl)" "key_ok pm burst k pmo bo"
  "bucket_rate pm" "2 powi (-21)" for k pmo bo pm burst
  by (rule key_rate_gate)

end
