(* ===== verification/Rate_Limit_Claims.thy ===== *)
theory Rate_Limit_Claims
  imports Rate_Limit_Props
begin

text \<open>
  The limiter under an arbitrary interleaving of checks: events are the calls the request
  handlers make, in any order and for any addresses and keys. The first lemmas show that
  the calls for other keys do not touch a key's bucket; the properties bound what each
  tier lets through and how many address buckets are kept.
\<close>

datatype limiter_event =
    Check_Global instant
  | Check_Ip instant instant ip_addr
  | Check_Key instant str "u32 option" u32

fun limiter_step :: "limiter_event \<Rightarrow> rate_limiter \<Rightarrow> (rate_limited_error + unit) \<times> rate_limiter" where
  "limiter_step (Check_Global t) rl = check_global t rl"
| "limiter_step (Check_Ip t0 t1 ip) rl = check_ip t0 t1 ip rl"
| "limiter_step (Check_Key t k pmo bo) rl = check_key t t k pmo bo rl"

fun limiter_run :: "limiter_event list \<Rightarrow> rate_limiter \<Rightarrow> rate_limiter" where
  "limiter_run [] rl = rl"
| "limiter_run (e # es) rl = limiter_run es (snd (limiter_step e rl))"

text \<open>How many of the checks for key \<open>k\<close> are let through in a run.\<close>

fun for_key :: "str \<Rightarrow> limiter_event \<Rightarrow> bool" where
  "for_key k (Check_Key t k' pmo bo) \<longleftrightarrow> k' = k"
| "for_key k (Check_Global t) \<longleftrightarrow> False"
| "for_key k (Check_Ip t0 t1 ip) \<longleftrightarrow> False"

fun key_accepted :: "str \<Rightarrow> limiter_event list \<Rightarrow> rate_limiter \<Rightarrow> nat" where
  "key_accepted k [] rl = 0"
| "key_accepted k (e # es) rl =
     (if for_key k e \<and> fst (limiter_step e rl) = Inr () then 1 else 0)
       + key_accepted k es (snd (limiter_step e rl))"

fun key_times :: "str \<Rightarrow> limiter_event list \<Rightarrow> instant list" where
  "key_times k [] = []"
| "key_times k (Check_Key t k' pmo bo # es) = (if k' = k then t # key_times k es else key_times k es)"
| "key_times k (Check_Global t # es) = key_times k es"
| "key_times k (Check_Ip t0 t1 ip # es) = key_times k es"

lemma limiter_step_wf [wf_intros]: "limiter_wf rl \<Longrightarrow> limiter_wf (snd (limiter_step e rl))"
  by (cases e) (simp_all add: check_global_wf check_ip_wf check_key_wf)

lemma limiter_run_wf: "limiter_wf rl \<Longrightarrow> limiter_wf (limiter_run es rl)"
  by (induction es arbitrary: rl) (simp_all add: limiter_step_wf)

lemma limiter_step_params [simp]:
  "rt_key_per_min (snd (limiter_step e rl)) = rt_key_per_min rl"
  "rt_key_burst (snd (limiter_step e rl)) = rt_key_burst rl"
  "rt_ip_per_min (snd (limiter_step e rl)) = rt_ip_per_min rl"
  "lm_cap (rt_by_ip (snd (limiter_step e rl))) = lm_cap (rt_by_ip rl)"
  by (cases e; simp add: check_global_split check_ip_split check_key_split Let_def)+

lemma limiter_run_cap [simp]: "lm_cap (rt_by_ip (limiter_run es rl)) = lm_cap (rt_by_ip rl)"
  by (induction es arbitrary: rl) simp_all

lemma limiter_step_other_key:
  "\<not> for_key k e \<Longrightarrow> hm_get (rt_by_key (snd (limiter_step e rl))) k = hm_get (rt_by_key rl) k"
  by (cases e) (auto simp: frame_simps check_key_get)

lemma key_ok_cong:
  "hm_get (rt_by_key rl) k = hm_get (rt_by_key rl') k \<Longrightarrow> rt_key_per_min rl = rt_key_per_min rl' \<Longrightarrow>
   rt_key_burst rl = rt_key_burst rl' \<Longrightarrow>
     key_bucket k pmo bo t rl = key_bucket k pmo bo t rl'"
  by (simp split: option.split)

text \<open>Calls for other keys, for addresses and of the global tier are invisible to a key.\<close>

lemma key_accepted_filter:
  assumes "\<And>t pmo' bo'. Check_Key t k pmo' bo' \<in> set es \<Longrightarrow> pmo' = pmo \<and> bo' = bo"
    and "hm_get (rt_by_key rl) k = hm_get (rt_by_key rl') k"
    and "rt_key_per_min rl = rt_key_per_min rl'" "rt_key_burst rl = rt_key_burst rl'"
  shows "key_accepted k es rl = accepted (\<lambda>t. check_key t t k pmo bo) (key_times k es) rl'"
  using assms
proof (induction es arbitrary: rl rl')
  case Nil
  then show ?case by simp
next
  case (Cons e es)
  show ?case
  proof (cases "for_key k e")
    case False
    have "key_accepted k es (snd (limiter_step e rl))
        = accepted (\<lambda>t. check_key t t k pmo bo) (key_times k es) rl'"
      using Cons.prems limiter_step_other_key [OF False, of rl] by (intro Cons.IH) auto
    with False show ?thesis by (cases e) auto
  next
    case True
    then obtain t pmo' bo' where e: "e = Check_Key t k pmo' bo'" by (cases e) auto
    then have eq: "pmo' = pmo" "bo' = bo" using Cons.prems(1) by auto
    let ?n = "\<lambda>rl. snd (check_key t t k pmo bo rl)"
    have b: "key_bucket k pmo bo t rl = key_bucket k pmo bo t rl'"
      by (rule key_ok_cong [OF Cons.prems(2-4)])
    have get: "hm_get (rt_by_key (?n rl)) k = hm_get (rt_by_key (?n rl')) k"
      by (simp only: check_key_get b simp_thms if_True)
    have "key_accepted k es (?n rl)
        = accepted (\<lambda>t. check_key t t k pmo bo) (key_times k es) (?n rl')"
    proof (rule Cons.IH [OF _ get])
      show "pmo'' = pmo \<and> bo'' = bo" if "Check_Key u k pmo'' bo'' \<in> set es" for u pmo'' bo''
        using that by (intro Cons.prems(1) [of u]) simp
      show "rt_key_per_min (?n rl) = rt_key_per_min (?n rl')"
        using Cons.prems(3) by (simp add: check_key_split)
      show "rt_key_burst (?n rl) = rt_key_burst (?n rl')"
        using Cons.prems(4) by (simp add: check_key_split)
    qed
    moreover have "fst (check_key t t k pmo bo rl) = fst (check_key t t k pmo bo rl')"
      by (simp only: check_key_split b)
    ultimately show ?thesis
      by (auto simp: e eq accepted_Cons simp del: run_gate.simps split: sum.splits)
  qed
qed

subsection \<open>What a new limiter promises\<close>

abbreviation key_per_min :: "rate_limit_config \<Rightarrow> u32 option \<Rightarrow> u32" where
  "key_per_min cfg pmo \<equiv> (case pmo of Some v \<Rightarrow> v | None \<Rightarrow> rl_per_key_per_min cfg)"

abbreviation key_burst :: "rate_limit_config \<Rightarrow> u32 \<Rightarrow> u32" where
  "key_burst cfg bo \<equiv> (if bo > 0 then bo else effective_per_key_burst cfg)"

lemma limiter_new_key_bucket:
  "key_bucket k pmo bo t (limiter_new cfg t0)
     = bucket_new (key_per_min cfg pmo) (key_burst cfg bo) t"
  by (simp add: limiter_new_def split: option.split)

lemma limiter_new_key_ok:
  "key_ok (key_per_min cfg pmo) (key_burst cfg bo) k pmo bo (limiter_new cfg t0)"
  unfolding key_ok_def limiter_new_key_bucket by (simp add: bucket_new_ok)

lemma bucket_new_level: "bucket_level t (bucket_new pm burst t) = of_nat (unat burst)"
proof -
  have "tb_last_refill (bucket_new pm burst t) = t" "tb_tokens (bucket_new pm burst t) = of_nat (unat burst)"
    by (simp_all add: bucket_new_def Let_def f64_of_u32)
  then show ?thesis by (simp add: refill_same_instant [OF bucket_new_ok])
qed

lemma limiter_new_key_level:
  "bucket_level t (key_bucket k pmo bo t (limiter_new cfg t0)) = of_nat (unat (key_burst cfg bo))"
  unfolding limiter_new_key_bucket by (rule bucket_new_level)

text \<open>C14: Over any interleaving of checks on a limiter built from a configuration, in which the
  overrides of one API key stay the same (the global values where it has none; a rate of 0
  is an override, a rate of 0), the requests of this key that the key tier lets through are at most the key's burst plus
  its rate times the time between its first and last request (plus the rounding of the
  64-bit floats, below one millionth of a token for each request), whatever the checks
  for other keys, for addresses and of the global tier do in between.\<close>

theorem key_tier_rate_bound:
  assumes "\<And>t pmo' bo'. Check_Key t k pmo' bo' \<in> set es \<Longrightarrow> pmo' = pmo \<and> bo' = bo"
    and "sorted (key_times k es)" and "key_times k es \<noteq> []"
  shows "of_nat (key_accepted k es (limiter_new cfg t0))
    \<le> of_nat (unat (key_burst cfg bo))
       + bucket_rate (key_per_min cfg pmo) * of_nat (last (key_times k es) - hd (key_times k es))
       + of_nat (length (key_times k es) - 1) * 2 powi (-21)"
proof -
  let ?rl = "limiter_new cfg t0"
  obtain t ts where ts: "key_times k es = t # ts" using assms(3) by (cases "key_times k es") auto
  have "key_accepted k es ?rl = accepted (\<lambda>t. check_key t t k pmo bo) (t # ts) ?rl"
    using key_accepted_filter [OF assms(1), where rl = ?rl and rl' = ?rl] by (simp only: ts)
  then show ?thesis
    using key_gate.accepted_bound [OF limiter_new_key_ok [of cfg pmo bo k t0], of t ts] assms(2)
    by (simp only: ts limiter_new_key_level list.sel list.size add_Suc_right add_0_right One_nat_def
        diff_Suc_Suc diff_zero simp_thms)
qed

definition example_events :: "limiter_event list" where
  "example_events =
     [Check_Key 5 ''k'' None 0, Check_Global 6, Check_Key 7 ''j'' None 0, Check_Key 9 ''k'' None 0]"

theorem key_tier_rate_bound_witness:
  "of_nat (key_accepted ''k'' example_events (limiter_new default_rate_limit_config 0))
    \<le> of_nat (unat (key_burst default_rate_limit_config 0))
       + bucket_rate (key_per_min default_rate_limit_config None)
           * of_nat (last (key_times ''k'' example_events) - hd (key_times ''k'' example_events))
       + of_nat (length (key_times ''k'' example_events) - 1) * (2 powi (-21) :: rat)"
  by (rule key_tier_rate_bound) (auto simp: example_events_def)

text \<open>At one instant the global tier of a new limiter lets through exactly its
  effective burst: of \<open>n\<close> requests, the smaller of \<open>n\<close> and the burst are accepted.\<close>

theorem global_tier_burst:
  "accepted check_global (replicate n t) (limiter_new cfg t) = min n (unat (effective_global_burst cfg))"
proof -
  let ?rl = "limiter_new cfg t"
  have ok: "bucket_ok (rl_global_per_min cfg) (effective_global_burst cfg) (rt_global ?rl)"
    by (simp add: limiter_new_def bucket_new_ok)
  have "bucket_level t (rt_global ?rl) = of_nat (unat (effective_global_burst cfg))"
    by (simp add: limiter_new_def bucket_new_level)
  then show ?thesis using global_gate.accepted_at_once [OF ok, of n t] by simp
qed

text \<open>C24: In every run of a new limiter with a table size other than 0 (which stands for no
  limit) the address tier keeps at most the configured
  number of buckets, one for each address in its insertion order, and every bucket's
  tokens stay between zero and its capacity.\<close>

theorem ip_table_bounded:
  assumes "0 < rl_ip_table_size cfg"
  shows "length (lm_map (rt_by_ip (limiter_run es (limiter_new cfg t)))) \<le> unat (rl_ip_table_size cfg)
    \<and> limiter_wf (limiter_run es (limiter_new cfg t))"
proof -
  let ?rl = "limiter_run es (limiter_new cfg t)"
  have wf: "limiter_wf ?rl" by (rule limiter_run_wf [OF limiter_new_wf])
  have "lm_cap (rt_by_ip ?rl) = rl_ip_table_size cfg"
    by (simp add: limiter_new_def lru_new_def)
  with wf assms show ?thesis by (simp add: limiter_wf_def lru_wf_def)
qed

theorem ip_table_bounded_witness:
  "length (lm_map (rt_by_ip (limiter_run [Check_Ip 1 2 (V4 7), Check_Ip 3 3 (V4 8)]
      (limiter_new default_rate_limit_config 0)))) \<le> unat (rl_ip_table_size default_rate_limit_config)
    \<and> limiter_wf (limiter_run [Check_Ip 1 2 (V4 7), Check_Ip 3 3 (V4 8)]
        (limiter_new default_rate_limit_config 0))"
  by (rule ip_table_bounded) (simp add: default_rate_limit_config_def)

text \<open>A request that a tier rejects is answered with the tier's name and a wait of at
  least one second, and a rejection never takes a token: the level of the bucket is what
  refilling left.\<close>

theorem rejection_waits:
  assumes "check_key t0 t1 k pmo bo rl = (Inl e, rl')"
  shows "rle_tier e = ''key'' \<and> 1 \<le> rle_retry_after_secs e
    \<and> hm_get (rt_by_key rl') k = Some (refill t1 (key_bucket k pmo bo t0 rl))"
proof -
  have "fst (check_key t0 t1 k pmo bo rl) = Inl e" "snd (check_key t0 t1 k pmo bo rl) = rl'"
    using assms by simp_all
  then show ?thesis
    using try_consume_retry_after [of t1 "key_bucket k pmo bo t0 rl"]
    by (auto simp: check_key_split tier_result_def split: sum.splits)
       (auto simp: try_consume_def Let_def split: if_splits)
qed

text \<open>A key whose bucket is empty and has a capacity of zero.\<close>

definition empty_limiter :: rate_limiter where
  "empty_limiter = (limiter_new default_rate_limit_config 0)\<lparr>rt_by_key :=
     [(''k'', \<lparr>tb_capacity = 0, tb_tokens_per_sec = 0, tb_tokens = 0, tb_last_refill = 0\<rparr>)]\<rparr>"

lemma empty_limiter_rejects: "\<exists>e rl'. check_key 0 0 ''k'' None 0 empty_limiter = (Inl e, rl')"
  by (simp add: check_key_def empty_limiter_def try_consume_def refill_def tier_result_def Let_def
      min_def)

theorem rejection_waits_witness:
  "\<exists>e rl'. check_key 0 0 ''k'' None 0 empty_limiter = (Inl e, rl') \<and> 1 \<le> rle_retry_after_secs e"
  using empty_limiter_rejects rejection_waits by blast

end
