(* ===== verification/Status.thy ===== *)
theory Status
  imports Errors Metrics Config Externals "HOL-Library.List_Lexorder" "HOL-Library.Char_ord"
begin

text \<open>
  \<open>status.rs\<close>: the submission record and its life cycle, the interface of a status store,
  and the recipient domains kept in a record. A \<open>DateTime<Utc>\<close> is its number of
  nanoseconds since the epoch; a function that reads the clock several times takes the
  readings as \<open>clk 0\<close>, \<open>clk 1\<close> and so on, so that nothing is assumed on how much time
  passes between two readings.
\<close>

type_synonym time = int
type_synonym clock = "nat \<Rightarrow> time"
type_synonym request_id = str
type_synonym domain = str

subsection \<open>Domains\<close>

definition domain_from_address :: "externals \<Rightarrow> str \<Rightarrow> domain option" where
  "domain_from_address X email = map_option (x_to_lowercase X) (after_last (CHR ''@'') email)"

text \<open>\<open>recipient_domains_from\<close> collects the domains in a \<open>BTreeSet\<close>: the result is sorted by
  bytes and has no duplicates.\<close>

definition recipient_domains_from :: "externals \<Rightarrow> str list \<Rightarrow> str list \<Rightarrow> domain list" where
  "recipient_domains_from X to cc =
     foldl (\<lambda>s addr. case domain_from_address X addr of
                        Some d \<Rightarrow> insort_insert d s | None \<Rightarrow> s) [] (to @ cc)"

subsection \<open>Status and record\<close>

datatype submission_status =
    Received
  | Rejected
  | SmtpSubmissionStarted
  | SmtpAccepted
  | SmtpFailed

fun is_terminal :: "submission_status \<Rightarrow> bool" where
  "is_terminal Rejected \<longleftrightarrow> True"
| "is_terminal SmtpAccepted \<longleftrightarrow> True"
| "is_terminal SmtpFailed \<longleftrightarrow> True"
| "is_terminal Received \<longleftrightarrow> False"
| "is_terminal SmtpSubmissionStarted \<longleftrightarrow> False"

text \<open>The \<open>snake_case\<close> names of the serialised status.\<close>

fun status_str :: "submission_status \<Rightarrow> str" where
  "status_str Received = ''received''"
| "status_str Rejected = ''rejected''"
| "status_str SmtpSubmissionStarted = ''smtp_submission_started''"
| "status_str SmtpAccepted = ''smtp_accepted''"
| "status_str SmtpFailed = ''smtp_failed''"

record status_record =
  sr_request_id :: request_id
  sr_key_id :: str
  sr_status :: submission_status
  sr_code :: "error_code option"
  sr_message :: "str option"
  sr_recipient_domains :: "domain list"
  sr_recipient_count :: u32
  sr_created_at :: time
  sr_updated_at :: time
  sr_expires_at :: time

text \<open>
  The time to live is cast from \<open>u64\<close> to \<open>i64\<close>, so that a value of \<open>2 ^ 63\<close> and more is
  negative. (A sum that leaves the range of \<open>chrono\<close> aborts the process; the model goes
  on with unbounded integers.)
\<close>

definition ttl_nanos :: "u64 \<Rightarrow> int" where
  "ttl_nanos ttl_seconds = sint ttl_seconds * 1000000000"

definition new_received :: "time \<Rightarrow> request_id \<Rightarrow> str \<Rightarrow> u64 \<Rightarrow> status_record" where
  "new_received now request_id key_id ttl_seconds =
     \<lparr>sr_request_id = request_id, sr_key_id = key_id, sr_status = Received, sr_code = None,
      sr_message = Some ''Submission received.'', sr_recipient_domains = [],
      sr_recipient_count = 0, sr_created_at = now, sr_updated_at = now,
      sr_expires_at = now + ttl_nanos ttl_seconds\<rparr>"

definition is_expired :: "time \<Rightarrow> status_record \<Rightarrow> bool" where
  "is_expired now r \<longleftrightarrow> now > sr_expires_at r"

record status_update =
  su_status :: submission_status
  su_code :: "error_code option"
  su_message :: "str option"

datatype status_store_error =
    BackendUnavailable str
  | Corrupted str

fun store_error_display :: "status_store_error \<Rightarrow> str" where
  "store_error_display (BackendUnavailable e) = ''status store backend unavailable: '' @ e"
| "store_error_display (Corrupted e) = ''status store data corrupted: '' @ e"

subsection \<open>The \<open>StatusStore\<close> trait\<close>

text \<open>
  A store is a record of its operations on its own state and on the metrics it shares
  with the server; the handlers take it as an argument, as the program does with
  \<open>Arc<dyn StatusStore>\<close>.
\<close>

record 's status_ops =
  so_put_received :: "status_record \<Rightarrow> 's \<times> metrics \<Rightarrow> (status_store_error + unit) \<times> 's \<times> metrics"
  so_set_recipient_metadata ::
    "clock \<Rightarrow> request_id \<Rightarrow> str \<Rightarrow> domain list \<Rightarrow> u32 \<Rightarrow> 's \<times> metrics \<Rightarrow>
       (status_store_error + unit) \<times> 's \<times> metrics"
  so_update_status ::
    "clock \<Rightarrow> request_id \<Rightarrow> str \<Rightarrow> status_update \<Rightarrow> 's \<times> metrics \<Rightarrow>
       (status_store_error + unit) \<times> 's \<times> metrics"
  so_get ::
    "clock \<Rightarrow> request_id \<Rightarrow> str \<Rightarrow> 's \<times> metrics \<Rightarrow>
       (status_store_error + status_record option) \<times> 's \<times> metrics"
  so_expire_old_records :: "clock \<Rightarrow> 's \<times> metrics \<Rightarrow> 's \<times> metrics"
  so_record_count :: "'s \<times> metrics \<Rightarrow> nat \<times> 's \<times> metrics"
  so_reload_config :: "status_config \<Rightarrow> 's \<times> metrics \<Rightarrow> 's \<times> metrics"

subsection \<open>What may happen to a record\<close>

text \<open>
  The life cycle every store refines: a record is removed, or keeps its identity, and once
  its status is terminal the status, code and message never change.
\<close>

definition same_identity :: "status_record \<Rightarrow> status_record \<Rightarrow> bool" where
  "same_identity r r' \<longleftrightarrow>
     sr_request_id r' = sr_request_id r \<and> sr_key_id r' = sr_key_id r
     \<and> sr_created_at r' = sr_created_at r \<and> sr_expires_at r' = sr_expires_at r"

definition same_outcome :: "status_record \<Rightarrow> status_record \<Rightarrow> bool" where
  "same_outcome r r' \<longleftrightarrow>
     sr_status r' = sr_status r \<and> sr_code r' = sr_code r \<and> sr_message r' = sr_message r"

definition evolves :: "status_record option \<Rightarrow> status_record option \<Rightarrow> bool" where
  "evolves a b \<longleftrightarrow>
     (case b of
        None \<Rightarrow> True
      | Some r' \<Rightarrow>
          (case a of
             None \<Rightarrow> False
           | Some r \<Rightarrow> same_identity r r' \<and> (is_terminal (sr_status r) \<longrightarrow> same_outcome r r')))"

lemma evolves_refl [simp]: "evolves a a"
  by (auto simp: evolves_def same_identity_def same_outcome_def split: option.split)

lemma evolves_None [simp]: "evolves a None"
  by (simp add: evolves_def)

lemma evolves_trans: "evolves a b \<Longrightarrow> evolves b c \<Longrightarrow> evolves a c"
  by (auto simp: evolves_def same_identity_def same_outcome_def split: option.splits)

lemma evolves_Some_iff:
  "evolves a (Some r') \<longleftrightarrow>
     (\<exists>r. a = Some r \<and> same_identity r r' \<and> (is_terminal (sr_status r) \<longrightarrow> same_outcome r r'))"
  by (simp add: evolves_def split: option.split)

lemma status_str_inj [simp]: "status_str a = status_str b \<longleftrightarrow> a = b"
  by (cases a; cases b) simp_all

subsection \<open>Recipient domains\<close>

lemma recipient_domains_foldl:
  "sorted s \<Longrightarrow> distinct s \<Longrightarrow>
     sorted (foldl (\<lambda>s addr. case domain_from_address X addr of
                        Some d \<Rightarrow> insort_insert d s | None \<Rightarrow> s) s as)
     \<and> distinct (foldl (\<lambda>s addr. case domain_from_address X addr of
                        Some d \<Rightarrow> insort_insert d s | None \<Rightarrow> s) s as)
     \<and> set (foldl (\<lambda>s addr. case domain_from_address X addr of
                        Some d \<Rightarrow> insort_insert d s | None \<Rightarrow> s) s as)
         = set s \<union> {d. \<exists>a\<in>set as. domain_from_address X a = Some d}"
proof (induction as arbitrary: s)
  case Nil
  then show ?case by simp
next
  case (Cons a as)
  then show ?case
    by (cases "domain_from_address X a")
       (auto simp: sorted_insort_insert distinct_insort_insert set_insort_insert)
qed

lemma recipient_domains_from_spec:
  "sorted (recipient_domains_from X to cc)" "distinct (recipient_domains_from X to cc)"
  "set (recipient_domains_from X to cc)
     = {d. \<exists>a\<in>set to \<union> set cc. domain_from_address X a = Some d}"
  using recipient_domains_foldl [of "[]" X "to @ cc"]
  by (auto simp: recipient_domains_from_def)

end
