(* ===== verification/Status_Contract.thy ===== *)
theory Status_Contract
  imports Status
begin

text \<open>
  The contract of the status store. The calls of the trait are the labels of a store
  automaton; \<open>status_store\<close> states what any backend promises of every call, and
  \<open>tracking_store\<close> adds what the request handlers need to know when no record is evicted
  under them. \<open>view\<close> is the record a backend holds for an id, \<open>ok\<close> its invariant, and
  \<open>valid\<close> the calls it is made for (a backend that keeps times as text covers the years
  the text can express). The client lemmas are about arbitrary sequences of calls, so they cover
  every interleaving of handlers, status queries and the cleanup task.
\<close>

datatype store_op =
    Put_Received status_record
  | Set_Metadata clock request_id str "domain list" u32
  | Update_Status clock request_id str status_update
  | Get_Status clock request_id str
  | Expire_Old clock
  | Record_Count
  | Reload status_config

fun apply_op :: "'s status_ops \<Rightarrow> store_op \<Rightarrow> 's \<times> metrics \<Rightarrow> 's \<times> metrics" where
  "apply_op ops (Put_Received r) x = snd (so_put_received ops r x)"
| "apply_op ops (Set_Metadata clk i k ds n) x = snd (so_set_recipient_metadata ops clk i k ds n x)"
| "apply_op ops (Update_Status clk i k u) x = snd (so_update_status ops clk i k u x)"
| "apply_op ops (Get_Status clk i k) x = snd (so_get ops clk i k x)"
| "apply_op ops (Expire_Old clk) x = so_expire_old_records ops clk x"
| "apply_op ops Record_Count x = snd (so_record_count ops x)"
| "apply_op ops (Reload c) x = so_reload_config ops c x"

definition run_ops :: "'s status_ops \<Rightarrow> store_op list \<Rightarrow> 's \<times> metrics \<Rightarrow> 's \<times> metrics" where
  "run_ops ops os x = fold (apply_op ops) os x"

lemma run_ops_simps [simp]:
  "run_ops ops [] x = x"
  "run_ops ops (op # os) x = run_ops ops os (apply_op ops op x)"
  by (simp_all add: run_ops_def)

text \<open>The record a call may create, and the record and key a call may change.\<close>

fun creates :: "store_op \<Rightarrow> request_id \<Rightarrow> bool" where
  "creates (Put_Received r) i \<longleftrightarrow> sr_request_id r = i"
| "creates (Set_Metadata clk j k ds n) i \<longleftrightarrow> False"
| "creates (Update_Status clk j k u) i \<longleftrightarrow> False"
| "creates (Get_Status clk j k) i \<longleftrightarrow> False"
| "creates (Expire_Old clk) i \<longleftrightarrow> False"
| "creates Record_Count i \<longleftrightarrow> False"
| "creates (Reload c) i \<longleftrightarrow> False"

fun writes :: "store_op \<Rightarrow> request_id \<Rightarrow> str \<Rightarrow> bool" where
  "writes (Set_Metadata clk j k' ds n) i k \<longleftrightarrow> i = j \<and> k = k'"
| "writes (Update_Status clk j k' u) i k \<longleftrightarrow> i = j \<and> k = k'"
| "writes (Put_Received r) i k \<longleftrightarrow> False"
| "writes (Get_Status clk j k') i k \<longleftrightarrow> False"
| "writes (Expire_Old clk) i k \<longleftrightarrow> False"
| "writes Record_Count i k \<longleftrightarrow> False"
| "writes (Reload c) i k \<longleftrightarrow> False"

text \<open>RFC 3339 writes the years 0 to 9999 with four digits: the times it can express.\<close>

definition time_ok :: "time \<Rightarrow> bool" where
  "time_ok t \<longleftrightarrow> -62167219200000000000 \<le> t \<and> t < 253402300800000000000"

locale status_store =
  fixes ops :: "'s status_ops"
    and view :: "'s \<Rightarrow> request_id \<Rightarrow> status_record option"
    and ok :: "'s \<Rightarrow> bool"
    and valid :: "store_op \<Rightarrow> bool"
  assumes ok_step: "ok (fst x) \<Longrightarrow> valid op \<Longrightarrow> ok (fst (apply_op ops op x))"
    and view_id: "ok s \<Longrightarrow> view s i = Some r \<Longrightarrow> sr_request_id r = i"
    and evolves_step:
      "ok (fst x) \<Longrightarrow> valid op \<Longrightarrow> \<not> creates op i \<Longrightarrow> evolves (view (fst x) i) (view (fst (apply_op ops op x)) i)"
    and foreign_step:
      "ok (fst x) \<Longrightarrow> valid op \<Longrightarrow> \<not> creates op i \<Longrightarrow> view (fst x) i = Some r \<Longrightarrow>
         \<not> writes op i (sr_key_id r) \<Longrightarrow>
         view (fst (apply_op ops op x)) i \<in> {Some r, None}"
    and get_sound:
      "ok (fst x) \<Longrightarrow> valid (Get_Status clk i k) \<Longrightarrow> fst (so_get ops clk i k x) = Inr (Some r) \<Longrightarrow>
         view (fst x) i = Some r \<and> sr_key_id r = k \<and> \<not> is_expired (clk 0) r"
begin

lemma ok_run: "ok (fst x) \<Longrightarrow> (\<And>op. op \<in> set os \<Longrightarrow> valid op) \<Longrightarrow> ok (fst (run_ops ops os x))"
  by (induction os arbitrary: x) (simp_all add: ok_step)

lemma run_evolves:
  "ok (fst x) \<Longrightarrow> (\<And>op. op \<in> set os \<Longrightarrow> valid op \<and> \<not> creates op i) \<Longrightarrow>
     evolves (view (fst x) i) (view (fst (run_ops ops os x)) i)"
proof (induction os arbitrary: x)
  case Nil
  then show ?case by simp
next
  case (Cons op os)
  have "evolves (view (fst x) i) (view (fst (apply_op ops op x)) i)"
    using Cons.prems by (intro evolves_step) auto
  moreover have "evolves (view (fst (apply_op ops op x)) i)
      (view (fst (run_ops ops os (apply_op ops op x))) i)"
    using Cons.prems by (intro Cons.IH ok_step) auto
  ultimately show ?case by (simp add: evolves_trans)
qed

text \<open>A terminal status is final: whatever calls follow, the record is gone or unchanged.\<close>

lemma terminal_is_final:
  assumes "ok (fst x)" and "\<And>op. op \<in> set os \<Longrightarrow> valid op \<and> \<not> creates op i"
    and "view (fst x) i = Some r" and "is_terminal (sr_status r)"
  shows "view (fst (run_ops ops os x)) i = None
    \<or> (\<exists>r'. view (fst (run_ops ops os x)) i = Some r' \<and> same_identity r r' \<and> same_outcome r r')"
proof -
  have "evolves (view (fst x) i) (view (fst (run_ops ops os x)) i)"
    by (rule run_evolves [OF assms(1,2)])
  with assms(3,4) show ?thesis
    by (cases "view (fst (run_ops ops os x)) i") (auto simp: evolves_Some_iff)
qed

text \<open>Calls made with other keys, and for other requests, never change a record.\<close>

lemma foreign_calls_keep:
  "ok (fst x) \<Longrightarrow> (\<And>op. op \<in> set os \<Longrightarrow> valid op \<and> \<not> creates op i \<and> \<not> writes op i (sr_key_id r)) \<Longrightarrow>
     view (fst x) i \<in> {Some r, None} \<Longrightarrow> view (fst (run_ops ops os x)) i \<in> {Some r, None}"
proof (induction os arbitrary: x)
  case Nil
  then show ?case by simp
next
  case (Cons op os)
  have op: "valid op" "\<not> creates op i" "\<not> writes op i (sr_key_id r)" using Cons.prems(2) by auto
  have "view (fst (apply_op ops op x)) i \<in> {Some r, None}"
  proof (cases "view (fst x) i")
    case None
    then show ?thesis
      using evolves_step [OF Cons.prems(1) op(1,2)]
      by (cases "view (fst (apply_op ops op x)) i") (auto simp: evolves_Some_iff)
  next
    case (Some r')
    with Cons.prems(3) have "view (fst x) i = Some r" by simp
    from foreign_step [OF Cons.prems(1) op(1,2) this op(3)] show ?thesis .
  qed
  with Cons.prems show ?case by (simp only: run_ops_simps) (intro Cons.IH ok_step, auto)
qed

text \<open>A query returns a record only to the key that owns it.\<close>

lemma get_after_run:
  assumes "ok (fst x)" and "\<And>op. op \<in> set os \<Longrightarrow> valid op \<and> \<not> creates op i"
    and "view (fst x) i = Some r" and "fst (so_get ops clk i k (run_ops ops os x)) = Inr (Some r')"
    and "valid (Get_Status clk i k)"
  shows "k = sr_key_id r \<and> same_identity r r' \<and> (is_terminal (sr_status r) \<longrightarrow> same_outcome r r')"
proof -
  have "view (fst (run_ops ops os x)) i = Some r'" "sr_key_id r' = k"
    using get_sound [OF ok_run [OF assms(1)] assms(5,4)] assms(2) by simp_all
  moreover have "evolves (Some r) (view (fst (run_ops ops os x)) i)"
    using run_evolves [OF assms(1,2)] assms(3) by simp
  ultimately show ?thesis by (auto simp: evolves_Some_iff same_identity_def)
qed

end

locale tracking_store = status_store +
  assumes put_fresh:
      "ok (fst x) \<Longrightarrow> valid (Put_Received r) \<Longrightarrow> view (fst x) (sr_request_id r) = None \<Longrightarrow>
         view (fst (apply_op ops (Put_Received r) x)) (sr_request_id r) = Some r"
    and update_applies:
      "ok (fst x) \<Longrightarrow> view (fst x) i = Some r \<Longrightarrow> \<not> is_terminal (sr_status r) \<Longrightarrow>
         clk 0 < sr_expires_at r \<Longrightarrow> valid (Update_Status clk i (sr_key_id r) u) \<Longrightarrow>
         \<exists>r'. view (fst (apply_op ops (Update_Status clk i (sr_key_id r) u) x)) i = Some r'
            \<and> same_identity r r' \<and> sr_status r' = su_status u \<and> sr_code r' = su_code u"
    and metadata_keeps:
      "ok (fst x) \<Longrightarrow> view (fst x) i = Some r \<Longrightarrow> valid (Set_Metadata clk i (sr_key_id r) ds n) \<Longrightarrow>
         \<exists>r'. view (fst (apply_op ops (Set_Metadata clk i (sr_key_id r) ds n) x)) i = Some r'
            \<and> same_identity r r' \<and> same_outcome r r'"

end
