(* ===== verification/Status_Memory.thy ===== *)
theory Status_Memory
  imports Status_Contract Hash_Map
begin

text \<open>
  \<open>status_memory.rs\<close>: the in-memory store, a hash map from request ids to records behind
  a lock, and the store that does nothing. Each definition is the body of a method under
  its lock. The order in which the map is iterated is the argument \<open>it\<close>, a function that
  permutes the entries.
\<close>

subsection \<open>State\<close>

record memory_store =
  ms_records :: "(request_id, status_record) hash_map"
  ms_config :: status_config
  ms_expired_total :: u64

type_synonym map_order =
  "(request_id \<times> status_record) list \<Rightarrow> (request_id \<times> status_record) list"

definition memory_new :: "status_config \<Rightarrow> memory_store" where
  "memory_new config = \<lparr>ms_records = [], ms_config = config, ms_expired_total = 0\<rparr>"

definition expired_total :: "memory_store \<Rightarrow> u64" where
  "expired_total s = ms_expired_total s"

text \<open>\<open>Iterator::min_by_key\<close>: the first of the smallest elements.\<close>

definition min_by_key :: "('a \<Rightarrow> int) \<Rightarrow> 'a list \<Rightarrow> 'a option" where
  "min_by_key f xs =
     (case xs of [] \<Rightarrow> None
      | x # rest \<Rightarrow> Some (foldl (\<lambda>m y. if f y < f m then y else m) x rest))"

subsection \<open>Operations\<close>

definition memory_evict_oldest :: "map_order \<Rightarrow> memory_store \<Rightarrow> (request_id, status_record) hash_map" where
  "memory_evict_oldest it s =
     (if length (ms_records s) \<ge> unat (sc_max_records (ms_config s))
      then (case min_by_key (\<lambda>(k, r). sr_created_at r) (it (ms_records s)) of
              Some (k, r) \<Rightarrow> hm_remove k (ms_records s)
            | None \<Rightarrow> ms_records s)
      else ms_records s)"

definition memory_put_received ::
  "map_order \<Rightarrow> status_record \<Rightarrow> memory_store \<times> metrics \<Rightarrow>
     (status_store_error + unit) \<times> memory_store \<times> metrics" where
  "memory_put_received it record x =
     (case x of (s, m) \<Rightarrow>
        if hm_contains (ms_records s) (sr_request_id record) then (Inr (), s, m)
        else (Inr (),
              s\<lparr>ms_records := hm_insert (sr_request_id record) record (memory_evict_oldest it s)\<rparr>,
              status_record_created m))"

definition memory_set_recipient_metadata ::
  "clock \<Rightarrow> request_id \<Rightarrow> str \<Rightarrow> domain list \<Rightarrow> u32 \<Rightarrow> memory_store \<times> metrics \<Rightarrow>
     (status_store_error + unit) \<times> memory_store \<times> metrics" where
  "memory_set_recipient_metadata clk request_id key_id domains count x =
     (case x of (s, m) \<Rightarrow>
        (case hm_get (ms_records s) request_id of
           None \<Rightarrow> (Inr (), s, m)
         | Some record \<Rightarrow>
             if sr_key_id record = key_id \<and> \<not> is_expired (clk 0) record
             then (Inr (),
                   s\<lparr>ms_records := hm_insert request_id
                       (record\<lparr>sr_recipient_domains := domains, sr_recipient_count := count,
                               sr_updated_at := clk 1\<rparr>) (ms_records s)\<rparr>, m)
             else (Inr (), s, m)))"

definition memory_update_status ::
  "clock \<Rightarrow> request_id \<Rightarrow> str \<Rightarrow> status_update \<Rightarrow> memory_store \<times> metrics \<Rightarrow>
     (status_store_error + unit) \<times> memory_store \<times> metrics" where
  "memory_update_status clk request_id key_id update x =
     (case x of (s, m) \<Rightarrow>
        (case hm_get (ms_records s) request_id of
           None \<Rightarrow> (Inr (), s, m)
         | Some record \<Rightarrow>
             if sr_key_id record \<noteq> key_id \<or> is_expired (clk 0) record
                \<or> is_terminal (sr_status record)
             then (Inr (), s, m)
             else
               (let record' = record\<lparr>sr_status := su_status update, sr_code := su_code update,
                      sr_message := (if su_message update \<noteq> None then su_message update
                                     else sr_message record),
                      sr_updated_at := clk 1\<rparr>
                in (Inr (), s\<lparr>ms_records := hm_insert request_id record' (ms_records s)\<rparr>,
                    status_transitioned (status_str (sr_status record'))
                      (case sr_code record' of Some c \<Rightarrow> code_as_str c | None \<Rightarrow> ''none'') m))))"

text \<open>
  \<open>get\<close> looks under the read lock first; \<open>None\<close> means that the record has expired and the
  method goes on under the write lock, where it looks again.
\<close>

definition memory_get_read ::
  "time \<Rightarrow> request_id \<Rightarrow> str \<Rightarrow> memory_store \<Rightarrow> status_record option option" where
  "memory_get_read now request_id key_id s =
     (case hm_get (ms_records s) request_id of
        None \<Rightarrow> Some None
      | Some record \<Rightarrow>
          if sr_key_id record \<noteq> key_id then Some None
          else if \<not> is_expired now record then Some (Some record)
          else None)"

definition memory_get_expire ::
  "time \<Rightarrow> request_id \<Rightarrow> memory_store \<times> metrics \<Rightarrow> memory_store \<times> metrics" where
  "memory_get_expire now request_id x =
     (case x of (s, m) \<Rightarrow>
        (case hm_get (ms_records s) request_id of
           None \<Rightarrow> (s, m)
         | Some record \<Rightarrow>
             if is_expired now record
             then (s\<lparr>ms_records := hm_remove request_id (ms_records s),
                     ms_expired_total := ms_expired_total s + 1\<rparr>,
                   status_record_expired_one m)
             else (s, m)))"

definition memory_get ::
  "clock \<Rightarrow> request_id \<Rightarrow> str \<Rightarrow> memory_store \<times> metrics \<Rightarrow>
     (status_store_error + status_record option) \<times> memory_store \<times> metrics" where
  "memory_get clk request_id key_id x =
     (case memory_get_read (clk 0) request_id key_id (fst x) of
        Some result \<Rightarrow> (Inr result, x)
      | None \<Rightarrow> (Inr None, memory_get_expire (clk 1) request_id x))"

text \<open>The second step of the cleanup evicts the oldest records beyond the limit.\<close>

definition memory_evict_excess ::
  "map_order \<Rightarrow> usize \<Rightarrow> (request_id, status_record) hash_map \<Rightarrow> (request_id, status_record) hash_map" where
  "memory_evict_excess it max_records recs =
     (if length recs > unat max_records
      then (let excess = length recs - unat max_records;
                keys_by_age = sort_key snd (List.map (\<lambda>(k, r). (k, sr_created_at r)) (it recs))
            in foldl (\<lambda>m kt. hm_remove (fst kt) m) recs (take excess keys_by_age))
      else recs)"

definition memory_expire_old_records ::
  "map_order \<Rightarrow> clock \<Rightarrow> memory_store \<times> metrics \<Rightarrow> memory_store \<times> metrics" where
  "memory_expire_old_records it clk x =
     (case x of (s, m) \<Rightarrow>
        (let before = length (ms_records s);
             map1 = hm_retain (\<lambda>_ r. sr_expires_at r > clk 0) (ms_records s);
             removed = before - length map1;
             total = (if removed > 0 then ms_expired_total s + of_nat removed
                      else ms_expired_total s);
             m' = (if removed > 0 then status_records_expired removed m else m)
         in (s\<lparr>ms_records := memory_evict_excess it (sc_max_records (ms_config s)) map1,
               ms_expired_total := total\<rparr>, m')))"

definition memory_record_count :: "memory_store \<times> metrics \<Rightarrow> nat \<times> memory_store \<times> metrics" where
  "memory_record_count x =
     (case x of (s, m) \<Rightarrow>
        (length (ms_records s), s, status_set_current (length (ms_records s)) m))"

definition memory_reload_config ::
  "status_config \<Rightarrow> memory_store \<times> metrics \<Rightarrow> memory_store \<times> metrics" where
  "memory_reload_config config x = (case x of (s, m) \<Rightarrow> (s\<lparr>ms_config := config\<rparr>, m))"

definition memory_ops :: "map_order \<Rightarrow> memory_store status_ops" where
  "memory_ops it =
     \<lparr>so_put_received = memory_put_received it,
      so_set_recipient_metadata = memory_set_recipient_metadata,
      so_update_status = memory_update_status,
      so_get = memory_get,
      so_expire_old_records = memory_expire_old_records it,
      so_record_count = memory_record_count,
      so_reload_config = memory_reload_config\<rparr>"

subsection \<open>The store that does nothing\<close>

definition noop_ops :: "unit status_ops" where
  "noop_ops =
     \<lparr>so_put_received = (\<lambda>_ x. (Inr (), x)),
      so_set_recipient_metadata = (\<lambda>_ _ _ _ _ x. (Inr (), x)),
      so_update_status = (\<lambda>_ _ _ _ x. (Inr (), x)),
      so_get = (\<lambda>_ _ _ x. (Inr None, x)),
      so_expire_old_records = (\<lambda>_ x. x),
      so_record_count = (\<lambda>x. (0, x)),
      so_reload_config = (\<lambda>_ x. x)\<rparr>"

end
