(* ===== verification/Status_Memory_Props.thy ===== *)
theory Status_Memory_Props
  imports Status_Memory "HOL-Library.Multiset"
begin

text \<open>
  The in-memory store keeps its invariant (one entry for each request id, under the id of
  its record) and refines the store contract, whatever the iteration order of the map.
  The rest is about its size: the map stays within its limit, and the oldest record goes.
\<close>

definition memory_ok :: "memory_store \<Rightarrow> bool" where
  "memory_ok s \<longleftrightarrow>
     hm_wf (ms_records s) \<and> (\<forall>i r. hm_get (ms_records s) i = Some r \<longrightarrow> sr_request_id r = i)"

text \<open>An iteration order lists the entries of the map, each once.\<close>

definition permutes :: "map_order \<Rightarrow> bool" where
  "permutes it \<longleftrightarrow> (\<forall>xs. mset (it xs) = mset xs)"

lemma permutes_set: "permutes it \<Longrightarrow> set (it xs) = set xs"
  by (metis permutes_def mset_eq_setD)

lemma permutes_length: "permutes it \<Longrightarrow> length (it xs) = length xs"
  by (metis permutes_def mset_eq_length)

lemma permutes_id [simp]: "permutes (\<lambda>xs. xs)"
  by (simp add: permutes_def)

subsection \<open>The oldest record\<close>

lemma min_fold:
  fixes f :: "'a \<Rightarrow> int"
  shows "foldl (\<lambda>m y. if f y < f m then y else m) x xs \<in> insert x (set xs)
    \<and> (\<forall>y \<in> insert x (set xs). f (foldl (\<lambda>m y. if f y < f m then y else m) x xs) \<le> f y)"
proof (induction xs arbitrary: x)
  case Nil
  then show ?case by simp
next
  case (Cons a xs)
  show ?case
    using Cons [of "if f a < f x then a else x"] by (auto split: if_splits)
qed

lemma min_by_key_Some:
  "min_by_key f xs = Some x \<Longrightarrow> x \<in> set xs \<and> (\<forall>y\<in>set xs. f x \<le> f y)"
  using min_fold [of f "hd xs" "tl xs"]
  by (cases xs) (auto simp: min_by_key_def)

lemma min_by_key_None [simp]: "min_by_key f xs = None \<longleftrightarrow> xs = []"
  by (simp add: min_by_key_def split: list.split)

subsection \<open>Eviction keeps the rest\<close>

lemma evict_oldest_disj:
  "memory_evict_oldest it s = ms_records s
   \<or> (\<exists>k. memory_evict_oldest it s = hm_remove k (ms_records s))"
  by (auto simp: memory_evict_oldest_def split: option.split)

lemma evict_oldest_cases:
  obtains "memory_evict_oldest it s = ms_records s"
    | k where "memory_evict_oldest it s = hm_remove k (ms_records s)"
  using evict_oldest_disj [of it s] by blast

lemma evict_oldest_wf: "hm_wf (ms_records s) \<Longrightarrow> hm_wf (memory_evict_oldest it s)"
  by (cases rule: evict_oldest_cases [of it s]) simp_all

lemma evict_oldest_get:
  "hm_get (memory_evict_oldest it s) i = hm_get (ms_records s) i
   \<or> hm_get (memory_evict_oldest it s) i = None"
  by (cases rule: evict_oldest_cases [of it s]) simp_all

lemma foldl_remove_wf: "hm_wf m \<Longrightarrow> hm_wf (foldl (\<lambda>m kt. hm_remove (fst kt) m) m kts)"
  by (induction kts arbitrary: m) simp_all

lemma foldl_remove_get:
  "hm_get (foldl (\<lambda>m kt. hm_remove (fst kt) m) m kts) i
     = (if i \<in> fst ` set kts then None else hm_get m i)"
  by (induction kts arbitrary: m) auto

lemma evict_excess_wf: "hm_wf m \<Longrightarrow> hm_wf (memory_evict_excess it mx m)"
  by (simp add: memory_evict_excess_def Let_def foldl_remove_wf)

lemma evict_excess_get:
  "hm_get (memory_evict_excess it mx m) i = hm_get m i
   \<or> hm_get (memory_evict_excess it mx m) i = None"
  by (simp add: memory_evict_excess_def Let_def foldl_remove_get)

subsection \<open>Effect of each operation on the records\<close>

definition kept :: "memory_store \<Rightarrow> memory_store \<Rightarrow> request_id \<Rightarrow> bool" where
  "kept s s' i \<longleftrightarrow>
     hm_get (ms_records s') i = hm_get (ms_records s) i \<or> hm_get (ms_records s') i = None"

lemma kept_refl [simp]: "kept s s i"
  by (simp add: kept_def)

lemma kept_evolves: "kept s s' i \<Longrightarrow> evolves (hm_get (ms_records s) i) (hm_get (ms_records s') i)"
  by (auto simp: kept_def)

lemma put_received_records:
  "fst (snd (memory_put_received it r (s, m))) =
     (if hm_contains (ms_records s) (sr_request_id r) then s
      else s\<lparr>ms_records := hm_insert (sr_request_id r) r (memory_evict_oldest it s)\<rparr>)"
  by (simp add: memory_put_received_def)

lemma put_received_kept:
  "i \<noteq> sr_request_id r \<Longrightarrow> kept s (fst (snd (memory_put_received it r (s, m)))) i"
  using evict_oldest_get [of it s i] by (auto simp: put_received_records kept_def)

lemma get_kept: "kept s (fst (snd (memory_get clk j k (s, m)))) i"
  by (auto simp: memory_get_def memory_get_expire_def kept_def split: option.splits)

lemma expire_kept:
  assumes "hm_wf (ms_records s)"
  shows "kept s (fst (memory_expire_old_records it clk (s, m))) i"
  using evict_excess_get [of it "sc_max_records (ms_config s)"
      "hm_retain (\<lambda>_ r. sr_expires_at r > clk 0) (ms_records s)" i]
  by (auto simp: memory_expire_old_records_def Let_def kept_def hm_get_retain [OF assms]
      split: option.splits if_splits)

lemma set_metadata_get:
  "hm_get (ms_records (fst (snd (memory_set_recipient_metadata clk j k ds n (s, m))))) i =
     (case hm_get (ms_records s) i of
        Some r \<Rightarrow> if i = j \<and> sr_key_id r = k \<and> \<not> is_expired (clk 0) r
                  then Some (r\<lparr>sr_recipient_domains := ds, sr_recipient_count := n,
                               sr_updated_at := clk 1\<rparr>)
                  else Some r
      | None \<Rightarrow> None)"
  by (auto simp: memory_set_recipient_metadata_def split: option.split)

definition updated_record :: "status_update \<Rightarrow> time \<Rightarrow> status_record \<Rightarrow> status_record" where
  "updated_record u now r =
     r\<lparr>sr_status := su_status u, sr_code := su_code u,
       sr_message := (if su_message u \<noteq> None then su_message u else sr_message r),
       sr_updated_at := now\<rparr>"

lemma update_status_get:
  "hm_get (ms_records (fst (snd (memory_update_status clk j k u (s, m))))) i =
     (case hm_get (ms_records s) i of
        Some r \<Rightarrow> if i = j \<and> sr_key_id r = k \<and> \<not> is_expired (clk 0) r \<and> \<not> is_terminal (sr_status r)
                  then Some (updated_record u (clk 1) r) else Some r
      | None \<Rightarrow> None)"
  by (auto simp: memory_update_status_def Let_def updated_record_def split: option.split)

lemma updated_record_identity [simp]: "same_identity r (updated_record u now r)"
  by (simp add: same_identity_def updated_record_def)

lemma metadata_identity [simp]:
  "same_identity r (r\<lparr>sr_recipient_domains := ds, sr_recipient_count := n, sr_updated_at := t\<rparr>)"
  "same_outcome r (r\<lparr>sr_recipient_domains := ds, sr_recipient_count := n, sr_updated_at := t\<rparr>)"
  by (simp_all add: same_identity_def same_outcome_def)

lemma memory_ops_simps [simp]:
  "so_put_received (memory_ops it) = memory_put_received it"
  "so_set_recipient_metadata (memory_ops it) = memory_set_recipient_metadata"
  "so_update_status (memory_ops it) = memory_update_status"
  "so_get (memory_ops it) = memory_get"
  "so_expire_old_records (memory_ops it) = memory_expire_old_records it"
  "so_record_count (memory_ops it) = memory_record_count"
  "so_reload_config (memory_ops it) = memory_reload_config"
  by (simp_all add: memory_ops_def)

lemma record_count_state [simp]: "fst (snd (memory_record_count (s, m))) = s"
  by (simp add: memory_record_count_def)

lemma reload_records [simp]:
  "ms_records (fst (memory_reload_config c (s, m))) = ms_records s"
  "ms_config (fst (memory_reload_config c (s, m))) = c"
  by (simp_all add: memory_reload_config_def)

subsection \<open>The invariant and the contract\<close>

lemma put_received_ok: "memory_ok s \<Longrightarrow> memory_ok (fst (snd (memory_put_received it r (s, m))))"
  using evict_oldest_get [of it s]
  by (auto simp: memory_ok_def put_received_records evict_oldest_wf split: if_splits)
     (metis option.distinct(1))

lemma kept_ok:
  assumes "memory_ok s" and "hm_wf (ms_records s')" and "\<And>i. kept s s' i"
  shows "memory_ok s'"
  using assms by (auto simp: memory_ok_def kept_def) (metis option.distinct(1))

lemma get_ok: "memory_ok s \<Longrightarrow> memory_ok (fst (snd (memory_get clk j k (s, m))))"
  by (rule kept_ok [OF _ _ get_kept])
     (auto simp: memory_ok_def memory_get_def memory_get_expire_def split: option.split)

lemma expire_ok: "memory_ok s \<Longrightarrow> memory_ok (fst (memory_expire_old_records it clk (s, m)))"
  by (rule kept_ok [OF _ _ expire_kept])
     (auto simp: memory_ok_def memory_expire_old_records_def Let_def evict_excess_wf)

lemma set_metadata_wf:
  "hm_wf (ms_records s) \<Longrightarrow>
     hm_wf (ms_records (fst (snd (memory_set_recipient_metadata clk j k ds n (s, m)))))"
  by (auto simp: memory_set_recipient_metadata_def split: option.split)

lemma update_status_wf:
  "hm_wf (ms_records s) \<Longrightarrow>
     hm_wf (ms_records (fst (snd (memory_update_status clk j k u (s, m)))))"
  by (auto simp: memory_update_status_def Let_def split: option.split)

lemma set_metadata_ok:
  "memory_ok s \<Longrightarrow> memory_ok (fst (snd (memory_set_recipient_metadata clk j k ds n (s, m))))"
  unfolding memory_ok_def set_metadata_get
  by (auto simp: set_metadata_wf split: option.splits if_splits)

lemma update_status_ok:
  "memory_ok s \<Longrightarrow> memory_ok (fst (snd (memory_update_status clk j k u (s, m))))"
  unfolding memory_ok_def update_status_get
  by (auto simp: update_status_wf updated_record_def split: option.splits if_splits)

lemma memory_step_ok: "memory_ok (fst x) \<Longrightarrow> memory_ok (fst (apply_op (memory_ops it) op x))"
  by (cases x; cases op)
     (simp_all add: put_received_ok get_ok expire_ok set_metadata_ok update_status_ok,
      simp add: memory_ok_def)

lemma memory_step_evolves:
  assumes "memory_ok (fst x)" and "\<not> creates op i"
  shows "evolves (hm_get (ms_records (fst x)) i)
    (hm_get (ms_records (fst (apply_op (memory_ops it) op x))) i)"
proof -
  obtain s m where x: "x = (s, m)" by (cases x)
  have wf: "hm_wf (ms_records s)" using assms(1) by (simp add: x memory_ok_def)
  show ?thesis
  proof (cases op)
    case (Put_Received r)
    with assms(2) show ?thesis
      using kept_evolves [OF put_received_kept [of i r s it m]] by (auto simp: x)
  next
    case (Set_Metadata clk j k ds n)
    then show ?thesis
      by (auto simp: x set_metadata_get evolves_Some_iff split: option.split)
  next
    case (Update_Status clk j k u)
    then show ?thesis by (auto simp: x update_status_get evolves_Some_iff split: option.split)
  next
    case (Get_Status clk j k)
    then show ?thesis using kept_evolves [OF get_kept] by (simp add: x)
  next
    case (Expire_Old clk)
    then show ?thesis using kept_evolves [OF expire_kept [OF wf]] by (simp add: x)
  qed (simp_all add: x)
qed

lemma memory_step_foreign:
  assumes "memory_ok (fst x)" and "\<not> creates op i" and r: "hm_get (ms_records (fst x)) i = Some r"
    and "\<not> writes op i (sr_key_id r)"
  shows "hm_get (ms_records (fst (apply_op (memory_ops it) op x))) i \<in> {Some r, None}"
proof -
  obtain s m where x: "x = (s, m)" by (cases x)
  have wf: "hm_wf (ms_records s)" using assms(1) by (simp add: x memory_ok_def)
  show ?thesis
  proof (cases op)
    case (Put_Received r')
    with assms(2) r show ?thesis
      using put_received_kept [of i r' s it m] by (auto simp: x kept_def)
  next
    case (Get_Status clk j k)
    with r show ?thesis using get_kept [of s clk j k m i] by (simp add: x kept_def)
  next
    case (Expire_Old clk)
    with r show ?thesis using expire_kept [OF wf, of it clk m i] by (simp add: x kept_def)
  qed (use r assms(4) in \<open>auto simp: x set_metadata_get update_status_get\<close>)
qed

lemma memory_get_sound:
  "fst (memory_get clk i k x) = Inr (Some r) \<Longrightarrow>
     hm_get (ms_records (fst x)) i = Some r \<and> sr_key_id r = k \<and> \<not> is_expired (clk 0) r"
  by (auto simp: memory_get_def memory_get_read_def split: option.splits if_splits)

interpretation mem: tracking_store "memory_ops it" "\<lambda>s. hm_get (ms_records s)" memory_ok "\<lambda>_. True" for it
proof
  fix x :: "memory_store \<times> metrics" and s :: memory_store
  fix op i r clk k u ds n
  show "memory_ok (fst x) \<Longrightarrow> memory_ok (fst (apply_op (memory_ops it) op x))"
    by (rule memory_step_ok)
  show "memory_ok s \<Longrightarrow> hm_get (ms_records s) i = Some r \<Longrightarrow> sr_request_id r = i"
    by (simp add: memory_ok_def)
  show "memory_ok (fst x) \<Longrightarrow> \<not> creates op i \<Longrightarrow> evolves (hm_get (ms_records (fst x)) i)
      (hm_get (ms_records (fst (apply_op (memory_ops it) op x))) i)"
    by (rule memory_step_evolves)
  show "memory_ok (fst x) \<Longrightarrow> \<not> creates op i \<Longrightarrow> hm_get (ms_records (fst x)) i = Some r \<Longrightarrow>
      \<not> writes op i (sr_key_id r) \<Longrightarrow>
      hm_get (ms_records (fst (apply_op (memory_ops it) op x))) i \<in> {Some r, None}"
    by (rule memory_step_foreign)
  show "fst (so_get (memory_ops it) clk i k x) = Inr (Some r) \<Longrightarrow>
      hm_get (ms_records (fst x)) i = Some r \<and> sr_key_id r = k \<and> \<not> is_expired (clk 0) r"
    using memory_get_sound [of clk i k x r] by simp
  show "hm_get (ms_records (fst x)) (sr_request_id r) = None \<Longrightarrow>
      hm_get (ms_records (fst (apply_op (memory_ops it) (Put_Received r) x))) (sr_request_id r) = Some r"
    by (cases x) (simp add: put_received_records hm_contains_def)
  show "hm_get (ms_records (fst x)) i = Some r \<Longrightarrow> \<not> is_terminal (sr_status r) \<Longrightarrow>
      clk 0 < sr_expires_at r \<Longrightarrow>
      \<exists>r'. hm_get (ms_records (fst (apply_op (memory_ops it)
               (Update_Status clk i (sr_key_id r) u) x))) i = Some r'
         \<and> same_identity r r' \<and> sr_status r' = su_status u \<and> sr_code r' = su_code u"
    by (cases x) (auto simp: update_status_get is_expired_def intro: exI [of _ "updated_record u (clk 1) r"],
        simp_all add: updated_record_def)
  show "hm_get (ms_records (fst x)) i = Some r \<Longrightarrow>
      \<exists>r'. hm_get (ms_records (fst (apply_op (memory_ops it)
               (Set_Metadata clk i (sr_key_id r) ds n) x))) i = Some r'
         \<and> same_identity r r' \<and> same_outcome r r'"
    by (cases x) (auto simp: set_metadata_get same_identity_def same_outcome_def)
qed

end
