(* ===== verification/Status_Memory_Claims.thy ===== *)
theory Status_Memory_Claims
  imports Status_Memory_Props
begin

text \<open>
  The size of the in-memory store, which records leave it, and the properties of the store
  as seen by its clients: terminal states are final, records are visible to their own key
  only, and the gauge of live records is not exact.
\<close>

subsection \<open>Size\<close>

lemma evict_oldest_victim:
  assumes "permutes it" and "ms_records s \<noteq> []" and "unat (sc_max_records (ms_config s)) \<le> length (ms_records s)"
  obtains k r where "(k, r) \<in> set (ms_records s)"
    "\<And>k' r'. (k', r') \<in> set (ms_records s) \<Longrightarrow> sr_created_at r \<le> sr_created_at r'"
    "memory_evict_oldest it s = hm_remove k (ms_records s)"
proof -
  have "it (ms_records s) \<noteq> []"
    using permutes_length [OF assms(1), of "ms_records s"] assms(2) by auto
  then obtain k r where kr: "min_by_key (\<lambda>(k, r). sr_created_at r) (it (ms_records s)) = Some (k, r)"
    using min_by_key_None by (metis not_None_eq surj_pair)
  have "(k, r) \<in> set (ms_records s)"
    "\<And>k' r'. (k', r') \<in> set (ms_records s) \<Longrightarrow> sr_created_at r \<le> sr_created_at r'"
    using min_by_key_Some [OF kr] by (auto simp: permutes_set [OF assms(1)])
  then show ?thesis using kr assms(3) by (intro that) (auto simp: memory_evict_oldest_def)
qed

lemma evict_oldest_unchanged:
  assumes "permutes it"
    and "ms_records s = [] \<or> length (ms_records s) < unat (sc_max_records (ms_config s))"
  shows "memory_evict_oldest it s = ms_records s"
proof (cases "ms_records s = []")
  case True
  then have "it (ms_records s) = []" using permutes_length [OF assms(1), of "ms_records s"] by simp
  then have "min_by_key (\<lambda>(k, r). sr_created_at r) (it (ms_records s)) = None" by simp
  then show ?thesis by (simp only: memory_evict_oldest_def option.case if_cancel)
next
  case False
  with assms(2) show ?thesis by (simp add: memory_evict_oldest_def)
qed

lemma put_received_length:
  assumes it: "permutes it" and ok: "memory_ok s"
    and len: "length (ms_records s) \<le> max 1 (unat (sc_max_records (ms_config s)))"
  shows "length (ms_records (fst (snd (memory_put_received it r (s, m)))))
    \<le> max 1 (unat (sc_max_records (ms_config s)))"
proof (cases "hm_contains (ms_records s) (sr_request_id r)")
  case True
  with len show ?thesis by (simp add: put_received_records)
next
  case False
  let ?mx = "unat (sc_max_records (ms_config s))"
  have wf: "hm_wf (ms_records s)" using ok by (simp add: memory_ok_def)
  have ins: "length (hm_insert (sr_request_id r) r m') \<le> Suc (length m')" for m'
    by (simp add: hm_len_insert)
  have "Suc (length (memory_evict_oldest it s)) \<le> max 1 ?mx"
  proof (cases "ms_records s \<noteq> [] \<and> ?mx \<le> length (ms_records s)")
    case True
    then have ne: "ms_records s \<noteq> []" "?mx \<le> length (ms_records s)" by simp_all
    obtain k r where kr: "(k, r) \<in> set (ms_records s)"
      "memory_evict_oldest it s = hm_remove k (ms_records s)"
      by (rule evict_oldest_victim [OF it ne])
    then have "hm_contains (ms_records s) k" by (force simp: hm_contains_iff)
    moreover have "0 < length (ms_records s)" using True by simp
    ultimately have "Suc (length (memory_evict_oldest it s)) = length (ms_records s)"
      by (simp add: kr hm_len_remove [OF wf])
    with len show ?thesis by simp
  next
    case empty: False
    then have "memory_evict_oldest it s = ms_records s"
      using evict_oldest_unchanged [OF it, of s] by (simp add: not_le)
    with empty len show ?thesis by (cases "ms_records s = []") simp_all
  qed
  with ins [of "memory_evict_oldest it s"] False show ?thesis
    by (simp add: put_received_records)
qed

lemma hm_len_update: "hm_get m k = Some v \<Longrightarrow> length (hm_insert k v' m) = length m"
  by (simp add: hm_len_insert hm_contains_def)

lemma set_metadata_length:
  "length (ms_records (fst (snd (memory_set_recipient_metadata clk j k ds n (s, m)))))
     = length (ms_records s)"
  by (auto simp: memory_set_recipient_metadata_def hm_len_update split: option.split)

lemma update_status_length:
  "length (ms_records (fst (snd (memory_update_status clk j k u (s, m))))) = length (ms_records s)"
  by (auto simp: memory_update_status_def Let_def hm_len_update split: option.split)

lemma get_length:
  "hm_wf (ms_records s) \<Longrightarrow>
     length (ms_records (fst (snd (memory_get clk j k (s, m))))) \<le> length (ms_records s)"
  by (auto simp: memory_get_def memory_get_expire_def hm_len_remove split: option.split)

lemma foldl_remove_length:
  "hm_wf m \<Longrightarrow> distinct (List.map fst kts) \<Longrightarrow> (\<And>k. k \<in> fst ` set kts \<Longrightarrow> hm_contains m k) \<Longrightarrow>
     length (foldl (\<lambda>m kt. hm_remove (fst kt) m) m kts) = length m - length kts"
proof (induction kts arbitrary: m)
  case Nil
  then show ?case by simp
next
  case (Cons kt kts)
  have "hm_contains (hm_remove (fst kt) m) k" if "k \<in> fst ` set kts" for k
  proof -
    have "k \<noteq> fst kt" using that Cons.prems(2) by (metis distinct.simps(2) list.map(2) list.set_map)
    with that Cons.prems(3) [of k] show ?thesis by (simp add: hm_contains_def)
  qed
  moreover have "length (hm_remove (fst kt) m) = length m - 1"
    using Cons.prems(3) [of "fst kt"] by (simp add: hm_len_remove [OF Cons.prems(1)])
  ultimately show ?case using Cons.prems by (simp add: Cons.IH)
qed

lemma evict_excess_length:
  assumes it: "permutes it" and wf: "hm_wf m"
  shows "length (memory_evict_excess it mx m) = min (length m) (unat mx)"
proof (cases "length m > unat mx")
  case False
  then show ?thesis by (simp add: memory_evict_excess_def)
next
  case True
  let ?ages = "sort_key snd (List.map (\<lambda>(k, r). (k, sr_created_at r)) (it m))"
  have "mset (List.map fst ?ages) = image_mset fst (mset (it m))"
    by (simp add: image_mset.compositionality comp_def case_prod_unfold)
  also have "\<dots> = mset (List.map fst m)" using it by (simp add: permutes_def)
  finally have eq: "mset (List.map fst ?ages) = mset (List.map fst m)" .
  have d: "distinct (List.map fst ?ages)"
    using mset_eq_imp_distinct_iff [OF eq] wf by (simp only: hm_wf_def)
  have k: "set (List.map fst ?ages) = set (List.map fst m)" by (rule mset_eq_setD [OF eq])
  have "distinct (List.map fst (take n ?ages))" for n
    using d by (metis distinct_take take_map)
  moreover have "hm_contains m a" if "a \<in> fst ` set (take n ?ages)" for a n
  proof -
    have "a \<in> set (List.map fst ?ages)" using that set_take_subset [of n ?ages] by auto
    then show ?thesis unfolding k by (simp add: hm_contains_iff)
  qed
  ultimately have "length (foldl (\<lambda>m kt. hm_remove (fst kt) m) m (take n ?ages))
      = length m - length (take n ?ages)" for n
    by (intro foldl_remove_length [OF wf])
  moreover have "length ?ages = length m" by (simp add: permutes_length [OF it])
  ultimately show ?thesis using True by (simp add: memory_evict_excess_def Let_def)
qed

lemma expire_length:
  assumes "permutes it" and "hm_wf (ms_records s)"
  shows "length (ms_records (fst (memory_expire_old_records it clk (s, m))))
    \<le> min (length (ms_records s)) (unat (sc_max_records (ms_config s)))"
  using hm_len_retain_le [of "\<lambda>_ r. sr_expires_at r > clk 0" "ms_records s"]
  by (auto simp: memory_expire_old_records_def Let_def evict_excess_length [OF assms(1)] assms(2)
      intro: min.coboundedI1)

lemma config_frame:
  "ms_config (fst (snd (memory_put_received it r (s, m)))) = ms_config s"
  "ms_config (fst (snd (memory_set_recipient_metadata clk j k ds n (s, m)))) = ms_config s"
  "ms_config (fst (snd (memory_update_status clk j k u (s, m)))) = ms_config s"
  "ms_config (fst (snd (memory_get clk j k (s, m)))) = ms_config s"
  "ms_config (fst (memory_expire_old_records it clk (s, m))) = ms_config s"
  by (auto simp: memory_put_received_def memory_set_recipient_metadata_def memory_update_status_def
      memory_get_def memory_get_expire_def memory_expire_old_records_def Let_def
      split: option.split)

fun is_reload :: "store_op \<Rightarrow> bool" where
  "is_reload (Reload c) \<longleftrightarrow> True"
| "is_reload (Put_Received r) \<longleftrightarrow> False"
| "is_reload (Set_Metadata clk j k ds n) \<longleftrightarrow> False"
| "is_reload (Update_Status clk j k u) \<longleftrightarrow> False"
| "is_reload (Get_Status clk j k) \<longleftrightarrow> False"
| "is_reload (Expire_Old clk) \<longleftrightarrow> False"
| "is_reload Record_Count \<longleftrightarrow> False"

definition within_limit :: "usize \<Rightarrow> memory_store \<Rightarrow> bool" where
  "within_limit mx s \<longleftrightarrow>
     memory_ok s \<and> sc_max_records (ms_config s) = mx \<and> length (ms_records s) \<le> max 1 (unat mx)"

lemma within_limit_step:
  assumes "permutes it" and "within_limit mx (fst x)" and "\<not> is_reload op"
  shows "within_limit mx (fst (apply_op (memory_ops it) op x))"
proof -
  obtain s m where x: "x = (s, m)" by (cases x)
  have ok: "memory_ok s" and wf: "hm_wf (ms_records s)" and mx: "sc_max_records (ms_config s) = mx"
    and len: "length (ms_records s) \<le> max 1 (unat mx)"
    using assms(2) by (simp_all add: x within_limit_def memory_ok_def)
  have "memory_ok (fst (apply_op (memory_ops it) op x))"
    using ok by (intro memory_step_ok) (simp add: x)
  moreover have "sc_max_records (ms_config (fst (apply_op (memory_ops it) op x))) = mx"
    using assms(3) mx by (cases op) (simp_all add: x config_frame)
  moreover have "length (ms_records (fst (apply_op (memory_ops it) op x))) \<le> max 1 (unat mx)"
    using assms(3) len mx put_received_length [OF assms(1) ok]
      get_length [OF wf] expire_length [OF assms(1) wf]
    by (cases op)
       (simp_all add: x set_metadata_length update_status_length le_trans [OF _ len] min.coboundedI1,
        (meson le_trans le_max_iff_disj min.boundedE)+)
  ultimately show ?thesis by (simp add: within_limit_def)
qed

lemma within_limit_run:
  "permutes it \<Longrightarrow> within_limit mx (fst x) \<Longrightarrow> (\<And>op. op \<in> set os \<Longrightarrow> \<not> is_reload op) \<Longrightarrow>
     within_limit mx (fst (run_ops (memory_ops it) os x))"
  by (induction os arbitrary: x) (simp_all add: within_limit_step)

lemma memory_new_ok [simp]: "memory_ok (memory_new config)"
  by (simp add: memory_ok_def memory_new_def)

subsection \<open>Properties\<close>

definition example_record :: status_record where
  "example_record = new_received 0 ''req_1'' ''svc-a'' 3600"

definition done_record :: status_record where
  "done_record = example_record\<lparr>sr_status := SmtpAccepted\<rparr>"

definition one_record_store :: "status_record \<Rightarrow> memory_store" where
  "one_record_store r = (memory_new default_status_config)\<lparr>ms_records := [(sr_request_id r, r)]\<rparr>"

lemma one_record_ok [simp]: "memory_ok (one_record_store r)"
  by (simp add: memory_ok_def one_record_store_def hm_wf_def)

lemma one_record_get [simp]:
  "hm_get (ms_records (one_record_store r)) i = (if i = sr_request_id r then Some r else None)"
  by (simp add: one_record_store_def)

lemma example_record_simps [simp]:
  "sr_request_id example_record = ''req_1''" "sr_key_id example_record = ''svc-a''"
  "sr_status example_record = Received" "sr_expires_at example_record = 3600000000000"
  "sr_request_id done_record = ''req_1''" "sr_key_id done_record = ''svc-a''"
  "sr_status done_record = SmtpAccepted"
  by (simp_all add: example_record_def done_record_def new_received_def ttl_nanos_def)

text \<open>C25: A terminal status is final in the in-memory store: after any sequence of calls by any
  handler, query or cleanup (none of which inserts the same request id again), the record
  is either gone or has the same owner, status, code and message.\<close>

theorem memory_terminal_final:
  assumes "memory_ok (fst x)" and "hm_get (ms_records (fst x)) i = Some r"
    and "is_terminal (sr_status r)" and "\<And>op. op \<in> set os \<Longrightarrow> \<not> creates op i"
  shows "hm_get (ms_records (fst (run_ops (memory_ops it) os x))) i = None
    \<or> (\<exists>r'. hm_get (ms_records (fst (run_ops (memory_ops it) os x))) i = Some r'
           \<and> same_identity r r' \<and> same_outcome r r')"
  using assms by (intro mem.terminal_is_final) simp_all

definition late_failure :: store_op where
  "late_failure = Update_Status (\<lambda>_. 5) ''req_1'' ''svc-a''
     \<lparr>su_status = SmtpFailed, su_code = None, su_message = None\<rparr>"

theorem memory_terminal_final_witness:
  "hm_get (ms_records (fst (run_ops (memory_ops (\<lambda>xs. xs)) [late_failure]
       (one_record_store done_record, metrics_new)))) ''req_1'' = None
   \<or> (\<exists>r'. hm_get (ms_records (fst (run_ops (memory_ops (\<lambda>xs. xs)) [late_failure]
              (one_record_store done_record, metrics_new)))) ''req_1'' = Some r'
         \<and> same_identity done_record r' \<and> same_outcome done_record r')"
  by (rule memory_terminal_final) (simp_all add: late_failure_def)

text \<open>C27: A status query of the in-memory store never fails and returns the record exactly when
  it exists, belongs to the asking key and has not expired; it leaves every record alone
  except that the queried one is removed once it has expired.\<close>

theorem memory_get_exact:
  "\<exists>s' m'. memory_get clk i k (s, m) =
     (Inr (case hm_get (ms_records s) i of
             Some r \<Rightarrow> if sr_key_id r = k \<and> \<not> is_expired (clk 0) r then Some r else None
           | None \<Rightarrow> None), s', m')
   \<and> (\<forall>j. hm_get (ms_records s') j =
        (case hm_get (ms_records s) j of
           Some r \<Rightarrow> if j = i \<and> sr_key_id r = k \<and> is_expired (clk 0) r \<and> is_expired (clk 1) r
                     then None else Some r
         | None \<Rightarrow> None))"
  by (auto simp: memory_get_def memory_get_read_def memory_get_expire_def split: option.split)

text \<open>C26: Records are isolated between keys: calls made with another key or for another request,
  in any sequence and interleaving, leave a record exactly as it is or remove it (by expiry
  or eviction), and a query made with another key never returns it.\<close>

theorem memory_key_isolation:
  assumes "memory_ok (fst x)" and "hm_get (ms_records (fst x)) i = Some r"
    and "\<And>op. op \<in> set os \<Longrightarrow> \<not> creates op i \<and> \<not> writes op i (sr_key_id r)"
  shows "hm_get (ms_records (fst (run_ops (memory_ops it) os x))) i \<in> {Some r, None}
    \<and> (k \<noteq> sr_key_id r \<longrightarrow> fst (memory_get clk i k (run_ops (memory_ops it) os x)) = Inr None)"
proof
  let ?x' = "run_ops (memory_ops it) os x"
  show get: "hm_get (ms_records (fst ?x')) i \<in> {Some r, None}"
    by (rule mem.foreign_calls_keep [OF assms(1)]) (simp_all add: assms(2,3))
  show "k \<noteq> sr_key_id r \<longrightarrow> fst (memory_get clk i k ?x') = Inr None"
    using get by (auto simp: memory_get_def memory_get_read_def)
qed

theorem memory_key_isolation_witness:
  "fst (memory_get (\<lambda>_. 1) ''req_1'' ''svc-b'' (run_ops (memory_ops (\<lambda>xs. xs))
       [Update_Status (\<lambda>_. 5) ''req_1'' ''svc-b''
          \<lparr>su_status = Rejected, su_code = None, su_message = None\<rparr>]
       (one_record_store example_record, metrics_new))) = Inr None"
  using memory_key_isolation [of "(one_record_store example_record, metrics_new)" "''req_1''"
      example_record "[Update_Status (\<lambda>_. 5) ''req_1'' ''svc-b''
          \<lparr>su_status = Rejected, su_code = None, su_message = None\<rparr>]" "\<lambda>xs. xs" "''svc-b''" "\<lambda>_. 1"]
  by simp

text \<open>C28: The in-memory store is bounded: whatever sequence of calls other than a configuration
  reload runs on a new store, it never holds more than the larger of one and the configured
  number of records, each request id once.\<close>

theorem memory_size_bounded:
  assumes "permutes it" and "\<And>op. op \<in> set os \<Longrightarrow> \<not> is_reload op"
  shows "length (ms_records (fst (run_ops (memory_ops it) os (memory_new config, m))))
      \<le> max 1 (unat (sc_max_records config))
    \<and> distinct (List.map fst (ms_records (fst (run_ops (memory_ops it) os (memory_new config, m)))))"
proof -
  have "within_limit (sc_max_records config) (fst (memory_new config, m))"
    by (simp add: within_limit_def) (simp add: memory_new_def)
  from within_limit_run [OF assms(1) this assms(2)] show ?thesis
    by (simp add: within_limit_def memory_ok_def hm_wf_def)
qed

theorem memory_size_bounded_witness:
  "length (ms_records (fst (run_ops (memory_ops (\<lambda>xs. xs))
      [Put_Received example_record, Record_Count] (memory_new default_status_config, metrics_new))))
    \<le> max 1 (unat (sc_max_records default_status_config))"
  by (rule conjunct1 [OF memory_size_bounded]) auto

text \<open>Inserting is insert-only and evicts the oldest: a known request id changes nothing; a
  new one is stored as given, and when the store is at its limit exactly one record leaves,
  one with the smallest creation time, while all others stay.\<close>

theorem memory_put_evicts_oldest:
  assumes "permutes it" and "memory_ok s"
  shows "(hm_contains (ms_records s) (sr_request_id r) \<longrightarrow>
           memory_put_received it r (s, m) = (Inr (), s, m))
    \<and> (\<not> hm_contains (ms_records s) (sr_request_id r) \<longrightarrow>
         (\<exists>s' out. memory_put_received it r (s, m) = (Inr (), s', status_record_created m)
            \<and> (\<forall>j. hm_get (ms_records s') j =
                 (if j = sr_request_id r then Some r
                  else if Some j = out then None else hm_get (ms_records s) j))
            \<and> (out = None \<longleftrightarrow> length (ms_records s) < unat (sc_max_records (ms_config s))
                              \<or> ms_records s = [])
            \<and> (\<forall>j. out = Some j \<longrightarrow> (\<exists>v. hm_get (ms_records s) j = Some v
                 \<and> (\<forall>j' v'. hm_get (ms_records s) j' = Some v' \<longrightarrow>
                       sr_created_at v \<le> sr_created_at v')))))"
proof (cases "hm_contains (ms_records s) (sr_request_id r)")
  case True
  then show ?thesis by (simp add: memory_put_received_def)
next
  case False
  let ?mx = "unat (sc_max_records (ms_config s))"
  let ?s' = "s\<lparr>ms_records := hm_insert (sr_request_id r) r (memory_evict_oldest it s)\<rparr>"
  have wf: "hm_wf (ms_records s)" using assms(2) by (simp add: memory_ok_def)
  have put: "memory_put_received it r (s, m) = (Inr (), ?s', status_record_created m)"
    using False by (simp add: memory_put_received_def)
  obtain out where "(\<forall>j. hm_get (memory_evict_oldest it s) j =
                (if Some j = out then None else hm_get (ms_records s) j))
            \<and> (out = None \<longleftrightarrow> length (ms_records s) < ?mx \<or> ms_records s = [])
            \<and> (\<forall>j. out = Some j \<longrightarrow> (\<exists>v. hm_get (ms_records s) j = Some v
                 \<and> (\<forall>j' v'. hm_get (ms_records s) j' = Some v' \<longrightarrow> sr_created_at v \<le> sr_created_at v')))"
  proof (cases "ms_records s \<noteq> [] \<and> ?mx \<le> length (ms_records s)")
    case True
    then have ne: "ms_records s \<noteq> []" "?mx \<le> length (ms_records s)" by simp_all
    obtain k v where kv: "(k, v) \<in> set (ms_records s)"
      "\<And>k' v'. (k', v') \<in> set (ms_records s) \<Longrightarrow> sr_created_at v \<le> sr_created_at v'"
      "memory_evict_oldest it s = hm_remove k (ms_records s)"
      by (rule evict_oldest_victim [OF assms(1) ne]) blast
    then have "\<exists>v. hm_get (ms_records s) k = Some v
        \<and> (\<forall>j' v'. hm_get (ms_records s) j' = Some v' \<longrightarrow> sr_created_at v \<le> sr_created_at v')"
      by (auto simp: hm_get_iff_in_set [OF wf])
    then show ?thesis using kv(3) ne by (intro that [of "Some k"] conjI) auto
  next
    case none: False
    then show ?thesis
      using evict_oldest_unchanged [OF assms(1), of s] by (intro that [of None]) auto
  qed
  then show ?thesis
    using False put by (intro conjI impI exI [of _ ?s'] exI [of _ out]) simp_all
qed

theorem memory_put_evicts_oldest_witness:
  "memory_put_received (\<lambda>xs. xs) example_record (one_record_store example_record, metrics_new)
     = (Inr (), one_record_store example_record, metrics_new)"
  using memory_put_evicts_oldest [of "\<lambda>xs. xs" "one_record_store example_record" example_record metrics_new]
  by (simp add: hm_contains_def)

lemma sorted_take_drop:
  assumes "sorted xs" "x \<in> set (take n xs)" "y \<in> set (drop n xs)" shows "x \<le> y"
  using assms sorted_append [of "take n xs" "drop n xs"] by (simp only: append_take_drop_id) simp

lemma evict_excess_oldest:
  assumes it: "permutes it" and wf: "hm_wf recs"
    and r: "hm_get recs i = Some r" "hm_get (memory_evict_excess it mx recs) i = None"
    and r': "hm_get (memory_evict_excess it mx recs) j = Some r'"
  shows "sr_created_at r \<le> sr_created_at r'"
proof (cases "length recs > unat mx")
  case False
  with r show ?thesis by (simp add: memory_evict_excess_def)
next
  case True
  define ages where "ages = sort_key snd (List.map (\<lambda>(k, r). (k, sr_created_at r)) (it recs))"
  define n where "n = length recs - unat mx"
  have get: "hm_get (memory_evict_excess it mx recs) k
      = (if k \<in> fst ` set (take n ages) then None else hm_get recs k)" for k
    using True by (simp add: memory_evict_excess_def Let_def foldl_remove_get ages_def n_def)
  have ages: "(k, t) \<in> set ages \<longleftrightarrow> (\<exists>v. hm_get recs k = Some v \<and> t = sr_created_at v)" for k t
    by (auto simp: ages_def permutes_set [OF it] hm_get_iff_in_set [OF wf] intro: rev_image_eqI)
  have "i \<in> fst ` set (take n ages)" using get [of i] r by (auto split: if_splits)
  then obtain t where t: "(i, t) \<in> set (take n ages)" by auto
  then have "(i, t) \<in> set ages" by (rule in_set_takeD)
  then have ti: "t = sr_created_at r" using r(1) by (auto simp: ages)
  have "j \<notin> fst ` set (take n ages)" and rj: "hm_get recs j = Some r'"
    using get [of j] r' by (auto split: if_splits)
  moreover have "(j, sr_created_at r') \<in> set ages" using rj by (auto simp: ages)
  ultimately have "(j, sr_created_at r') \<in> set (drop n ages)"
    by (metis UnE append_take_drop_id fst_conv image_eqI set_append)
  moreover have "sorted (List.map snd ages)" by (simp add: ages_def)
  ultimately have "t \<le> sr_created_at r'"
    using t sorted_take_drop [of "List.map snd ages" t n "sr_created_at r'"]
    by (force simp: take_map drop_map)
  with ti show ?thesis by simp
qed

text \<open>C20: The cleanup of the in-memory store leaves only live records, at most the configured
  number; it keeps every live record when they fit, and otherwise removes only records
  that are no younger than any record it keeps.\<close>

theorem memory_cleanup_exact:
  assumes "permutes it" and "memory_ok s" and "memory_expire_old_records it clk (s, m) = (s', m')"
  shows "length (ms_records s') \<le> unat (sc_max_records (ms_config s))
    \<and> (\<forall>i r. hm_get (ms_records s') i = Some r \<longrightarrow>
          hm_get (ms_records s) i = Some r \<and> clk 0 < sr_expires_at r)
    \<and> (length (hm_retain (\<lambda>_ r. clk 0 < sr_expires_at r) (ms_records s))
          \<le> unat (sc_max_records (ms_config s)) \<longrightarrow>
        (\<forall>i r. hm_get (ms_records s) i = Some r \<and> clk 0 < sr_expires_at r \<longrightarrow>
           hm_get (ms_records s') i = Some r))
    \<and> (\<forall>i r j r'. hm_get (ms_records s) i = Some r \<and> clk 0 < sr_expires_at r
          \<and> hm_get (ms_records s') i = None \<and> hm_get (ms_records s') j = Some r' \<longrightarrow>
        sr_created_at r \<le> sr_created_at r')"
proof -
  let ?mx = "sc_max_records (ms_config s)"
  define live where "live = hm_retain (\<lambda>_ r. clk 0 < sr_expires_at r) (ms_records s)"
  have wf: "hm_wf (ms_records s)" using assms(2) by (simp add: memory_ok_def)
  then have lwf: "hm_wf live" by (simp add: live_def)
  have s': "ms_records s' = memory_evict_excess it ?mx live"
    using assms(3) by (auto simp: memory_expire_old_records_def Let_def live_def)
  have liveI: "hm_get live i = Some r \<longleftrightarrow> hm_get (ms_records s) i = Some r \<and> clk 0 < sr_expires_at r" for i r
    by (auto simp: live_def hm_get_retain [OF wf] split: option.split)
  have a: "length (ms_records s') \<le> unat ?mx"
    by (simp add: s' evict_excess_length [OF assms(1) lwf])
  have b: "hm_get (ms_records s) i = Some r \<and> clk 0 < sr_expires_at r"
    if "hm_get (ms_records s') i = Some r" for i r
  proof -
    have "hm_get live i = Some r" using that evict_excess_get [of it ?mx live i] by (auto simp: s')
    then show ?thesis by (simp only: liveI)
  qed
  have c: "hm_get (ms_records s') i = Some r"
    if "length live \<le> unat ?mx" "hm_get (ms_records s) i = Some r \<and> clk 0 < sr_expires_at r" for i r
    using that by (simp add: s' memory_evict_excess_def flip: liveI)
  have d: "sr_created_at r \<le> sr_created_at r'"
    if "hm_get (ms_records s) i = Some r \<and> clk 0 < sr_expires_at r"
      "hm_get (ms_records s') i = None" "hm_get (ms_records s') j = Some r'" for i r j r'
    using evict_excess_oldest [OF assms(1) lwf] that by (simp only: s' flip: liveI)
  show ?thesis unfolding live_def [symmetric] using a b c d by blast
qed

theorem memory_cleanup_exact_witness:
  "\<exists>s' m'. memory_expire_old_records (\<lambda>xs. xs) (\<lambda>_. 3600000000000)
        (one_record_store example_record, metrics_new) = (s', m')
     \<and> hm_get (ms_records s') ''req_1'' \<noteq> Some example_record"
proof -
  obtain s' m' where *: "memory_expire_old_records (\<lambda>xs. xs) (\<lambda>_. 3600000000000)
        (one_record_store example_record, metrics_new) = (s', m')"
    by (rule prod.exhaust)
  have "hm_get (ms_records s') ''req_1'' \<noteq> Some example_record"
    using memory_cleanup_exact [OF permutes_id one_record_ok *, THEN conjunct2, THEN conjunct1,
        THEN spec, of "''req_1''", THEN spec, of example_record] by simp
  with * show ?thesis by blast
qed

text \<open>The gauge of live records drifts: a new record that is stored at the limit takes the
  place of an old one, so the number of records stays the same, but the gauge goes up by
  one; only the next count corrects it.\<close>

theorem memory_gauge_drifts:
  assumes "permutes it" and "memory_ok s" and "ms_records s \<noteq> []"
    and "unat (sc_max_records (ms_config s)) \<le> length (ms_records s)"
    and "\<not> hm_contains (ms_records s) (sr_request_id r)"
    and "memory_put_received it r (s, m) = (res, s', m')"
  shows "length (ms_records s') = length (ms_records s)
    \<and> mt_status_records_current m' = mt_status_records_current m + 1"
proof -
  obtain k v where kv: "(k, v) \<in> set (ms_records s)"
    "memory_evict_oldest it s = hm_remove k (ms_records s)"
    by (rule evict_oldest_victim [OF assms(1,3,4)])
  have "hm_contains (ms_records s) k" using kv(1) by (force simp: hm_contains_iff)
  moreover have "hm_wf (ms_records s)" using assms(2) by (simp add: memory_ok_def)
  moreover have "\<not> hm_contains (hm_remove k (ms_records s)) (sr_request_id r)"
    using assms(5) by (simp add: hm_contains_def)
  ultimately show ?thesis
    using assms(3,5,6) kv(2) by (auto simp: memory_put_received_def hm_len_insert hm_len_remove)
qed

theorem memory_gauge_drifts_witness:
  "mt_status_records_current (snd (snd (memory_put_received (\<lambda>xs. xs)
      (example_record\<lparr>sr_request_id := ''req_2''\<rparr>)
      ((one_record_store example_record)\<lparr>ms_config := default_status_config\<lparr>sc_max_records := 1\<rparr>\<rparr>,
       metrics_new)))) = 1"
proof -
  let ?s = "(one_record_store example_record)\<lparr>ms_config := default_status_config\<lparr>sc_max_records := 1\<rparr>\<rparr>"
  let ?r = "example_record\<lparr>sr_request_id := ''req_2''\<rparr>"
  obtain res s' m' where *: "memory_put_received (\<lambda>xs. xs) ?r (?s, metrics_new) = (res, s', m')"
    by (cases "memory_put_received (\<lambda>xs. xs) ?r (?s, metrics_new)") auto
  have "memory_ok ?s" by (simp add: memory_ok_def one_record_store_def hm_wf_def)
  then have "mt_status_records_current m' = mt_status_records_current metrics_new + 1"
    using memory_gauge_drifts [OF permutes_id _ _ _ _ *]
    by (simp add: one_record_store_def hm_contains_def)
  then show ?thesis by (simp only: * snd_conv) (simp add: metrics_new_def)
qed

end
