(* ===== verification/Mail.thy ===== *)
theory Mail
  imports Validation
begin

text \<open>
  \<open>mail.rs\<close>: construction of the mail message. The message under construction is the
  record of the headers set on \<open>lettre\<close>'s builder and the tree of MIME parts handed to it;
  whether the builder accepts it is the argument \<open>finish\<close>.
\<close>

type_synonym mailbox = "str option \<times> str"

datatype mime_part =
    Plain str
  | Html str
  | Attached str str bytes
  | Alternative "mime_part list"
  | Mixed "mime_part list"

datatype mail_body =
    Text_Body str
  | Multipart mime_part

record message =
  mg_from :: mailbox
  mg_to :: "mailbox list"
  mg_subject :: str
  mg_cc :: "mailbox list"
  mg_reply_to :: "mailbox list"
  mg_body :: mail_body

text \<open>The loops that parse a list of addresses and append them to a header.\<close>

fun parse_mailboxes :: "externals \<Rightarrow> str list \<Rightarrow> app_error + mailbox list" where
  "parse_mailboxes X [] = Inr []"
| "parse_mailboxes X (addr # addrs) =
     and_then (ok_or (x_parse_mailbox X addr) Internal) (\<lambda>m.
     and_then (parse_mailboxes X addrs) (\<lambda>ms. Inr (m # ms)))"

definition body_part :: "validated_mail_request \<Rightarrow> mime_part" where
  "body_part v =
     (case vm_body_html v of
        Some html \<Rightarrow> Alternative [Plain (vm_body v), Html html]
      | None \<Rightarrow> Alternative [Plain (vm_body v)])"

fun attachment_parts :: "externals \<Rightarrow> validated_attachment list \<Rightarrow> app_error + mime_part list" where
  "attachment_parts X [] = Inr []"
| "attachment_parts X (att # atts) =
     and_then (ok_or (x_parse_content_type X (va_content_type att)) Internal) (\<lambda>ct.
     and_then (attachment_parts X atts) (\<lambda>ps.
       Inr (Attached (va_filename att) ct (va_decoded att) # ps)))"

definition compose_body :: "externals \<Rightarrow> validated_mail_request \<Rightarrow> app_error + mail_body" where
  "compose_body X v =
     (if vm_attachments v = [] \<and> vm_body_html v = None then Inr (Text_Body (vm_body v))
      else if vm_attachments v = [] then Inr (Multipart (body_part v))
      else and_then (attachment_parts X (vm_attachments v)) (\<lambda>ps.
             Inr (Multipart (Mixed (body_part v # ps)))))"

definition build_message ::
  "externals \<Rightarrow> (message \<Rightarrow> bool) \<Rightarrow> validated_mail_request \<Rightarrow> app_config \<Rightarrow> app_error + message" where
  "build_message X finish v config =
     (let mail_cfg = cf_mail config;
          from_name = (case vm_from_name v of Some n \<Rightarrow> Some n | None \<Rightarrow> ml_default_from_name mail_cfg) in
      and_then (ok_or (x_parse_address X (ml_default_from mail_cfg)) Internal) (\<lambda>from_addr.
      and_then (parse_mailboxes X (vm_to v)) (\<lambda>to_boxes.
      and_then (parse_mailboxes X (vm_cc v)) (\<lambda>cc_boxes.
      and_then (parse_mailboxes X (vm_reply_to v)) (\<lambda>rt_boxes.
      and_then (compose_body X v) (\<lambda>body.
        let msg = \<lparr>mg_from = (from_name, from_addr), mg_to = to_boxes, mg_subject = vm_subject v,
                   mg_cc = cc_boxes, mg_reply_to = rt_boxes, mg_body = body\<rparr>
        in if finish msg then Inr msg else Inl Internal))))))"

subsection \<open>Lemmas\<close>

lemma parse_mailboxes_Inr_iff:
  "parse_mailboxes X as = Inr bs \<longleftrightarrow> map (x_parse_mailbox X) as = map Some bs"
  by (induction as arbitrary: bs) (auto simp: and_then_Inr_iff)

lemma attachment_parts_Inr_iff:
  "attachment_parts X as = Inr ps \<longleftrightarrow>
     (\<exists>cts. map (\<lambda>a. x_parse_content_type X (va_content_type a)) as = map Some cts
        \<and> ps = map2 (\<lambda>a ct. Attached (va_filename a) ct (va_decoded a)) as cts)"
proof (induction as arbitrary: ps)
  case Nil
  then show ?case by auto
next
  case (Cons a as)
  then show ?case by (force simp: and_then_Inr_iff map_eq_Cons_conv Cons_eq_map_conv)
qed

lemma build_message_Inr:
  assumes "build_message X finish v config = Inr msg"
  shows "x_parse_address X (ml_default_from (cf_mail config)) = Some (snd (mg_from msg))"
    and "fst (mg_from msg) = (case vm_from_name v of Some n \<Rightarrow> Some n
           | None \<Rightarrow> ml_default_from_name (cf_mail config))"
    and "map (x_parse_mailbox X) (vm_to v) = map Some (mg_to msg)"
    and "map (x_parse_mailbox X) (vm_cc v) = map Some (mg_cc msg)"
    and "map (x_parse_mailbox X) (vm_reply_to v) = map Some (mg_reply_to msg)"
    and "mg_subject msg = vm_subject v"
    and "compose_body X v = Inr (mg_body msg)"
    and "finish msg"
  using assms
  by (auto simp: build_message_def Let_def and_then_Inr_iff parse_mailboxes_Inr_iff split: if_splits)

lemma build_message_Inl: "build_message X finish v config = Inl e \<Longrightarrow> e = Internal"
proof -
  have "parse_mailboxes X as = Inl e \<Longrightarrow> e = Internal" for as
    by (induction as) (auto simp: and_then_Inl_iff)
  moreover have "attachment_parts X as = Inl e \<Longrightarrow> e = Internal" for as
    by (induction as) (auto simp: and_then_Inl_iff)
  ultimately show "build_message X finish v config = Inl e \<Longrightarrow> e = Internal"
    by (auto simp: build_message_def Let_def and_then_Inl_iff compose_body_def split: if_splits)
qed

end
