(* ===== verification/Smtp.thy ===== *)
theory Smtp
  imports Mail
begin

text \<open>
  \<open>smtp.rs\<close>: the transport built from the configuration, and the classification of what a
  submission comes to. The transfer itself (the network, the spawned command) is outside
  the program; its outcome is an argument.
\<close>

subsection \<open>Transport\<close>

datatype tls_mode = Starttls | Tls_Wrapper | Plain_Tcp

record smtp_transport =
  st_tls :: tls_mode
  st_host :: str
  st_port :: u16
  st_timeout_seconds :: u64
  st_credentials :: "(str \<times> str) option"

text \<open>
  \<open>relay_ok host\<close> says whether \<open>lettre\<close> can set up TLS parameters for a host;
  \<open>builder_dangerous\<close> cannot fail.
\<close>

definition build_transport :: "(str \<Rightarrow> bool) \<Rightarrow> smtp_config \<Rightarrow> app_error + smtp_transport" where
  "build_transport relay_ok cfg =
     (let creds = (case (sm_auth_user cfg, sm_auth_password cfg) of
                     (Some user, Some pass) \<Rightarrow> Some (user, expose pass) | _ \<Rightarrow> None);
          transport = (\<lambda>mode. \<lparr>st_tls = mode, st_host = sm_host cfg, st_port = sm_port cfg,
            st_timeout_seconds = sm_connect_timeout_seconds cfg, st_credentials = creds\<rparr>)
      in if sm_tls cfg = ''starttls'' then
           (if relay_ok (sm_host cfg) then Inr (transport Starttls) else Inl Internal)
         else if sm_tls cfg = ''tls'' then
           (if relay_ok (sm_host cfg) then Inr (transport Tls_Wrapper) else Inl Internal)
         else Inr (transport Plain_Tcp))"

subsection \<open>Submission\<close>

text \<open>What \<open>timeout(transport.send(message))\<close> comes to; an error carries its text.\<close>

datatype send_outcome = Sent | Send_Error str | Timed_Out

definition is_rejection :: "str \<Rightarrow> bool" where
  "is_rejection error_str \<longleftrightarrow>
     contains_str error_str ''Permanent'' \<or> contains_str error_str ''Transient''
     \<or> contains_str error_str ''ReplyCode''"

definition submit :: "send_outcome \<Rightarrow> app_error + unit" where
  "submit result =
     (case result of
        Sent \<Rightarrow> Inr ()
      | Send_Error e \<Rightarrow> if is_rejection e then Inl SmtpRejected else Inl SmtpUnavailable
      | Timed_Out \<Rightarrow> Inl SmtpUnavailable)"

text \<open>
  The pipe mode: the stages at which the command may fail, or its exit status. The write
  happens only when the child has a standard input.
\<close>

record pipe_run =
  pr_timed_out :: bool
  pr_spawned :: bool
  pr_has_stdin :: bool
  pr_written :: bool
  pr_waited :: bool
  pr_success :: bool

definition submit_pipe :: "pipe_run \<Rightarrow> app_error + unit" where
  "submit_pipe run =
     (if pr_timed_out run then Inl SmtpUnavailable
      else and_then (guard_err (\<not> pr_spawned run) SmtpUnavailable) (\<lambda>_.
           and_then (guard_err (pr_has_stdin run \<and> \<not> pr_written run) SmtpUnavailable) (\<lambda>_.
           and_then (guard_err (\<not> pr_waited run) SmtpUnavailable) (\<lambda>_.
           guard_err (\<not> pr_success run) SmtpUnavailable))))"

text \<open>\<open>is_smtp_reachable\<close> and the readiness probe: the result of the connection attempt
  under its time limit, \<open>None\<close> when it ran out.\<close>

definition is_smtp_reachable :: "bool option \<Rightarrow> bool" where
  "is_smtp_reachable connect = (case connect of Some ok \<Rightarrow> ok | None \<Rightarrow> False)"

lemma submit_Inl: "submit r = Inl e \<Longrightarrow> e = SmtpRejected \<or> e = SmtpUnavailable"
  by (auto simp: submit_def split: send_outcome.splits if_splits)

lemma submit_Inr_iff: "submit r = Inr u \<longleftrightarrow> r = Sent"
  by (auto simp: submit_def split: send_outcome.splits if_splits)

lemma submit_pipe_Inl: "submit_pipe r = Inl e \<Longrightarrow> e = SmtpUnavailable"
  by (auto simp: submit_pipe_def and_then_Inl_iff split: if_splits)

end
