(* ===== verification/Request_Id.thy ===== *)
theory Request_Id
  imports Externals
begin

text \<open>
  \<open>request_id.rs\<close>: the identifier of a submission, the text \<open>req_\<close> followed by a ULID.
  Generating a ULID (time and randomness) belongs to the \<open>ulid\<close> crate, so a fresh ULID is
  an argument; so is the test whether a text is a ULID.
\<close>

definition request_id_new :: "str \<Rightarrow> str" where
  "request_id_new ulid = ''req_'' @ ulid"

datatype request_id_parse_error = RequestIdParseError

fun request_id_parse_error_display :: "request_id_parse_error \<Rightarrow> str" where
  "request_id_parse_error_display RequestIdParseError = ''invalid request_id: must be req_<ULID>''"

definition request_id_from_str :: "externals \<Rightarrow> str \<Rightarrow> request_id_parse_error + str" where
  "request_id_from_str X s =
     and_then (ok_or (strip_prefix s ''req_'') RequestIdParseError) (\<lambda>ulid_part.
     and_then (guard_err (\<not> x_ulid_ok X ulid_part) RequestIdParseError) (\<lambda>_. Inr s))"

lemma request_id_from_str_Inr_iff:
  "request_id_from_str X s = Inr i \<longleftrightarrow> i = s \<and> (\<exists>u. s = request_id_new u \<and> x_ulid_ok X u)"
  by (auto simp: request_id_from_str_def request_id_new_def and_then_Inr_iff strip_prefix_Some_iff)

end
