(* ===== verification/Send.thy ===== *)
theory Send
  imports Smtp Rate_Limit Status_Contract Request_Id
begin

text \<open>
  \<open>api/send.rs\<close>: the handler of \<open>POST /v1/send\<close>, from the authenticated request to the
  response. The state it works on is a record: the status store (of any type, through its
  operations), the rate limiter, the metrics, and the messages handed to the SMTP
  transport. What comes from outside in one request (clock readings, the parsed body, the
  outcome of the transfer) is the record \<open>send_env\<close>.
\<close>

subsection \<open>State and environment\<close>

record 's world =
  wd_store :: 's
  wd_limiter :: rate_limiter
  wd_metrics :: metrics
  wd_sent :: "message list"

definition with_store :: "('s \<times> metrics \<Rightarrow> 'r \<times> 's \<times> metrics) \<Rightarrow> 's world \<Rightarrow> 'r \<times> 's world" where
  "with_store f w =
     (case f (wd_store w, wd_metrics w) of
        (r, s, m) \<Rightarrow> (r, w\<lparr>wd_store := s, wd_metrics := m\<rparr>))"

abbreviation store_call :: "('s \<times> metrics \<Rightarrow> 'r \<times> 's \<times> metrics) \<Rightarrow> 's world \<Rightarrow> 's world" where
  "store_call f w \<equiv> snd (with_store f w)"

abbreviation on_metrics :: "(metrics \<Rightarrow> metrics) \<Rightarrow> 's world \<Rightarrow> 's world" where
  "on_metrics f w \<equiv> w\<lparr>wd_metrics := f (wd_metrics w)\<rparr>"

text \<open>
  The readings of the wall clock: \<open>ev_received\<close> for the new record, \<open>ev_clock n\<close> for the
  \<open>n\<close>-th later call of the store. The rate limiter reads the monotonic clock up to five
  times. \<open>ev_json\<close> is the body parsed as a \<open>MailRequest\<close> (\<open>None\<close>: the parser rejects it),
  \<open>ev_outcome\<close> what the transfer of a message comes to.
\<close>

record send_env =
  ev_request_id :: request_id
  ev_content_type :: "str option"
  ev_body_len :: nat
  ev_json :: "mail_request option"
  ev_received :: time
  ev_clock :: "nat \<Rightarrow> clock"
  ev_instant :: "nat \<Rightarrow> instant"
  ev_finish :: "message \<Rightarrow> bool"
  ev_outcome :: "message \<Rightarrow> send_outcome"

type_synonym http_reply = "nat \<times> json"

subsection \<open>Helpers of the handler\<close>

definition store_code_from_app_error :: "app_error \<Rightarrow> error_code option" where
  "store_code_from_app_error e =
     (if app_error_code e = Code_InternalError then None else Some (app_error_code e))"

text \<open>The closure \<open>reject\<close>: the status of the record becomes \<open>Rejected\<close>, and an error of
  the store is only logged.\<close>

definition reject ::
  "'s status_ops \<Rightarrow> send_env \<Rightarrow> auth_context \<Rightarrow> app_error \<Rightarrow> 's world \<Rightarrow> 's world" where
  "reject ops ev auth status w =
     store_call (so_update_status ops (ev_clock ev 0) (ev_request_id ev) (ac_key_id auth)
       \<lparr>su_status = Rejected, su_code = store_code_from_app_error status, su_message = None\<rparr>) w"

definition request_err :: "send_env \<Rightarrow> app_error \<Rightarrow> request_error" where
  "request_err ev e = \<lparr>re_request_id = ev_request_id ev, re_source = e\<rparr>"

text \<open>The macro \<open>check_rate\<close>: count, reject, and answer with the wait of the tier.\<close>

definition rate_limited ::
  "'s status_ops \<Rightarrow> send_env \<Rightarrow> auth_context \<Rightarrow> str \<Rightarrow> rate_limited_error \<Rightarrow> 's world \<Rightarrow>
     (app_error + unit) \<times> 's world" where
  "rate_limited ops ev auth tier e w =
     (Inl (RateLimited (Some (rle_retry_after_secs e))),
      reject ops ev auth (RateLimited None)
        (on_metrics (\<lambda>m. inc_request ''4xx'' (inc_rate_limited tier m)) w))"

definition check_rates ::
  "'s status_ops \<Rightarrow> send_env \<Rightarrow> auth_context \<Rightarrow> 's world \<Rightarrow> (app_error + unit) \<times> 's world" where
  "check_rates ops ev auth w =
     (case check_global (ev_instant ev 0) (wd_limiter w) of
        (Inl e, rl) \<Rightarrow> rate_limited ops ev auth ''global'' e (w\<lparr>wd_limiter := rl\<rparr>)
      | (Inr _, rl) \<Rightarrow>
          (case check_ip (ev_instant ev 1) (ev_instant ev 2) (ac_client_ip auth) rl of
             (Inl e, rl) \<Rightarrow> rate_limited ops ev auth ''ip'' e (w\<lparr>wd_limiter := rl\<rparr>)
           | (Inr _, rl) \<Rightarrow>
               (case check_key (ev_instant ev 3) (ev_instant ev 4) (ac_key_id auth)
                       (ac_key_rate_limit_per_min auth) (ac_key_burst auth) rl of
                  (Inl e, rl) \<Rightarrow> rate_limited ops ev auth ''key'' e (w\<lparr>wd_limiter := rl\<rparr>)
                | (Inr _, rl) \<Rightarrow> (Inr (), w\<lparr>wd_limiter := rl\<rparr>))))"

subsection \<open>Steps 4 to 6: content type, size, body\<close>

definition check_payload ::
  "'s status_ops \<Rightarrow> send_env \<Rightarrow> app_config \<Rightarrow> auth_context \<Rightarrow> 's world \<Rightarrow>
     (app_error + mail_request) \<times> 's world" where
  "check_payload ops ev cfg auth w =
     (let ct = (case ev_content_type ev of Some v \<Rightarrow> v | None \<Rightarrow> []) in
      if \<not> starts_with ct ''application/json''
      then (Inl UnsupportedMediaType,
            on_metrics (inc_request ''4xx'') (reject ops ev auth UnsupportedMediaType w))
      else if ev_body_len ev > unat (sv_max_request_body_bytes (cf_server cfg))
      then (Inl PayloadTooLarge,
            on_metrics (inc_request ''4xx'') (reject ops ev auth PayloadTooLarge w))
      else (case ev_json ev of
              None \<Rightarrow> (Inl BadRequest,
                       on_metrics (\<lambda>m. inc_request ''4xx'' (inc_validation_failure ''json_parse'' m))
                         (reject ops ev auth BadRequest w))
            | Some payload \<Rightarrow> (Inr payload, w)))"

subsection \<open>Steps 8 and 9: validation and message\<close>

definition build_mail ::
  "externals \<Rightarrow> 's status_ops \<Rightarrow> send_env \<Rightarrow> app_config \<Rightarrow> auth_context \<Rightarrow> mail_request \<Rightarrow>
     's world \<Rightarrow> (app_error + message) \<times> 's world" where
  "build_mail X ops ev cfg auth payload w =
     (case validate_mail_request X payload cfg auth of
        Inl e \<Rightarrow>
          (Inl e, reject ops ev auth (Validation [])
             (on_metrics (\<lambda>m. inc_request ''4xx'' (inc_validation_failure ''request'' m)) w))
      | Inr validated \<Rightarrow>
          (let domains = recipient_domains_from X (vm_to validated) (vm_cc validated);
               count = of_nat (length (vm_to validated) + length (vm_cc validated));
               w1 = store_call (so_set_recipient_metadata ops (ev_clock ev 1) (ev_request_id ev)
                      (ac_key_id auth) domains count) w
           in (case build_message X (ev_finish ev) validated cfg of
                 Inr message \<Rightarrow> (Inr message, w1)
               | Inl e \<Rightarrow>
                   (Inl e, on_metrics (inc_request ''5xx'')
                      (store_call (so_update_status ops (ev_clock ev 2) (ev_request_id ev)
                         (ac_key_id auth)
                         \<lparr>su_status = Rejected, su_code = Some Code_InternalError,
                          su_message = Some ''Failed to build mail message.''\<rparr>) w1)))))"

subsection \<open>Steps 10 and 11: submission\<close>

definition submission_started :: "'s status_ops \<Rightarrow> send_env \<Rightarrow> auth_context \<Rightarrow> 's world \<Rightarrow> 's world" where
  "submission_started ops ev auth w =
     store_call (so_update_status ops (ev_clock ev 3) (ev_request_id ev) (ac_key_id auth)
       \<lparr>su_status = SmtpSubmissionStarted, su_code = None, su_message = None\<rparr>) w"

definition smtp_error_code :: "app_error \<Rightarrow> error_code" where
  "smtp_error_code e = (if e = SmtpRejected then Code_SmtpRejected else Code_SmtpUnavailable)"

definition accepted_reply :: "send_env \<Rightarrow> http_reply" where
  "accepted_reply ev =
     (202, JObj [(''status'', JStr ''accepted''), (''request_id'', JStr (ev_request_id ev))])"

definition submit_mail ::
  "'s status_ops \<Rightarrow> send_env \<Rightarrow> auth_context \<Rightarrow> message \<Rightarrow> 's world \<Rightarrow>
     (app_error + http_reply) \<times> 's world" where
  "submit_mail ops ev auth message w =
     (let w1 = (submission_started ops ev auth w)\<lparr>wd_sent := message # wd_sent w\<rparr> in
      case submit (ev_outcome ev message) of
        Inr _ \<Rightarrow>
          (Inr (accepted_reply ev),
           store_call (so_update_status ops (ev_clock ev 4) (ev_request_id ev) (ac_key_id auth)
             \<lparr>su_status = SmtpAccepted, su_code = None,
              su_message = Some ''The message was accepted by the configured SMTP server.''\<rparr>)
             (on_metrics (\<lambda>m. inc_request ''2xx'' (inc_smtp_ok m)) w1))
      | Inl app_err \<Rightarrow>
          (Inl app_err,
           store_call (so_update_status ops (ev_clock ev 4) (ev_request_id ev) (ac_key_id auth)
             \<lparr>su_status = SmtpFailed, su_code = Some (smtp_error_code app_err), su_message = None\<rparr>)
             (on_metrics (\<lambda>m. inc_request ''5xx'' (inc_smtp_error m)) w1)))"

subsection \<open>The handler\<close>

definition put_initial ::
  "'s status_ops \<Rightarrow> send_env \<Rightarrow> app_config \<Rightarrow> auth_context \<Rightarrow> 's world \<Rightarrow> 's world" where
  "put_initial ops ev cfg auth w =
     store_call (so_put_received ops (new_received (ev_received ev) (ev_request_id ev)
       (ac_key_id auth) (sc_ttl_seconds (cf_status cfg)))) w"

text \<open>\<open>Result<_, AppError>\<close> in state-passing style: the next step runs on the state the
  failing or succeeding step left.\<close>

definition then_step ::
  "('e + 'a) \<times> 'w \<Rightarrow> ('a \<Rightarrow> 'w \<Rightarrow> ('e + 'b) \<times> 'w) \<Rightarrow> ('e + 'b) \<times> 'w" where
  "then_step rw f = (case rw of (Inl e, w) \<Rightarrow> (Inl e, w) | (Inr a, w) \<Rightarrow> f a w)"

definition send_steps ::
  "externals \<Rightarrow> 's status_ops \<Rightarrow> send_env \<Rightarrow> app_config \<Rightarrow> auth_context \<Rightarrow> 's world \<Rightarrow>
     (app_error + http_reply) \<times> 's world" where
  "send_steps X ops ev cfg auth w =
     then_step (check_payload ops ev cfg auth w) (\<lambda>payload w.
     then_step (check_rates ops ev auth w) (\<lambda>_ w.
     then_step (build_mail X ops ev cfg auth payload w) (\<lambda>message w.
     submit_mail ops ev auth message w)))"

definition send_mail ::
  "externals \<Rightarrow> 's status_ops \<Rightarrow> send_env \<Rightarrow> app_config \<Rightarrow> auth_context \<Rightarrow> 's world \<Rightarrow>
     (request_error + http_reply) \<times> 's world" where
  "send_mail X ops ev cfg auth w =
     (case send_steps X ops ev cfg auth (put_initial ops ev cfg auth w) of
        (Inl e, w') \<Rightarrow> (Inl (request_err ev e), w')
      | (Inr reply, w') \<Rightarrow> (Inr reply, w'))"

end
