(* ===== verification/Send_Props.thy ===== *)
theory Send_Props
  imports Send Validation_Claims
begin

text \<open>
  Lemmas on the send handler: what each step leaves alone, when a message is handed to the
  transport, that the store cannot influence the answer, and, over any store with the
  tracking contract, that the record ends in the terminal state that matches the answer.
\<close>

subsection \<open>Frames\<close>

lemma with_store_fields [simp]:
  "wd_limiter (store_call f w) = wd_limiter w"
  "wd_sent (store_call f w) = wd_sent w"
  by (simp_all add: with_store_def split: prod.split)

lemma reject_fields [simp]:
  "wd_limiter (reject ops ev auth e w) = wd_limiter w"
  "wd_sent (reject ops ev auth e w) = wd_sent w"
  by (simp_all add: reject_def)

lemma then_step_Inr_iff:
  "then_step rw f = (Inr b, w') \<longleftrightarrow> (\<exists>a w. rw = (Inr a, w) \<and> f a w = (Inr b, w'))"
  by (cases rw; cases "fst rw") (auto simp: then_step_def)

lemma then_step_simps [simp]:
  "then_step (Inl e, w) f = (Inl e, w)"
  "then_step (Inr a, w) f = f a w"
  by (simp_all add: then_step_def)

definition payload_ok :: "send_env \<Rightarrow> app_config \<Rightarrow> mail_request \<Rightarrow> bool" where
  "payload_ok ev cfg payload \<longleftrightarrow>
     (\<exists>ct. ev_content_type ev = Some ct \<and> starts_with ct ''application/json'')
     \<and> ev_body_len ev \<le> unat (sv_max_request_body_bytes (cf_server cfg))
     \<and> ev_json ev = Some payload"

lemma starts_with_Nil_json [simp]: "\<not> starts_with [] ''application/json''"
  by (simp add: starts_with_def)

lemma check_payload_Inr_iff:
  "check_payload ops ev cfg auth w = (Inr p, w') \<longleftrightarrow> payload_ok ev cfg p \<and> w' = w"
  by (auto simp: check_payload_def payload_ok_def Let_def split: option.splits)

text \<open>The three tiers pass in order; the answer and the limiter do not depend on the store.\<close>

definition rates_ok :: "send_env \<Rightarrow> auth_context \<Rightarrow> rate_limiter \<Rightarrow> rate_limiter \<Rightarrow> bool" where
  "rates_ok ev auth rl rl' \<longleftrightarrow>
     (\<exists>rl1 rl2. check_global (ev_instant ev 0) rl = (Inr (), rl1)
        \<and> check_ip (ev_instant ev 1) (ev_instant ev 2) (ac_client_ip auth) rl1 = (Inr (), rl2)
        \<and> check_key (ev_instant ev 3) (ev_instant ev 4) (ac_key_id auth)
             (ac_key_rate_limit_per_min auth) (ac_key_burst auth) rl2 = (Inr (), rl'))"

lemma check_rates_Inr_iff:
  "check_rates ops ev auth w = (Inr u, w') \<longleftrightarrow>
     (\<exists>rl'. rates_ok ev auth (wd_limiter w) rl' \<and> w' = w\<lparr>wd_limiter := rl'\<rparr>)"
  by (auto simp: check_rates_def rates_ok_def rate_limited_def split: prod.splits sum.splits)

lemma build_mail_Inr_iff:
  "fst (build_mail X ops ev cfg auth payload w) = Inr msg \<longleftrightarrow>
     (\<exists>v. validate_mail_request X payload cfg auth = Inr v
        \<and> build_message X (ev_finish ev) v cfg = Inr msg)"
  by (auto simp: build_mail_def Let_def split: sum.splits)

lemma build_mail_fields [simp]:
  "wd_limiter (snd (build_mail X ops ev cfg auth payload w)) = wd_limiter w"
  "wd_sent (snd (build_mail X ops ev cfg auth payload w)) = wd_sent w"
  by (simp_all add: build_mail_def Let_def split: sum.split)

lemma check_rates_sent [simp]: "wd_sent (snd (check_rates ops ev auth w)) = wd_sent w"
  by (simp add: check_rates_def rate_limited_def split: prod.split sum.split)

lemma check_payload_fields [simp]:
  "wd_sent (snd (check_payload ops ev cfg auth w)) = wd_sent w"
  "wd_limiter (snd (check_payload ops ev cfg auth w)) = wd_limiter w"
  by (simp_all add: check_payload_def Let_def split: option.split)

lemma submit_mail_sent [simp]:
  "wd_sent (snd (submit_mail ops ev auth message w)) = message # wd_sent w"
  by (simp add: submit_mail_def Let_def split: sum.split)

text \<open>What has passed before a message is handed to the transport.\<close>

definition cleared ::
  "externals \<Rightarrow> send_env \<Rightarrow> app_config \<Rightarrow> auth_context \<Rightarrow> rate_limiter \<Rightarrow> message \<Rightarrow> bool" where
  "cleared X ev cfg auth rl msg \<longleftrightarrow>
     (\<exists>payload rl' v. payload_ok ev cfg payload \<and> rates_ok ev auth rl rl'
        \<and> validate_mail_request X payload cfg auth = Inr v
        \<and> build_message X (ev_finish ev) v cfg = Inr msg)"

lemma send_steps_cases:
  obtains (submitted) payload msg w1 w2 where
      "check_payload ops ev cfg auth w = (Inr payload, w)"
      "check_rates ops ev auth w = (Inr (), w1)"
      "build_mail X ops ev cfg auth payload w1 = (Inr msg, w2)"
      "send_steps X ops ev cfg auth w = submit_mail ops ev auth msg w2"
    | (payload) e w1 where "check_payload ops ev cfg auth w = (Inl e, w1)"
      "send_steps X ops ev cfg auth w = (Inl e, w1)"
    | (rates) payload e w1 where "check_payload ops ev cfg auth w = (Inr payload, w)"
      "check_rates ops ev auth w = (Inl e, w1)"
      "send_steps X ops ev cfg auth w = (Inl e, w1)"
    | (build) payload e w1 w2 where "check_payload ops ev cfg auth w = (Inr payload, w)"
      "check_rates ops ev auth w = (Inr (), w1)"
      "build_mail X ops ev cfg auth payload w1 = (Inl e, w2)"
      "send_steps X ops ev cfg auth w = (Inl e, w2)"
proof (cases "check_payload ops ev cfg auth w")
  case (Pair r w0)
  show ?thesis
  proof (cases r)
    case (Inl e)
    with Pair show ?thesis by (intro payload) (simp_all add: send_steps_def)
  next
    case (Inr p)
    then have p: "check_payload ops ev cfg auth w = (Inr p, w)"
      using Pair check_payload_Inr_iff by blast
    obtain r1 w1 where r1: "check_rates ops ev auth w = (r1, w1)"
      by (cases "check_rates ops ev auth w")
    show ?thesis
    proof (cases r1)
      case (Inl e)
      with p r1 show ?thesis by (intro rates) (simp_all add: send_steps_def)
    next
      case (Inr u)
      obtain r2 w2 where r2: "build_mail X ops ev cfg auth p w1 = (r2, w2)"
        by (cases "build_mail X ops ev cfg auth p w1")
      show ?thesis
        using p r1 r2 Inr build submitted
        by (cases r2) (simp_all add: send_steps_def)
    qed
  qed
qed

lemma send_steps_sent:
  assumes "send_steps X ops ev cfg auth w = (res, w')"
  shows "wd_sent w' = wd_sent w \<and> (\<forall>reply. res \<noteq> Inr reply)
    \<or> (\<exists>msg. cleared X ev cfg auth (wd_limiter w) msg \<and> wd_sent w' = msg # wd_sent w
         \<and> (case submit (ev_outcome ev msg) of
              Inl e \<Rightarrow> res = Inl e | Inr _ \<Rightarrow> res = Inr (accepted_reply ev)))"
proof (cases rule: send_steps_cases [of ops ev cfg auth w X])
  case (submitted payload msg w1 w2)
  have "cleared X ev cfg auth (wd_limiter w) msg"
  proof -
    obtain rl' where "rates_ok ev auth (wd_limiter w) rl'"
      using submitted(2) by (auto simp: check_rates_Inr_iff)
    moreover have "payload_ok ev cfg payload" using submitted(1) by (simp add: check_payload_Inr_iff)
    moreover obtain v where "validate_mail_request X payload cfg auth = Inr v"
      "build_message X (ev_finish ev) v cfg = Inr msg"
      using build_mail_Inr_iff [of X ops ev cfg auth payload w1 msg] submitted(3) by auto
    ultimately show ?thesis unfolding cleared_def by blast
  qed
  moreover have "wd_sent w2 = wd_sent w"
    using build_mail_fields(2) [of X ops ev cfg auth payload w1] submitted(3)
      check_rates_sent [of ops ev auth w] submitted(2) by simp
  moreover have "submit_mail ops ev auth msg w2 = (res, w')" using submitted(4) assms by simp
  moreover have "wd_sent w' = msg # wd_sent w2"
    using submit_mail_sent [of ops ev auth msg w2] calculation(3) by simp
  ultimately show ?thesis by (auto simp: submit_mail_def Let_def split: sum.splits)
next
  case (payload e w1)
  then show ?thesis
    using assms check_payload_fields(1) [of ops ev cfg auth w] by auto
next
  case (rates payload e w1)
  then show ?thesis using assms check_rates_sent [of ops ev auth w] by auto
next
  case (build payload e w1 w2)
  then show ?thesis
    using assms check_rates_sent [of ops ev auth w] build_mail_fields(2) [of X ops ev cfg auth payload w1]
    by auto
qed

subsection \<open>The store cannot influence the answer\<close>

definition same_outside :: "'s world \<Rightarrow> 't world \<Rightarrow> bool" where
  "same_outside w w' \<longleftrightarrow> wd_limiter w = wd_limiter w' \<and> wd_sent w = wd_sent w'"

lemma check_payload_result:
  "fst (check_payload ops ev cfg auth w) = fst (check_payload ops' ev cfg auth w')"
  by (simp add: check_payload_def Let_def split: option.split)

lemma check_rates_result:
  "wd_limiter w = wd_limiter w' \<Longrightarrow>
     fst (check_rates ops ev auth w) = fst (check_rates ops' ev auth w')
     \<and> wd_limiter (snd (check_rates ops ev auth w)) = wd_limiter (snd (check_rates ops' ev auth w'))"
  by (simp add: check_rates_def rate_limited_def split: prod.split sum.split)

lemma build_mail_result:
  "fst (build_mail X ops ev cfg auth payload w) = fst (build_mail X ops' ev cfg auth payload w')"
  by (simp add: build_mail_def Let_def split: sum.split)

lemma submit_mail_result:
  "fst (submit_mail ops ev auth msg w) = fst (submit_mail ops' ev auth msg w')"
  by (simp add: submit_mail_def Let_def split: sum.split)

lemma submit_mail_limiter [simp]: "wd_limiter (snd (submit_mail ops ev auth msg w)) = wd_limiter w"
  by (simp add: submit_mail_def submission_started_def Let_def split: sum.split)

lemma then_step_same_outside:
  assumes "fst rw = fst rw'" and "same_outside (snd rw) (snd rw')"
    and "\<And>a w w'. fst rw = Inr a \<Longrightarrow> same_outside w w' \<Longrightarrow>
      fst (f a w) = fst (g a w') \<and> same_outside (snd (f a w)) (snd (g a w'))"
  shows "fst (then_step rw f) = fst (then_step rw' g)
    \<and> same_outside (snd (then_step rw f)) (snd (then_step rw' g))"
  using assms by (cases rw; cases rw'; cases "fst rw") (simp_all add: then_step_def)

lemma send_steps_same_outside:
  assumes "same_outside w w'"
  shows "fst (send_steps X ops ev cfg auth w) = fst (send_steps X ops' ev cfg auth w')
    \<and> same_outside (snd (send_steps X ops ev cfg auth w)) (snd (send_steps X ops' ev cfg auth w'))"
  unfolding send_steps_def
  using assms check_rates_result [of _ _ ops ev auth ops'] build_mail_result [of X ops ev cfg auth _ _ ops']
    submit_mail_result [of ops ev auth _ _ ops']
  by (intro then_step_same_outside) (simp_all add: same_outside_def check_payload_result [of ops _ _ _ _ ops' w'])

lemma put_initial_fields [simp]:
  "wd_limiter (put_initial ops ev cfg auth w) = wd_limiter w"
  "wd_sent (put_initial ops ev cfg auth w) = wd_sent w"
  by (simp_all add: put_initial_def)

lemma send_mail_same_outside:
  assumes "same_outside w w'"
  shows "fst (send_mail X ops ev cfg auth w) = fst (send_mail X ops' ev cfg auth w')
    \<and> same_outside (snd (send_mail X ops ev cfg auth w)) (snd (send_mail X ops' ev cfg auth w'))"
  using send_steps_same_outside [of "put_initial ops ev cfg auth w" "put_initial ops' ev cfg auth w'"
      X ops ev cfg auth ops'] assms
  by (auto simp: send_mail_def same_outside_def split: prod.splits sum.splits)

subsection \<open>The record follows the answer\<close>

text \<open>
  The status and code that the record of an answered request has. The code is that of the
  answer, but for a disabled feature: every failed validation is recorded as one
  (\<open>api/send.rs\<close>, line 128), also when the answer says \<open>feature_disabled\<close>.
\<close>

definition final_status :: "app_error + 'a \<Rightarrow> submission_status" where
  "final_status r =
     (case r of Inr _ \<Rightarrow> SmtpAccepted
      | Inl e \<Rightarrow> if e = SmtpRejected \<or> e = SmtpUnavailable then SmtpFailed else Rejected)"

definition final_code :: "app_error + 'a \<Rightarrow> error_code option" where
  "final_code r =
     (case r of Inr _ \<Rightarrow> None
      | Inl e \<Rightarrow> Some (case e of FeatureDisabled _ \<Rightarrow> Code_ValidationFailed | _ \<Rightarrow> app_error_code e))"

lemma final_answer:
  "final_status (map_sum re_source id res) =
     (case res of Inr _ \<Rightarrow> SmtpAccepted
      | Inl e \<Rightarrow> if re_source e \<in> {SmtpRejected, SmtpUnavailable} then SmtpFailed else Rejected)"
  "final_code (map_sum re_source id res) =
     (case res of Inr _ \<Rightarrow> None
      | Inl e \<Rightarrow> Some (case re_source e of
          FeatureDisabled _ \<Rightarrow> Code_ValidationFailed | other \<Rightarrow> app_error_code other))"
  by (simp_all add: final_status_def final_code_def split: sum.split app_error.split)

lemma final_status_terminal: "is_terminal (final_status r)"
  by (simp add: final_status_def split: sum.split)

context tracking_store
begin

definition record_at ::
  "request_id \<Rightarrow> str \<Rightarrow> time \<Rightarrow> submission_status \<Rightarrow> error_code option \<Rightarrow> 'a world \<Rightarrow> bool" where
  "record_at i k e st co w \<longleftrightarrow>
     ok (wd_store w)
     \<and> (\<exists>r. view (wd_store w) i = Some r \<and> sr_key_id r = k \<and> sr_expires_at r = e
          \<and> sr_status r = st \<and> sr_code r = co)"

text \<open>
  The calls one request makes are covered by the contract, and it is over before its
  record expires.
\<close>

definition calls_ok :: "send_env \<Rightarrow> str \<Rightarrow> time \<Rightarrow> bool" where
  "calls_ok ev key e \<longleftrightarrow>
     (\<forall>n k. ev_clock ev n k < e)
     \<and> (\<forall>n u. valid (Update_Status (ev_clock ev n) (ev_request_id ev) key u))
     \<and> (\<forall>n ds c. valid (Set_Metadata (ev_clock ev n) (ev_request_id ev) key ds c))"

lemma record_at_frames [simp]:
  "record_at i k e st co (w\<lparr>wd_metrics := m\<rparr>) = record_at i k e st co w"
  "record_at i k e st co (w\<lparr>wd_limiter := l\<rparr>) = record_at i k e st co w"
  "record_at i k e st co (w\<lparr>wd_sent := q\<rparr>) = record_at i k e st co w"
  by (simp_all add: record_at_def)

lemma store_after_call:
  "wd_store (store_call (so_update_status ops clk i k u) w)
     = fst (apply_op ops (Update_Status clk i k u) (wd_store w, wd_metrics w))"
  "wd_store (store_call (so_set_recipient_metadata ops clk i k ds n) w)
     = fst (apply_op ops (Set_Metadata clk i k ds n) (wd_store w, wd_metrics w))"
  "wd_store (store_call (so_put_received ops r) w)
     = fst (apply_op ops (Put_Received r) (wd_store w, wd_metrics w))"
  by (simp_all add: with_store_def split: prod.split)

lemma record_at_update:
  assumes "record_at i k e st co w" and "\<not> is_terminal st" and "clk 0 < e"
    and "valid (Update_Status clk i k u)"
  shows "record_at i k e (su_status u) (su_code u) (store_call (so_update_status ops clk i k u) w)"
proof -
  let ?x = "(wd_store w, wd_metrics w)"
  from assms(1) obtain r where ok: "ok (fst ?x)" and r: "view (fst ?x) i = Some r" "sr_key_id r = k"
    "sr_expires_at r = e" "sr_status r = st" by (auto simp: record_at_def)
  with assms(2,3) obtain r' where "view (fst (apply_op ops (Update_Status clk i (sr_key_id r) u) ?x)) i = Some r'"
    "same_identity r r'" "sr_status r' = su_status u" "sr_code r' = su_code u"
    using update_applies [OF ok r(1), of clk u] assms(4) by auto
  with r ok_step [OF ok assms(4)] show ?thesis
    by (auto simp: record_at_def store_after_call same_identity_def simp del: apply_op.simps)
qed

lemma record_at_metadata:
  assumes "record_at i k e st co w" and "valid (Set_Metadata clk i k ds n)"
  shows "record_at i k e st co (store_call (so_set_recipient_metadata ops clk i k ds n) w)"
proof -
  let ?x = "(wd_store w, wd_metrics w)"
  from assms(1) obtain r where ok: "ok (fst ?x)" and r: "view (fst ?x) i = Some r" "sr_key_id r = k"
    "sr_expires_at r = e" "sr_status r = st" "sr_code r = co" by (auto simp: record_at_def)
  then obtain r' where "view (fst (apply_op ops (Set_Metadata clk i (sr_key_id r) ds n) ?x)) i = Some r'"
    "same_identity r r'" "same_outcome r r'"
    using metadata_keeps [OF ok r(1), of clk ds n] assms(2) by blast
  with r ok_step [OF ok assms(2)] show ?thesis
    by (auto simp: record_at_def store_after_call same_identity_def same_outcome_def
        simp del: apply_op.simps)
qed

lemma record_at_put:
  assumes "ok (wd_store w)" and "view (wd_store w) (ev_request_id ev) = None"
    and "valid (Put_Received (new_received (ev_received ev) (ev_request_id ev) (ac_key_id auth)
      (sc_ttl_seconds (cf_status cfg))))"
  shows "record_at (ev_request_id ev) (ac_key_id auth)
    (ev_received ev + ttl_nanos (sc_ttl_seconds (cf_status cfg))) Received None
    (put_initial ops ev cfg auth w)"
proof -
  let ?x = "(wd_store w, wd_metrics w)"
  let ?r = "new_received (ev_received ev) (ev_request_id ev) (ac_key_id auth)
    (sc_ttl_seconds (cf_status cfg))"
  have "view (fst (apply_op ops (Put_Received ?r) ?x)) (sr_request_id ?r) = Some ?r"
    using assms by (intro put_fresh) (simp_all only: fst_conv, simp_all add: new_received_def)
  then show ?thesis
    using ok_step [of ?x "Put_Received ?r"] assms(1,3)
    by (simp add: record_at_def put_initial_def store_after_call new_received_def
        del: apply_op.simps)
qed

text \<open>From a record in state \<open>Received\<close> every path of the handler ends in a terminal one.\<close>

lemma record_at_reject:
  assumes "record_at (ev_request_id ev) (ac_key_id auth) e st co w" and "\<not> is_terminal st"
    and "calls_ok ev (ac_key_id auth) e"
  shows "record_at (ev_request_id ev) (ac_key_id auth) e Rejected (store_code_from_app_error err)
    (reject ops ev auth err w)"
  using record_at_update [OF assms(1,2), of "ev_clock ev 0"
      "\<lparr>su_status = Rejected, su_code = store_code_from_app_error err, su_message = None\<rparr>"] assms(3)
  by (simp add: reject_def calls_ok_def)

lemma record_at_reject':
  assumes "record_at (ev_request_id ev) (ac_key_id auth) e Received None w"
    and "calls_ok ev (ac_key_id auth) e" and "app_error_code err \<noteq> Code_InternalError"
  shows "record_at (ev_request_id ev) (ac_key_id auth) e Rejected (Some (app_error_code err))
    (reject ops ev auth err w)"
  using record_at_reject [OF assms(1) _ assms(2), of err] assms(3)
  by (simp add: store_code_from_app_error_def)

lemma check_payload_record:
  assumes "check_payload ops ev cfg auth w = (Inl err, w1)"
    and "record_at (ev_request_id ev) (ac_key_id auth) e Received None w"
    and "calls_ok ev (ac_key_id auth) e"
  shows "record_at (ev_request_id ev) (ac_key_id auth) e
    (final_status (Inl err)) (final_code (Inl err)) w1"
proof -
  note rej = record_at_reject' [OF assms(2,3)]
  show ?thesis
    using assms(1) rej [of UnsupportedMediaType] rej [of PayloadTooLarge] rej [of BadRequest]
    by (auto simp: check_payload_def Let_def final_status_def final_code_def
        split: if_splits option.splits)
qed

lemma rate_limited_record:
  assumes "rate_limited ops ev auth tier x w = (Inl err, w1)"
    and "record_at (ev_request_id ev) (ac_key_id auth) e Received None w"
    and "calls_ok ev (ac_key_id auth) e"
  shows "record_at (ev_request_id ev) (ac_key_id auth) e
    (final_status (Inl err)) (final_code (Inl err)) w1"
proof -
  let ?w = "on_metrics (\<lambda>m. inc_request ''4xx'' (inc_rate_limited tier m)) w"
  have "record_at (ev_request_id ev) (ac_key_id auth) e Received None ?w" using assms(2) by simp
  from record_at_reject' [OF this assms(3), of "RateLimited None"] assms(1) show ?thesis
    by (auto simp: rate_limited_def final_status_def final_code_def)
qed

lemma check_rates_record:
  assumes "check_rates ops ev auth w = (Inl err, w1)"
    and "record_at (ev_request_id ev) (ac_key_id auth) e Received None w"
    and "calls_ok ev (ac_key_id auth) e"
  shows "record_at (ev_request_id ev) (ac_key_id auth) e
    (final_status (Inl err)) (final_code (Inl err)) w1"
proof -
  from assms(1) obtain tier x rl where
    "rate_limited ops ev auth tier x (w\<lparr>wd_limiter := rl\<rparr>) = (Inl err, w1)"
    by (auto simp: check_rates_def split: prod.splits sum.splits)
  from rate_limited_record [OF this _ assms(3)] assms(2) show ?thesis by simp
qed

lemma build_mail_record:
  assumes "build_mail X ops ev cfg auth payload w = (res, w1)"
    and "record_at (ev_request_id ev) (ac_key_id auth) e Received None w"
    and "calls_ok ev (ac_key_id auth) e"
  shows "case res of
      Inl err \<Rightarrow> record_at (ev_request_id ev) (ac_key_id auth) e
        (final_status (Inl err)) (final_code (Inl err)) w1
    | Inr msg \<Rightarrow> record_at (ev_request_id ev) (ac_key_id auth) e Received None w1"
proof (cases "validate_mail_request X payload cfg auth")
  case (Inl err)
  let ?w = "on_metrics (\<lambda>m. inc_request ''4xx'' (inc_validation_failure ''request'' m)) w"
  have w: "record_at (ev_request_id ev) (ac_key_id auth) e Received None ?w" using assms(2) by simp
  have "client_fault err" using faults_only_validate [of X payload cfg auth] Inl by (simp add: faults_only_def)
  with record_at_reject' [OF w assms(3), of "Validation []"] assms(1) Inl show ?thesis
    by (auto simp: build_mail_def client_fault_def final_status_def final_code_def)
next
  case (Inr v)
  define w2 where "w2 = store_call (so_set_recipient_metadata ops (ev_clock ev 1) (ev_request_id ev)
    (ac_key_id auth) (recipient_domains_from X (vm_to v) (vm_cc v))
    (of_nat (length (vm_to v) + length (vm_cc v)))) w"
  have w2: "record_at (ev_request_id ev) (ac_key_id auth) e Received None w2"
    unfolding w2_def using assms(3) by (intro record_at_metadata [OF assms(2)]) (simp add: calls_ok_def)
  show ?thesis
  proof (cases "build_message X (ev_finish ev) v cfg")
    case (Inr msg)
    then have "res = Inr msg \<and> w1 = w2"
      using assms(1) \<open>validate_mail_request X payload cfg auth = Inr v\<close>
      by (simp add: build_mail_def Let_def w2_def)
    with w2 show ?thesis by simp
  next
    case (Inl err)
    then have "err = Internal" by (rule build_message_Inl)
    with Inl have "res = Inl Internal \<and> w1 = on_metrics (inc_request ''5xx'')
        (store_call (so_update_status ops (ev_clock ev 2) (ev_request_id ev) (ac_key_id auth)
           \<lparr>su_status = Rejected, su_code = Some Code_InternalError,
            su_message = Some ''Failed to build mail message.''\<rparr>) w2)"
      using assms(1) \<open>validate_mail_request X payload cfg auth = Inr v\<close>
      by (simp add: build_mail_def Let_def w2_def)
    then show ?thesis
      using assms(3) record_at_update [OF w2, of "ev_clock ev 2" "\<lparr>su_status = Rejected,
        su_code = Some Code_InternalError, su_message = Some ''Failed to build mail message.''\<rparr>"]
      by (simp add: final_status_def final_code_def calls_ok_def)
  qed
qed

lemma submit_mail_record:
  assumes "submit_mail ops ev auth msg w = (res, w1)"
    and "record_at (ev_request_id ev) (ac_key_id auth) e Received None w"
    and "calls_ok ev (ac_key_id auth) e"
  shows "record_at (ev_request_id ev) (ac_key_id auth) e (final_status res) (final_code res) w1"
proof -
  let ?rec = "record_at (ev_request_id ev) (ac_key_id auth) e"
  let ?w2 = "(submission_started ops ev auth w)\<lparr>wd_sent := msg # wd_sent w\<rparr>"
  have "?rec SmtpSubmissionStarted None ?w2"
    using record_at_update [OF assms(2), of "ev_clock ev 3" "\<lparr>su_status = SmtpSubmissionStarted,
        su_code = None, su_message = None\<rparr>"] assms(3) by (simp add: submission_started_def calls_ok_def)
  then have upd: "?rec (su_status u) (su_code u) (store_call (so_update_status ops (ev_clock ev 4)
      (ev_request_id ev) (ac_key_id auth) u) (on_metrics f ?w2))" for u f
    using assms(3) by (intro record_at_update) (auto simp: calls_ok_def)
  show ?thesis
  proof (cases "submit (ev_outcome ev msg)")
    case (Inr u)
    with assms(1) upd [of "\<lparr>su_status = SmtpAccepted, su_code = None,
        su_message = Some ''The message was accepted by the configured SMTP server.''\<rparr>"
        "\<lambda>m. inc_request ''2xx'' (inc_smtp_ok m)"]
    show ?thesis by (auto simp: submit_mail_def Let_def final_status_def final_code_def)
  next
    case (Inl err)
    with assms(1) submit_Inl [OF Inl] upd [of "\<lparr>su_status = SmtpFailed,
        su_code = Some (smtp_error_code err), su_message = None\<rparr>"
        "\<lambda>m. inc_request ''5xx'' (inc_smtp_error m)"]
    show ?thesis
      by (auto simp: submit_mail_def Let_def final_status_def final_code_def smtp_error_code_def)
  qed
qed

lemma send_steps_record:
  assumes "send_steps X ops ev cfg auth w = (res, w')"
    and "record_at (ev_request_id ev) (ac_key_id auth) e Received None w"
    and "calls_ok ev (ac_key_id auth) e"
  shows "record_at (ev_request_id ev) (ac_key_id auth) e (final_status res) (final_code res) w'"
proof (cases rule: send_steps_cases [of ops ev cfg auth w X])
  case (submitted payload msg w1 w2)
  have "record_at (ev_request_id ev) (ac_key_id auth) e Received None w1"
    using submitted(2) assms(2) by (auto simp: check_rates_Inr_iff)
  then have "record_at (ev_request_id ev) (ac_key_id auth) e Received None w2"
    using build_mail_record [OF submitted(3) _ assms(3)] by simp
  then show ?thesis
    using submit_mail_record [OF _ _ assms(3)] submitted(4) assms(1) by simp
next
  case (payload err w1)
  then show ?thesis using check_payload_record [OF _ assms(2,3)] assms(1) by auto
next
  case (rates p err w1)
  then show ?thesis using check_rates_record [OF _ assms(2,3)] assms(1) by auto
next
  case (build p err w1 w2)
  have "record_at (ev_request_id ev) (ac_key_id auth) e Received None w1"
    using build(2) assms(2) by (auto simp: check_rates_Inr_iff)
  then show ?thesis
    using build_mail_record [OF build(3) _ assms(3)] build(4) assms(1) by simp
qed

lemma send_mail_record:
  assumes "ok (wd_store w)" and "view (wd_store w) (ev_request_id ev) = None"
    and "calls_ok ev (ac_key_id auth) (ev_received ev + ttl_nanos (sc_ttl_seconds (cf_status cfg)))"
    and "valid (Put_Received (new_received (ev_received ev) (ev_request_id ev) (ac_key_id auth)
      (sc_ttl_seconds (cf_status cfg))))"
    and "send_mail X ops ev cfg auth w = (res, w')"
  shows "ok (wd_store w') \<and> (\<exists>r. view (wd_store w') (ev_request_id ev) = Some r
    \<and> sr_key_id r = ac_key_id auth
    \<and> sr_expires_at r = ev_received ev + ttl_nanos (sc_ttl_seconds (cf_status cfg))
    \<and> sr_status r = final_status (map_sum re_source id res)
    \<and> sr_code r = final_code (map_sum re_source id res))"
proof -
  obtain res0 where steps: "send_steps X ops ev cfg auth (put_initial ops ev cfg auth w) = (res0, w')"
    and res: "map_sum re_source id res = res0"
    using assms(5)
    by (auto simp: send_mail_def request_err_def split: prod.splits sum.splits)
  from send_steps_record [OF steps record_at_put [OF assms(1,2,4)] assms(3)] show ?thesis
    by (simp add: record_at_def res)
qed

end

end
