(* ===== verification/Send_Claims.thy ===== *)
theory Send_Claims
  imports Send_Props Status_Memory_Claims Rate_Limit_Claims
begin

text \<open>
  The properties of the send handler and of the messages it builds: when mail leaves the
  server, to whom and from whom, what the stored record says afterwards, and that the
  status store cannot influence the answer.
\<close>

subsection \<open>A request that goes through\<close>

definition example_env :: send_env where
  "example_env =
     \<lparr>ev_request_id = ''req_1'', ev_content_type = Some ''application/json'', ev_body_len = 100,
      ev_json = Some example_request, ev_received = 0, ev_clock = (\<lambda>_ _. 0),
      ev_instant = (\<lambda>_. 0), ev_finish = (\<lambda>_. True), ev_outcome = (\<lambda>_. Sent)\<rparr>"

definition example_world :: "memory_store world" where
  "example_world =
     \<lparr>wd_store = memory_new default_status_config,
      wd_limiter = limiter_new default_rate_limit_config 0,
      wd_metrics = metrics_new, wd_sent = []\<rparr>"

definition example_message :: message where
  "example_message =
     \<lparr>mg_from = (Some ''Bob'', ''noreply@example.com''), mg_to = [(None, ''alice@example.com'')],
      mg_subject = ''Hello'', mg_cc = [], mg_reply_to = [], mg_body = Text_Body ''Hi''\<rparr>"

lemma example_build:
  "build_message example_externals (\<lambda>_. True) (validated_of example_externals example_request)
     example_config = Inr example_message"
  by (simp add: build_message_def Let_def validated_of_def example_request_def
      default_mail_config_def example_parse_address_def compose_body_def example_message_def)

lemma send_mail_state:
  "snd (send_mail X ops ev cfg auth w) = snd (send_steps X ops ev cfg auth (put_initial ops ev cfg auth w))"
  by (simp add: send_mail_def split: prod.split sum.split)

lemma new_bucket_accepts:
  "0 < burst \<Longrightarrow> fst (try_consume t (bucket_new pm burst t)) = Inr ()"
proof -
  assume "0 < burst"
  then have "1 \<le> unat burst" by (simp add: Suc_le_eq unat_gt_0)
  then have "of_nat 1 \<le> (of_nat (unat burst) :: rat)" by (simp only: of_nat_le_iff)
  then show ?thesis by (simp only: try_consume_accepts bucket_new_level of_nat_1)
qed

lemma example_rates: "\<exists>rl'. rates_ok example_env example_auth (limiter_new cfg 0) rl'"
proof -
  let ?rl = "limiter_new cfg 0"
  let ?rl1 = "snd (check_global 0 ?rl)"
  let ?rl2 = "snd (check_ip 0 0 localhost_v4 ?rl1)"
  have "fst (check_global 0 ?rl) = Inr ()"
    by (simp add: check_global_split new_bucket_accepts limiter_new_def effective_bursts_positive)
  moreover have "fst (check_ip 0 0 localhost_v4 ?rl1) = Inr ()"
    by (simp add: check_ip_split check_global_split new_bucket_accepts limiter_new_def lru_new_def
        effective_bursts_positive)
  moreover have "fst (check_key 0 0 ''svc-a'' None 0 ?rl2) = Inr ()"
    by (simp add: check_key_split check_ip_split check_global_split new_bucket_accepts
        limiter_new_def effective_bursts_positive)
  ultimately show ?thesis
    unfolding rates_ok_def example_env_def example_auth_def
    by (intro exI [of _ "snd (check_key 0 0 ''svc-a'' None 0 ?rl2)"] exI [of _ ?rl1] exI [of _ ?rl2])
       (simp add: prod_eq_iff)
qed

lemma example_cleared:
  "cleared example_externals example_env example_config example_auth (wd_limiter example_world)
     example_message"
proof -
  obtain rl' where "rates_ok example_env example_auth (wd_limiter example_world) rl'"
    using example_rates by (auto simp: example_world_def)
  moreover have "payload_ok example_env example_config example_request"
    by (simp add: payload_ok_def example_env_def starts_with_def default_server_config_def)
  moreover have "ev_finish example_env = (\<lambda>_. True)" by (simp add: example_env_def)
  ultimately show ?thesis
    using example_request_acceptable example_build
    unfolding cleared_def by (metis validate_mail_request_Inr_iff)
qed

subsection \<open>When mail leaves the server\<close>

lemma cleared_submits:
  assumes "cleared X ev cfg auth (wd_limiter w) msg"
  shows "\<exists>w2. send_steps X ops ev cfg auth w = submit_mail ops ev auth msg w2"
proof -
  from assms obtain payload rl' v where p: "payload_ok ev cfg payload"
    and r: "rates_ok ev auth (wd_limiter w) rl'"
    and v: "validate_mail_request X payload cfg auth = Inr v"
    and b: "build_message X (ev_finish ev) v cfg = Inr msg"
    by (auto simp: cleared_def)
  have "check_payload ops ev cfg auth w = (Inr payload, w)" using p by (simp add: check_payload_Inr_iff)
  moreover have "check_rates ops ev auth w = (Inr (), w\<lparr>wd_limiter := rl'\<rparr>)"
    using r by (auto simp: check_rates_Inr_iff)
  moreover obtain w2 where "build_mail X ops ev cfg auth payload (w\<lparr>wd_limiter := rl'\<rparr>) = (Inr msg, w2)"
    using build_mail_Inr_iff [of X ops ev cfg auth payload "w\<lparr>wd_limiter := rl'\<rparr>" msg] v b
    by (metis prod.collapse)
  ultimately show ?thesis by (auto simp: send_steps_def)
qed

lemma send_steps_Inr:
  assumes "send_steps X ops ev cfg auth w = (Inr reply, w')"
  shows "reply = accepted_reply ev
    \<and> (\<exists>msg. cleared X ev cfg auth (wd_limiter w) msg \<and> ev_outcome ev msg = Sent)"
proof -
  from send_steps_sent [OF assms] obtain msg where
    msg: "cleared X ev cfg auth (wd_limiter w) msg"
      "case submit (ev_outcome ev msg) of
         Inl e \<Rightarrow> Inr reply = Inl e | Inr _ \<Rightarrow> Inr reply = (Inr (accepted_reply ev) :: app_error + http_reply)"
    by auto
  then obtain u where "submit (ev_outcome ev msg) = Inr u"
    by (cases "submit (ev_outcome ev msg)") auto
  with msg show ?thesis by (auto simp: submit_Inr_iff)
qed

lemma send_mail_accepted_iff:
  "(\<exists>reply. fst (send_mail X ops ev cfg auth w) = Inr reply) \<longleftrightarrow>
     (\<exists>msg. cleared X ev cfg auth (wd_limiter w) msg \<and> ev_outcome ev msg = Sent)"
proof -
  let ?w = "put_initial ops ev cfg auth w"
  have "(\<exists>reply. fst (send_mail X ops ev cfg auth w) = Inr reply) \<longleftrightarrow>
      (\<exists>reply. fst (send_steps X ops ev cfg auth ?w) = Inr reply)"
    by (simp add: send_mail_def split: prod.split sum.split)
  also have "\<dots> \<longleftrightarrow> (\<exists>msg. cleared X ev cfg auth (wd_limiter w) msg \<and> ev_outcome ev msg = Sent)"
  proof
    assume "\<exists>reply. fst (send_steps X ops ev cfg auth ?w) = Inr reply"
    then obtain reply w' where "send_steps X ops ev cfg auth ?w = (Inr reply, w')"
      by (metis prod.collapse)
    from send_steps_Inr [OF this] show "\<exists>msg. cleared X ev cfg auth (wd_limiter w) msg \<and> ev_outcome ev msg = Sent"
      by simp
  next
    assume "\<exists>msg. cleared X ev cfg auth (wd_limiter w) msg \<and> ev_outcome ev msg = Sent"
    then obtain msg where "cleared X ev cfg auth (wd_limiter ?w) msg" "ev_outcome ev msg = Sent" by auto
    with cleared_submits [OF this(1), of ops]
    show "\<exists>reply. fst (send_steps X ops ev cfg auth ?w) = Inr reply"
      by (auto simp: submit_mail_def Let_def submit_def)
  qed
  finally show ?thesis .
qed

text \<open>C9: The answer is 202 exactly when the content type is JSON, the body is within the limit and
  parses, the three rate tiers let the request through, validation accepts it, the message
  builds, and the transport reports it sent; the answer then carries the request's own id.\<close>

theorem send_accepts_exactly:
  "fst (send_mail X ops ev cfg auth w) = Inr reply \<longleftrightarrow>
     reply = accepted_reply ev
     \<and> (\<exists>msg. cleared X ev cfg auth (wd_limiter w) msg \<and> ev_outcome ev msg = Sent)"
proof -
  have "reply = accepted_reply ev" if "fst (send_mail X ops ev cfg auth w) = Inr reply" for reply
  proof -
    have "fst (send_steps X ops ev cfg auth (put_initial ops ev cfg auth w)) = Inr reply"
      using that by (auto simp: send_mail_def split: prod.splits sum.splits)
    then obtain w' where "send_steps X ops ev cfg auth (put_initial ops ev cfg auth w) = (Inr reply, w')"
      by (metis prod.collapse)
    from send_steps_Inr [OF this] show ?thesis by simp
  qed
  then show ?thesis using send_mail_accepted_iff [of X ops ev cfg auth w] by blast
qed

text \<open>C10: Mail leaves the server only for a request that has passed every check: the handler hands
  at most one message to the transport, that message has passed the payload checks, the
  rate tiers, validation and construction, and each of its To and Cc mailboxes is parsed
  from an address, ASCII or not, whose domain in (Unicode) lowercase the server's allowlist
  permits, and which the key's lists permit where the key is configured.\<close>

theorem send_only_permitted_mail:
  assumes "wd_sent (snd (send_mail X ops ev cfg auth w)) \<noteq> wd_sent w"
  shows "\<exists>msg tos ccs. wd_sent (snd (send_mail X ops ev cfg auth w)) = msg # wd_sent w
    \<and> cleared X ev cfg auth (wd_limiter w) msg
    \<and> List.map Some (mg_to msg) = List.map (x_parse_mailbox X) tos
    \<and> List.map Some (mg_cc msg) = List.map (x_parse_mailbox X) ccs
    \<and> (\<forall>a \<in> set tos \<union> set ccs. \<exists>l d. a = l @ CHR ''@'' # d \<and> CHR ''@'' \<notin> set d
         \<and> domain_permitted_globally cfg (x_to_lowercase X d)
         \<and> (\<forall>k. find_key cfg (ac_key_id auth) = Some k \<longrightarrow>
              address_permitted_for_key k a \<and> domain_permitted_for_key k (x_to_lowercase X d)))"
proof -
  let ?w = "put_initial ops ev cfg auth w"
  obtain res w' where st: "send_steps X ops ev cfg auth ?w = (res, w')"
    by (cases "send_steps X ops ev cfg auth ?w")
  then have sent: "wd_sent (snd (send_mail X ops ev cfg auth w)) = wd_sent w'"
    by (simp add: send_mail_def split: sum.split)
  with send_steps_sent [OF st] assms(1) obtain msg where
    m: "cleared X ev cfg auth (wd_limiter w) msg" "wd_sent w' = msg # wd_sent w" by auto
  then obtain payload v where p: "payload_ok ev cfg payload"
    and v: "validate_mail_request X payload cfg auth = Inr v"
    and b: "build_message X (ev_finish ev) v cfg = Inr msg"
    by (auto simp: cleared_def)
  note permitted = conjunct2 [OF validated_recipient_policy [OF v]]
  from m sent build_message_Inr(3,4) [OF b] permitted show ?thesis
    by (intro exI [of _ msg] exI [of _ "vm_to v"] exI [of _ "vm_cc v"]) simp
qed

theorem send_only_permitted_mail_witness:
  "\<exists>tos. List.map Some (mg_to example_message) = List.map (x_parse_mailbox example_externals) tos
     \<and> (\<forall>a\<in>set tos. \<exists>l d. a = l @ CHR ''@'' # d \<and> domain_permitted_for_key key_a (x_to_lowercase example_externals d))"
proof -
  obtain w2 where st: "send_steps example_externals (memory_ops (\<lambda>xs. xs)) example_env example_config
      example_auth (put_initial (memory_ops (\<lambda>xs. xs)) example_env example_config example_auth example_world)
      = submit_mail (memory_ops (\<lambda>xs. xs)) example_env example_auth example_message w2"
    using cleared_submits [of example_externals example_env example_config example_auth
        "put_initial (memory_ops (\<lambda>xs. xs)) example_env example_config example_auth example_world"]
      example_cleared by auto
  have sent: "wd_sent (snd (send_mail example_externals (memory_ops (\<lambda>xs. xs)) example_env example_config
      example_auth example_world)) = example_message # wd_sent w2"
    using submit_mail_sent [of "memory_ops (\<lambda>xs. xs)" example_env example_auth example_message w2]
    by (simp only: send_mail_state st)
  then have "wd_sent (snd (send_mail example_externals (memory_ops (\<lambda>xs. xs)) example_env example_config
      example_auth example_world)) \<noteq> wd_sent example_world"
    by (simp add: example_world_def)
  note ne = this
  obtain msg tos where m: "example_message # wd_sent w2 = msg # wd_sent example_world"
    "List.map Some (mg_to msg) = List.map (x_parse_mailbox example_externals) tos"
    "\<And>a. a \<in> set tos \<Longrightarrow> \<exists>l d. a = l @ CHR ''@'' # d
       \<and> (\<forall>k. find_key example_config (ac_key_id example_auth) = Some k \<longrightarrow>
            domain_permitted_for_key k (x_to_lowercase example_externals d))"
    using send_only_permitted_mail [OF ne] unfolding sent by blast
  have "find_key example_config (ac_key_id example_auth) = Some key_a"
    by (simp add: find_key_def example_auth_def)
  with m show ?thesis by (intro exI [of _ tos]) auto
qed

text \<open>C11: The sender cannot be forged: every message is built with the configured default sender
  as its From address, the display name of the request or else the configured one, the
  subject and the parsed recipients of the validated request in their order, and the
  attachments' bytes unchanged.\<close>

theorem message_is_faithful:
  assumes "build_message X finish v config = Inr msg"
  shows "x_parse_address X (ml_default_from (cf_mail config)) = Some (snd (mg_from msg))
    \<and> fst (mg_from msg) = (case vm_from_name v of Some n \<Rightarrow> Some n
         | None \<Rightarrow> ml_default_from_name (cf_mail config))
    \<and> mg_subject msg = vm_subject v
    \<and> List.map Some (mg_to msg) = List.map (x_parse_mailbox X) (vm_to v)
    \<and> List.map Some (mg_cc msg) = List.map (x_parse_mailbox X) (vm_cc v)
    \<and> List.map Some (mg_reply_to msg) = List.map (x_parse_mailbox X) (vm_reply_to v)
    \<and> (vm_attachments v \<noteq> [] \<longrightarrow> (\<exists>cts. length cts = length (vm_attachments v)
          \<and> mg_body msg = Multipart (Mixed (body_part v #
              map2 (\<lambda>a ct. Attached (va_filename a) ct (va_decoded a)) (vm_attachments v) cts))))"
proof -
  note b = build_message_Inr [OF assms]
  have "\<exists>cts. length cts = length (vm_attachments v)
      \<and> mg_body msg = Multipart (Mixed (body_part v #
          map2 (\<lambda>a ct. Attached (va_filename a) ct (va_decoded a)) (vm_attachments v) cts))"
    if "vm_attachments v \<noteq> []"
  proof -
    from b(7) that obtain ps where "attachment_parts X (vm_attachments v) = Inr ps"
      "mg_body msg = Multipart (Mixed (body_part v # ps))"
      by (auto simp: compose_body_def and_then_Inr_iff split: if_splits)
    then obtain cts where cts: "List.map (\<lambda>a. x_parse_content_type X (va_content_type a)) (vm_attachments v)
        = List.map Some cts"
      "mg_body msg = Multipart (Mixed (body_part v #
          map2 (\<lambda>a ct. Attached (va_filename a) ct (va_decoded a)) (vm_attachments v) cts))"
      by (auto simp: attachment_parts_Inr_iff)
    have "length cts = length (vm_attachments v)" using map_eq_imp_length_eq [OF cts(1)] by simp
    with cts(2) show ?thesis by blast
  qed
  with b show ?thesis by simp
qed

theorem message_is_faithful_witness:
  "x_parse_address example_externals (ml_default_from (cf_mail example_config))
     = Some (snd (mg_from example_message))"
  using message_is_faithful [OF example_build] by blast

subsection \<open>The record and the answer\<close>

text \<open>C12: With the in-memory store every request whose id was not known before, handled on its own,
  ends with a record of the asking key in a terminal state that matches the answer: accepted
  for a 202, failed for an SMTP error, rejected for every other error, and with the error's
  code, except that a disabled feature, answered with feature_disabled, is recorded as
  validation_failed (as long as the record does not expire while the handler runs).\<close>

theorem send_record_matches_answer:
  assumes "memory_ok (wd_store w)" and "hm_get (ms_records (wd_store w)) (ev_request_id ev) = None"
    and "\<And>n k. ev_clock ev n k < ev_received ev + ttl_nanos (sc_ttl_seconds (cf_status cfg))"
    and "send_mail X (memory_ops it) ev cfg auth w = (res, w')"
  shows "\<exists>r. hm_get (ms_records (wd_store w')) (ev_request_id ev) = Some r
    \<and> sr_key_id r = ac_key_id auth \<and> is_terminal (sr_status r)
    \<and> (case res of
         Inr _ \<Rightarrow> sr_status r = SmtpAccepted \<and> sr_code r = None
       | Inl e \<Rightarrow>
           sr_status r = (if re_source e \<in> {SmtpRejected, SmtpUnavailable} then SmtpFailed else Rejected)
           \<and> sr_code r = Some (case re_source e of
                FeatureDisabled _ \<Rightarrow> Code_ValidationFailed | other \<Rightarrow> app_error_code other))"
proof -
  have "tracking_store.calls_ok (\<lambda>_. True) ev (ac_key_id auth)
      (ev_received ev + ttl_nanos (sc_ttl_seconds (cf_status cfg)))"
    using assms(3) by (simp add: tracking_store.calls_ok_def [OF mem.tracking_store_axioms])
  from tracking_store.send_mail_record [OF mem.tracking_store_axioms assms(1,2) this _ assms(4)]
  obtain r where "hm_get (ms_records (wd_store w')) (ev_request_id ev) = Some r" "sr_key_id r = ac_key_id auth"
    "sr_status r = final_status (map_sum re_source id res)" "sr_code r = final_code (map_sum re_source id res)"
    by blast
  with final_status_terminal [of "map_sum re_source id res"] show ?thesis
    by (intro exI [of _ r]) (auto simp: final_answer split: sum.split)
qed

theorem send_record_matches_answer_witness:
  "\<exists>r. hm_get (ms_records (wd_store (snd (send_mail example_externals (memory_ops (\<lambda>xs. xs))
      example_env example_config example_auth example_world)))) ''req_1'' = Some r
    \<and> is_terminal (sr_status r)"
proof -
  obtain res w' where run: "send_mail example_externals (memory_ops (\<lambda>xs. xs)) example_env
      example_config example_auth example_world = (res, w')"
    by (rule prod.exhaust)
  have "memory_ok (wd_store example_world)"
    "hm_get (ms_records (wd_store example_world)) (ev_request_id example_env) = None"
    by (simp_all add: example_world_def) (simp add: memory_new_def)
  from send_record_matches_answer [OF this _ run] run show ?thesis
    by (auto simp: example_env_def default_status_config_def ttl_nanos_def)
qed

text \<open>C22: The status store is best effort: two servers with any two stores, in any states and with
  any failures, give the same answer to a request, leave the same rate limiter and hand
  the same messages to the transport.\<close>

theorem send_ignores_store:
  assumes "wd_limiter w = wd_limiter w'" and "wd_sent w = wd_sent w'"
  shows "fst (send_mail X ops ev cfg auth w) = fst (send_mail X ops' ev cfg auth w')
    \<and> wd_limiter (snd (send_mail X ops ev cfg auth w)) = wd_limiter (snd (send_mail X ops' ev cfg auth w'))
    \<and> wd_sent (snd (send_mail X ops ev cfg auth w)) = wd_sent (snd (send_mail X ops' ev cfg auth w'))"
  using send_mail_same_outside [of w w' X ops ev cfg auth ops'] assms
  by (simp add: same_outside_def)

theorem send_ignores_store_witness:
  "fst (send_mail example_externals (memory_ops (\<lambda>xs. xs)) example_env example_config example_auth
       example_world)
   = fst (send_mail example_externals noop_ops example_env example_config example_auth
       \<lparr>wd_store = (), wd_limiter = wd_limiter example_world, wd_metrics = metrics_new, wd_sent = []\<rparr>)"
  by (rule conjunct1 [OF send_ignores_store]) (simp_all add: example_world_def)

end
