(* ===== verification/Send_Bulk.thy ===== *)
theory Send_Bulk
  imports Send
begin

text \<open>
  \<open>api/send_bulk.rs\<close>: the handler of \<open>POST /v1/send-bulk\<close>. Phase 1 rate-limits, validates
  and builds the messages one after the other. Phase 2 submits them in concurrent tasks
  under a semaphore: a task runs in two atomic segments, up to the transfer and after it,
  and a schedule says in which order the segments of the tasks happen. The results are
  collected in the order of completion and sorted by index.
\<close>

subsection \<open>Types\<close>

record message_result =
  br_index :: nat
  br_request_id :: str
  br_status :: str
  br_code :: "str option"
  br_message :: "str option"

record prepared_message =
  pm_index :: nat
  pm_req_id :: request_id
  pm_key_id :: str
  pm_message :: message
  pm_recipient_domain :: str
  pm_effective_mask :: bool

text \<open>
  What comes from outside, for each index: the generated request id, the readings of the
  clocks, the outcome of the transfer (over SMTP or through the pipe) and its duration.
\<close>

record bulk_env =
  be_ids :: "nat \<Rightarrow> request_id"
  be_received :: "nat \<Rightarrow> time"
  be_clock :: "nat \<Rightarrow> nat \<Rightarrow> clock"
  be_instant :: "nat \<Rightarrow> nat \<Rightarrow> instant"
  be_finish :: "message \<Rightarrow> bool"
  be_outcome :: "nat \<Rightarrow> send_outcome"
  be_pipe :: "nat \<Rightarrow> pipe_run"
  be_duration :: "nat \<Rightarrow> nat"

subsection \<open>Helpers\<close>

definition bulk_update ::
  "'s status_ops \<Rightarrow> clock \<Rightarrow> request_id \<Rightarrow> str \<Rightarrow> submission_status \<Rightarrow> error_code option \<Rightarrow>
     str \<Rightarrow> 's world \<Rightarrow> 's world" where
  "bulk_update ops clk rid key status code msg w =
     store_call (so_update_status ops clk rid key
       \<lparr>su_status = status, su_code = code, su_message = Some msg\<rparr>) w"

definition store_rejected ::
  "'s status_ops \<Rightarrow> time \<Rightarrow> clock \<Rightarrow> request_id \<Rightarrow> str \<Rightarrow> error_code \<Rightarrow> str \<Rightarrow> u64 \<Rightarrow>
     's world \<Rightarrow> 's world" where
  "store_rejected ops now clk req_id key_id code msg ttl w =
     bulk_update ops clk req_id key_id Rejected (Some code) msg
       (store_call (so_put_received ops (new_received now req_id key_id ttl)) w)"

definition rejected_result :: "nat \<Rightarrow> request_id \<Rightarrow> error_code \<Rightarrow> str \<Rightarrow> message_result" where
  "rejected_result index req_id code message =
     \<lparr>br_index = index, br_request_id = req_id, br_status = ''rejected'',
      br_code = Some (code_as_str code), br_message = Some message\<rparr>"

fun apperr_to_code :: "app_error \<Rightarrow> error_code" where
  "apperr_to_code (Validation _) = Code_ValidationFailed"
| "apperr_to_code BadRequest = Code_BadRequest"
| "apperr_to_code PayloadTooLarge = Code_PayloadTooLarge"
| "apperr_to_code UnsupportedMediaType = Code_UnsupportedMediaType"
| "apperr_to_code (RateLimited _) = Code_RateLimited"
| "apperr_to_code Forbidden = Code_Forbidden"
| "apperr_to_code SmtpUnavailable = Code_SmtpUnavailable"
| "apperr_to_code Unauthorized = Code_InternalError"
| "apperr_to_code SmtpRejected = Code_InternalError"
| "apperr_to_code (FeatureDisabled _) = Code_InternalError"
| "apperr_to_code Internal = Code_InternalError"

subsection \<open>Phase 1\<close>

definition bulk_rate_limited ::
  "'s status_ops \<Rightarrow> bulk_env \<Rightarrow> app_config \<Rightarrow> auth_context \<Rightarrow> nat \<Rightarrow> str \<Rightarrow> str \<Rightarrow> 's world \<Rightarrow>
     (message_result + unit) \<times> 's world" where
  "bulk_rate_limited ops be cfg auth index tier msg w =
     (Inl (rejected_result index (be_ids be index) Code_RateLimited msg),
      store_rejected ops (be_received be index) (be_clock be index 0) (be_ids be index)
        (ac_key_id auth) Code_RateLimited msg (sc_ttl_seconds (cf_status cfg))
        (on_metrics (inc_rate_limited tier) w))"

definition bulk_rates ::
  "'s status_ops \<Rightarrow> bulk_env \<Rightarrow> app_config \<Rightarrow> auth_context \<Rightarrow> nat \<Rightarrow> 's world \<Rightarrow>
     (message_result + unit) \<times> 's world" where
  "bulk_rates ops be cfg auth index w =
     (case check_global (be_instant be index 0) (wd_limiter w) of
        (Inl e, rl) \<Rightarrow> bulk_rate_limited ops be cfg auth index ''global''
                         ''Global rate limit exceeded.'' (w\<lparr>wd_limiter := rl\<rparr>)
      | (Inr _, rl) \<Rightarrow>
          (case check_ip (be_instant be index 1) (be_instant be index 2) (ac_client_ip auth) rl of
             (Inl e, rl) \<Rightarrow> bulk_rate_limited ops be cfg auth index ''ip''
                              ''IP rate limit exceeded.'' (w\<lparr>wd_limiter := rl\<rparr>)
           | (Inr _, rl) \<Rightarrow>
               (case check_key (be_instant be index 3) (be_instant be index 4) (ac_key_id auth)
                       (ac_key_rate_limit_per_min auth) (ac_key_burst auth) rl of
                  (Inl e, rl) \<Rightarrow> bulk_rate_limited ops be cfg auth index ''key''
                                   ''Per-key rate limit exceeded.'' (w\<lparr>wd_limiter := rl\<rparr>)
                | (Inr _, rl) \<Rightarrow> (Inr (), w\<lparr>wd_limiter := rl\<rparr>))))"

text \<open>\<open>a.split('@').nth(1)\<close> of the first recipient, for the log.\<close>

definition recipient_domain_of :: "str list \<Rightarrow> str" where
  "recipient_domain_of to =
     (case to of
        [] \<Rightarrow> ''unknown''
      | a # _ \<Rightarrow> (case split_on (CHR ''@'') a of _ # d # _ \<Rightarrow> d | _ \<Rightarrow> ''unknown''))"

definition effective_mask :: "app_config \<Rightarrow> auth_context \<Rightarrow> bool" where
  "effective_mask cfg auth =
     (case Option.bind (find_key cfg (ac_key_id auth)) ak_mask_recipient of
        Some b \<Rightarrow> b | None \<Rightarrow> lg_mask_recipient (cf_logging cfg))"

definition bulk_build ::
  "externals \<Rightarrow> 's status_ops \<Rightarrow> bulk_env \<Rightarrow> app_config \<Rightarrow> auth_context \<Rightarrow> nat \<Rightarrow>
     mail_request \<Rightarrow> 's world \<Rightarrow> (message_result + prepared_message) \<times> 's world" where
  "bulk_build X ops be cfg auth index raw_msg w =
     (let rid = be_ids be index; key = ac_key_id auth in
      case validate_mail_request X raw_msg cfg auth of
        Inl e \<Rightarrow>
          (Inl (rejected_result index rid (apperr_to_code e) (app_error_display e)),
           bulk_update ops (be_clock be index 1) rid key Rejected (Some (apperr_to_code e))
             ''Request rejected during validation.''
             (on_metrics (inc_validation_failure ''request'') w))
      | Inr validated \<Rightarrow>
          (let domains = recipient_domains_from X (vm_to validated) (vm_cc validated);
               count = of_nat (length (vm_to validated) + length (vm_cc validated));
               w1 = store_call (so_set_recipient_metadata ops (be_clock be index 2) rid key
                      domains count) w
           in (case build_message X (be_finish be) validated cfg of
                 Inl e \<Rightarrow>
                   (Inl (rejected_result index rid Code_InternalError (app_error_display e)),
                    bulk_update ops (be_clock be index 3) rid key Rejected
                      (Some Code_InternalError) ''Failed to build mail message.'' w1)
               | Inr message \<Rightarrow>
                   (Inr \<lparr>pm_index = index, pm_req_id = rid, pm_key_id = key, pm_message = message,
                         pm_recipient_domain = recipient_domain_of (vm_to validated),
                         pm_effective_mask = effective_mask cfg auth\<rparr>, w1))))"

definition phase1_prepare ::
  "externals \<Rightarrow> 's status_ops \<Rightarrow> bulk_env \<Rightarrow> app_config \<Rightarrow> auth_context \<Rightarrow> nat \<Rightarrow>
     mail_request \<Rightarrow> 's world \<Rightarrow> (message_result + prepared_message) \<times> 's world" where
  "phase1_prepare X ops be cfg auth index raw_msg w =
     then_step (bulk_rates ops be cfg auth index w) (\<lambda>_ w.
       bulk_build X ops be cfg auth index raw_msg
         (store_call (so_put_received ops (new_received (be_received be index) (be_ids be index)
            (ac_key_id auth) (sc_ttl_seconds (cf_status cfg)))) w))"

fun phase1_loop ::
  "externals \<Rightarrow> 's status_ops \<Rightarrow> bulk_env \<Rightarrow> app_config \<Rightarrow> auth_context \<Rightarrow> nat \<Rightarrow>
     mail_request list \<Rightarrow> 's world \<Rightarrow> (message_result list \<times> prepared_message list) \<times> 's world" where
  "phase1_loop X ops be cfg auth index [] w = (([], []), w)"
| "phase1_loop X ops be cfg auth index (raw_msg # msgs) w =
     (case phase1_prepare X ops be cfg auth index raw_msg w of
        (r, w1) \<Rightarrow>
          (case phase1_loop X ops be cfg auth (Suc index) msgs w1 of
             ((rejected, prepared), w2) \<Rightarrow>
               (case r of
                  Inl res \<Rightarrow> ((res # rejected, prepared), w2)
                | Inr p \<Rightarrow> ((rejected, p # prepared), w2))))"

subsection \<open>Phase 2: the segments of a task\<close>

definition phase2_begin :: "'s status_ops \<Rightarrow> bulk_env \<Rightarrow> prepared_message \<Rightarrow> 's world \<Rightarrow> 's world" where
  "phase2_begin ops be p w =
     (let w1 = bulk_update ops (be_clock be (pm_index p) 4) (pm_req_id p) (pm_key_id p)
                 SmtpSubmissionStarted None ''Submitting to SMTP.'' w
      in w1\<lparr>wd_sent := pm_message p # wd_sent w1\<rparr>)"

definition phase2_transfer :: "bulk_env \<Rightarrow> app_config \<Rightarrow> prepared_message \<Rightarrow> app_error + unit" where
  "phase2_transfer be cfg p =
     (if sm_mode (cf_smtp cfg) = ''pipe'' then submit_pipe (be_pipe be (pm_index p))
      else submit (be_outcome be (pm_index p)))"

definition phase2_result :: "bulk_env \<Rightarrow> app_config \<Rightarrow> prepared_message \<Rightarrow> message_result" where
  "phase2_result be cfg p =
     (case phase2_transfer be cfg p of
        Inr _ \<Rightarrow> \<lparr>br_index = pm_index p, br_request_id = pm_req_id p, br_status = ''accepted'',
                  br_code = None, br_message = None\<rparr>
      | Inl e \<Rightarrow> rejected_result (pm_index p) (pm_req_id p) Code_SmtpUnavailable
                  ''SMTP server unavailable.'')"

definition phase2_end ::
  "'s status_ops \<Rightarrow> bulk_env \<Rightarrow> app_config \<Rightarrow> prepared_message \<Rightarrow> 's world \<Rightarrow> 's world" where
  "phase2_end ops be cfg p w =
     (let w1 = on_metrics (observe_smtp_duration (be_duration be (pm_index p))) w in
      case phase2_transfer be cfg p of
        Inr _ \<Rightarrow> on_metrics inc_smtp_ok
                  (bulk_update ops (be_clock be (pm_index p) 5) (pm_req_id p) (pm_key_id p)
                     SmtpAccepted None ''Accepted by SMTP server.'' w1)
      | Inl e \<Rightarrow> bulk_update ops (be_clock be (pm_index p) 5) (pm_req_id p) (pm_key_id p)
                  SmtpFailed (Some Code_SmtpUnavailable) ''SMTP server unavailable.''
                  (on_metrics inc_smtp_error w1))"

subsection \<open>Phase 2: the tasks under the semaphore\<close>

record 's bulk_state =
  bs_waiting :: "prepared_message list"
  bs_running :: "prepared_message list"
  bs_submitted :: "message_result list"
  bs_world :: "'s world"

datatype bulk_event = Begin nat | Finish nat

definition bulk_concurrency :: "app_config \<Rightarrow> nat \<Rightarrow> nat" where
  "bulk_concurrency cfg n =
     (if sm_bulk_concurrency (cf_smtp cfg) = 0 then max n 1
      else unat (sm_bulk_concurrency (cf_smtp cfg)))"

text \<open>
  A task may begin when it holds one of the permits; it finishes with its result joined
  to the set of submitted ones. An event that is not possible yields \<open>None\<close>.
\<close>

definition fire ::
  "'s status_ops \<Rightarrow> bulk_env \<Rightarrow> app_config \<Rightarrow> nat \<Rightarrow> bulk_event \<Rightarrow> 's bulk_state \<Rightarrow>
     's bulk_state option" where
  "fire ops be cfg permits ev st =
     (case ev of
        Begin i \<Rightarrow>
          (case find (\<lambda>p. pm_index p = i) (bs_waiting st) of
             Some p \<Rightarrow>
               if length (bs_running st) < permits
               then Some (st\<lparr>bs_waiting := remove1 p (bs_waiting st),
                             bs_running := p # bs_running st,
                             bs_world := phase2_begin ops be p (bs_world st)\<rparr>)
               else None
           | None \<Rightarrow> None)
      | Finish i \<Rightarrow>
          (case find (\<lambda>p. pm_index p = i) (bs_running st) of
             Some p \<Rightarrow>
               Some (st\<lparr>bs_running := remove1 p (bs_running st),
                        bs_submitted := bs_submitted st @ [phase2_result be cfg p],
                        bs_world := phase2_end ops be cfg p (bs_world st)\<rparr>)
           | None \<Rightarrow> None))"

fun run_schedule ::
  "'s status_ops \<Rightarrow> bulk_env \<Rightarrow> app_config \<Rightarrow> nat \<Rightarrow> bulk_event list \<Rightarrow> 's bulk_state \<Rightarrow>
     's bulk_state option" where
  "run_schedule ops be cfg permits [] st = Some st"
| "run_schedule ops be cfg permits (ev # evs) st =
     Option.bind (fire ops be cfg permits ev st) (run_schedule ops be cfg permits evs)"

definition all_joined :: "'s bulk_state \<Rightarrow> bool" where
  "all_joined st \<longleftrightarrow> bs_waiting st = [] \<and> bs_running st = []"

subsection \<open>The handler\<close>

definition result_json :: "message_result \<Rightarrow> json" where
  "result_json r =
     JObj ([(''index'', JNum (int (br_index r))), (''request_id'', JStr (br_request_id r)),
            (''status'', JStr (br_status r))]
           @ (case br_code r of Some c \<Rightarrow> [(''code'', JStr c)] | None \<Rightarrow> [])
           @ (case br_message r of Some m \<Rightarrow> [(''message'', JStr m)] | None \<Rightarrow> []))"

definition merge_results :: "message_result list \<Rightarrow> message_result list \<Rightarrow> message_result list" where
  "merge_results rejected submitted = sort_key br_index (rejected @ submitted)"

definition count_accepted :: "message_result list \<Rightarrow> nat" where
  "count_accepted rs = length (filter (\<lambda>r. br_status r = ''accepted'') rs)"

definition count_rejected :: "message_result list \<Rightarrow> nat" where
  "count_rejected rs = length (filter (\<lambda>r. br_status r \<noteq> ''accepted'') rs)"

definition bulk_reply :: "request_id \<Rightarrow> nat \<Rightarrow> message_result list \<Rightarrow> http_reply" where
  "bulk_reply bulk_req_id n_total all_results =
     (202, JObj
        [(''bulk_request_id'', JStr bulk_req_id),
         (''total'', JNum (int n_total)),
         (''accepted'', JNum (int (count_accepted all_results))),
         (''rejected'', JNum (int (count_rejected all_results))),
         (''results'', JArr (map result_json all_results))])"

text \<open>
  \<open>None\<close>: the schedule is not one of a run that joins all the tasks.
\<close>

definition send_bulk ::
  "externals \<Rightarrow> 's status_ops \<Rightarrow> bulk_env \<Rightarrow> app_config \<Rightarrow> auth_context \<Rightarrow> request_id \<Rightarrow>
     mail_request list \<Rightarrow> bulk_event list \<Rightarrow> 's world \<Rightarrow>
     ((app_error + http_reply) \<times> 's world) option" where
  "send_bulk X ops be cfg auth bulk_req_id messages schedule w =
     (if messages = [] then Some (Inl BadRequest, w)
      else if length messages > unat (ml_max_bulk_messages (cf_mail cfg))
      then Some (Inl PayloadTooLarge, w)
      else
        (case phase1_loop X ops be cfg auth 0 messages w of
           ((rejected, prepared), w1) \<Rightarrow>
             (case run_schedule ops be cfg (bulk_concurrency cfg (length prepared)) schedule
                     \<lparr>bs_waiting = prepared, bs_running = [], bs_submitted = [], bs_world = w1\<rparr> of
                None \<Rightarrow> None
              | Some st \<Rightarrow>
                  if all_joined st
                  then Some (Inr (bulk_reply bulk_req_id (length messages)
                                    (merge_results rejected (bs_submitted st))),
                             on_metrics (inc_request ''2xx'') (bs_world st))
                  else None)))"

end
