(* ===== verification/Send_Bulk_Claims.thy ===== *)
theory Send_Bulk_Claims
  imports Send_Bulk Send_Claims
begin

text \<open>
  Properties of the bulk handler: phase 1 gives every message one index, the tasks of
  phase 2 form a state machine whose invariant accounts for every task and bounds the
  running ones, every run can be completed, and the response does not depend on the
  schedule.
\<close>

subsection \<open>Phase 1 accounts for every message\<close>

lemma bulk_rates_index:
  "fst (bulk_rates ops be cfg auth index w) = Inl r \<Longrightarrow> br_index r = index"
  by (auto simp: bulk_rates_def bulk_rate_limited_def rejected_result_def
      split: prod.splits sum.splits)

lemma bulk_build_index:
  "bulk_build X ops be cfg auth index m w = (r, w') \<Longrightarrow>
     (\<forall>x. r = Inl x \<longrightarrow> br_index x = index) \<and> (\<forall>p. r = Inr p \<longrightarrow> pm_index p = index)"
  by (auto simp: bulk_build_def Let_def rejected_result_def split: sum.splits)

lemma phase1_prepare_index:
  assumes "phase1_prepare X ops be cfg auth index m w = (r, w')"
  shows "(\<forall>x. r = Inl x \<longrightarrow> br_index x = index) \<and> (\<forall>p. r = Inr p \<longrightarrow> pm_index p = index)"
proof (cases "bulk_rates ops be cfg auth index w")
  case (Pair r0 w1)
  show ?thesis
  proof (cases r0)
    case (Inl e)
    with Pair bulk_rates_index [of ops be cfg auth index w e] assms show ?thesis
      by (auto simp: phase1_prepare_def)
  next
    case (Inr u)
    with Pair assms have "bulk_build X ops be cfg auth index m (store_call (so_put_received ops
        (new_received (be_received be index) (be_ids be index) (ac_key_id auth)
          (sc_ttl_seconds (cf_status cfg)))) w1) = (r, w')"
      by (simp add: phase1_prepare_def)
    then show ?thesis by (rule bulk_build_index)
  qed
qed

lemma phase1_loop_indices:
  "phase1_loop X ops be cfg auth index msgs w = ((rejected, prepared), w') \<Longrightarrow>
     mset (List.map br_index rejected) + mset (List.map pm_index prepared)
       = mset [index..<index + length msgs]"
proof (induction msgs arbitrary: index w rejected prepared w')
  case Nil
  then show ?case by simp
next
  case (Cons m msgs)
  obtain r w1 where p: "phase1_prepare X ops be cfg auth index m w = (r, w1)"
    by (cases "phase1_prepare X ops be cfg auth index m w")
  obtain rej prep w2 where l: "phase1_loop X ops be cfg auth (Suc index) msgs w1 = ((rej, prep), w2)"
    by (metis surj_pair)
  have IH: "mset (List.map br_index rej) + mset (List.map pm_index prep)
      = mset [Suc index..<Suc index + length msgs]"
    by (rule Cons.IH [OF l])
  have upt: "[index..<index + length (m # msgs)] = index # [Suc index..<Suc index + length msgs]"
    by (simp add: upt_conv_Cons del: upt_Suc)
  show ?case
    using Cons.prems p l IH phase1_prepare_index [OF p]
    unfolding upt by (auto split: sum.splits)
qed

subsection \<open>The tasks of phase 2\<close>

lemma find_mset: "find P xs = Some x \<Longrightarrow> x \<in># mset xs \<and> P x"
  using find_SomeD [of P xs x] by simp

text \<open>Every prepared message is waiting, running, or has its result joined.\<close>

definition tasks_inv ::
  "bulk_env \<Rightarrow> app_config \<Rightarrow> nat \<Rightarrow> prepared_message list \<Rightarrow> 's bulk_state \<Rightarrow> bool" where
  "tasks_inv be cfg permits prepared st \<longleftrightarrow>
     length (bs_running st) \<le> permits
     \<and> image_mset (phase2_result be cfg) (mset (bs_waiting st) + mset (bs_running st))
         + mset (bs_submitted st)
       = image_mset (phase2_result be cfg) (mset prepared)"

lemma fire_inv:
  assumes "fire ops be cfg permits ev st = Some st'" and "tasks_inv be cfg permits prepared st"
  shows "tasks_inv be cfg permits prepared st'"
proof (cases ev)
  case (Begin i)
  with assms(1) obtain p where p: "p \<in># mset (bs_waiting st)" "length (bs_running st) < permits"
    "st' = st\<lparr>bs_waiting := remove1 p (bs_waiting st), bs_running := p # bs_running st,
              bs_world := phase2_begin ops be p (bs_world st)\<rparr>"
    by (auto simp: fire_def dest!: find_mset split: option.splits if_splits)
  have "image_mset (phase2_result be cfg) (mset (bs_waiting st'))
      + {#phase2_result be cfg p#} = image_mset (phase2_result be cfg) (mset (bs_waiting st))"
    using p(1) by (simp add: p(3) image_mset_Diff)
  with assms(2) p(2,3) show ?thesis by (simp add: tasks_inv_def) (metis add.assoc add.commute add_mset_add_single)
next
  case (Finish i)
  with assms(1) obtain p where p: "p \<in># mset (bs_running st)"
    "st' = st\<lparr>bs_running := remove1 p (bs_running st),
              bs_submitted := bs_submitted st @ [phase2_result be cfg p],
              bs_world := phase2_end ops be cfg p (bs_world st)\<rparr>"
    by (auto simp: fire_def dest!: find_mset split: option.splits)
  have "image_mset (phase2_result be cfg) (mset (bs_running st'))
      + {#phase2_result be cfg p#} = image_mset (phase2_result be cfg) (mset (bs_running st))"
    using p(1) by (simp add: p(2) image_mset_Diff)
  moreover have "length (bs_running st') \<le> length (bs_running st)"
    using p(2) by (simp add: length_remove1)
  ultimately show ?thesis
    using assms(2) p(2) by (simp add: tasks_inv_def) (metis add.assoc add.commute add_mset_add_single)
qed

lemma run_schedule_inv:
  "run_schedule ops be cfg permits evs st = Some st' \<Longrightarrow> tasks_inv be cfg permits prepared st \<Longrightarrow>
     tasks_inv be cfg permits prepared st'"
proof (induction evs arbitrary: st)
  case Nil
  then show ?case by simp
next
  case (Cons ev evs)
  then obtain st1 where "fire ops be cfg permits ev st = Some st1"
    "run_schedule ops be cfg permits evs st1 = Some st'"
    by (auto simp: bind_eq_Some_conv)
  with Cons show ?case using fire_inv by blast
qed

subsection \<open>Every run can be completed\<close>

lemma find_own: "p \<in> set ps \<Longrightarrow> \<exists>q. find (\<lambda>p'. pm_index p' = pm_index p) ps = Some q \<and> q \<in> set ps"
  by (metis (mono_tags, lifting) find_SomeD find_None_iff not_None_eq)

lemma finish_enabled:
  "p \<in> set (bs_running st) \<Longrightarrow> \<exists>st' q. fire ops be cfg permits (Finish (pm_index p)) st = Some st'
     \<and> q \<in> set (bs_running st) \<and> bs_running st' = remove1 q (bs_running st)
     \<and> bs_waiting st' = bs_waiting st"
  using find_own [of p "bs_running st"] by (auto simp: fire_def)

lemma begin_enabled:
  "p \<in> set (bs_waiting st) \<Longrightarrow> length (bs_running st) < permits \<Longrightarrow>
     \<exists>st' q. fire ops be cfg permits (Begin (pm_index p)) st = Some st'
     \<and> q \<in> set (bs_waiting st) \<and> bs_running st' = q # bs_running st
     \<and> bs_waiting st' = remove1 q (bs_waiting st)"
  using find_own [of p "bs_waiting st"] by (auto simp: fire_def)

text \<open>A task that waits needs two steps, one that runs needs one.\<close>

abbreviation steps_left :: "'s bulk_state \<Rightarrow> nat" where
  "steps_left st \<equiv> 2 * length (bs_waiting st) + length (bs_running st)"

lemma fire_steps_left: "fire ops be cfg permits ev st = Some st' \<Longrightarrow> steps_left st' < steps_left st"
proof (cases ev)
  case (Begin i)
  assume "fire ops be cfg permits ev st = Some st'"
  with Begin obtain p where p: "p \<in> set (bs_waiting st)"
    "bs_waiting st' = remove1 p (bs_waiting st)" "bs_running st' = p # bs_running st"
    by (auto simp: fire_def dest!: find_SomeD split: option.splits if_splits)
  then have "0 < length (bs_waiting st)" by (metis length_pos_if_in_set)
  moreover have "length (bs_waiting st') = length (bs_waiting st) - 1"
    "length (bs_running st') = Suc (length (bs_running st))"
    using p by (simp_all add: length_remove1)
  ultimately show ?thesis by linarith
next
  case (Finish i)
  assume "fire ops be cfg permits ev st = Some st'"
  with Finish obtain p where p: "p \<in> set (bs_running st)"
    "bs_running st' = remove1 p (bs_running st)" "bs_waiting st' = bs_waiting st"
    by (auto simp: fire_def dest!: find_SomeD split: option.splits)
  then have "0 < length (bs_running st)" by (metis length_pos_if_in_set)
  with p show ?thesis by (simp add: length_remove1)
qed

lemma can_complete:
  "0 < permits \<Longrightarrow> \<exists>evs st'. run_schedule ops be cfg permits evs st = Some st' \<and> all_joined st'"
proof (induction "steps_left st" arbitrary: st rule: less_induct)
  case less
  show ?case
  proof (cases "all_joined st")
    case True
    then show ?thesis by (intro exI [of _ "[]"]) simp
  next
    case False
    have "\<exists>ev st1. fire ops be cfg permits ev st = Some st1"
    proof (cases "bs_running st")
      case Nil
      with False have "bs_waiting st \<noteq> []" by (simp add: all_joined_def)
      then obtain p where "p \<in> set (bs_waiting st)" by (metis list.set_sel(1))
      from begin_enabled [OF this, of permits ops be cfg] Nil less.prems show ?thesis by auto
    next
      case (Cons p ps)
      then have "p \<in> set (bs_running st)" by simp
      from finish_enabled [OF this, of ops be cfg permits] show ?thesis by blast
    qed
    then obtain ev st1 where ev: "fire ops be cfg permits ev st = Some st1" by blast
    from less.hyps [OF fire_steps_left [OF ev] less.prems] obtain evs st'
      where "run_schedule ops be cfg permits evs st1 = Some st'" "all_joined st'" by blast
    with ev show ?thesis by (intro exI [of _ "ev # evs"] exI [of _ st']) simp
  qed
qed

lemma bulk_concurrency_pos: "0 < bulk_concurrency cfg n"
  by (simp add: bulk_concurrency_def unat_gt_0 less_max_iff_disj)

subsection \<open>The merged results\<close>

lemma map_sort_key_upt:
  assumes "mset (List.map f xs) = mset [0..<n]" shows "List.map f (sort_key f xs) = [0..<n]"
proof -
  have "sort [0..<n] = List.map f (sort_key f xs)"
    by (rule properties_for_sort) (use assms in simp_all)
  then show ?thesis by (simp add: sorted_sort_id)
qed

lemma merge_results_unique:
  assumes "mset xs = mset ys" and "distinct (List.map br_index xs)"
  shows "sort_key br_index xs = sort_key br_index ys"
proof (rule map_sorted_distinct_set_unique [of br_index])
  have s: "set xs = set ys" by (rule mset_eq_setD [OF assms(1)])
  show "inj_on br_index (set (sort_key br_index xs) \<union> set (sort_key br_index ys))"
    using assms(2) by (simp add: s distinct_map)
  have "mset (List.map br_index (sort_key br_index zs)) = mset (List.map br_index xs)" if "mset zs = mset xs" for zs
    using that by (simp add: mset_map)
  then show "distinct (List.map br_index (sort_key br_index xs))"
    "distinct (List.map br_index (sort_key br_index ys))"
    using assms mset_eq_imp_distinct_iff by metis+
  show "set (sort_key br_index xs) = set (sort_key br_index ys)" by (simp add: s)
qed simp_all

subsection \<open>Properties\<close>

text \<open>The result every message of the request gets, in no particular order.\<close>

definition all_results ::
  "bulk_env \<Rightarrow> app_config \<Rightarrow> message_result list \<Rightarrow> prepared_message list \<Rightarrow> message_result list" where
  "all_results be cfg rejected prepared =
     sort_key br_index (rejected @ List.map (phase2_result be cfg) prepared)"

lemma phase2_result_index [simp]: "br_index (phase2_result be cfg p) = pm_index p"
  by (simp add: phase2_result_def rejected_result_def split: sum.split)

lemma counts_sum: "count_accepted rs + count_rejected rs = length rs"
  by (simp add: count_accepted_def count_rejected_def sum_length_filter_compl)

lemma send_bulk_Inr:
  assumes "send_bulk X ops be cfg auth bulk_id messages schedule w = Some (Inr reply, w')"
    and "phase1_loop X ops be cfg auth 0 messages w = ((rejected, prepared), w1)"
  shows "reply = bulk_reply bulk_id (length messages) (all_results be cfg rejected prepared)
    \<and> List.map br_index (all_results be cfg rejected prepared) = [0..<length messages]"
proof -
  let ?permits = "bulk_concurrency cfg (length prepared)"
  let ?st = "\<lparr>bs_waiting = prepared, bs_running = [], bs_submitted = [], bs_world = w1\<rparr>"
  obtain st where run: "run_schedule ops be cfg ?permits schedule ?st = Some st" "all_joined st"
    and reply: "reply = bulk_reply bulk_id (length messages) (merge_results rejected (bs_submitted st))"
    using assms by (auto simp: send_bulk_def split: if_splits option.splits)
  have "tasks_inv be cfg ?permits prepared ?st" by (simp add: tasks_inv_def)
  from run_schedule_inv [OF run(1) this] run(2)
  have sub: "mset (bs_submitted st) = mset (List.map (phase2_result be cfg) prepared)"
    by (simp add: tasks_inv_def all_joined_def)
  have idx: "mset (List.map br_index (rejected @ List.map (phase2_result be cfg) prepared))
      = mset [0..<length messages]"
    using phase1_loop_indices [OF assms(2)] by (simp add: multiset.map_comp comp_def)
  then have "distinct (List.map br_index (rejected @ List.map (phase2_result be cfg) prepared))"
    using mset_eq_imp_distinct_iff [OF idx] by simp
  then have "all_results be cfg rejected prepared = merge_results rejected (bs_submitted st)"
    unfolding all_results_def merge_results_def
    by (intro merge_results_unique) (simp_all add: sub)
  moreover have "List.map br_index (all_results be cfg rejected prepared) = [0..<length messages]"
    unfolding all_results_def by (rule map_sort_key_upt [OF idx])
  ultimately show ?thesis using reply by simp
qed

subsection \<open>A bulk request that goes through\<close>

definition example_bulk_env :: bulk_env where
  "example_bulk_env =
     \<lparr>be_ids = (\<lambda>i. ''req_'' @ show_nat i), be_received = (\<lambda>_. 0), be_clock = (\<lambda>_ _ _. 0),
      be_instant = (\<lambda>_ _. 0), be_finish = (\<lambda>_. True), be_outcome = (\<lambda>_. Sent),
      be_pipe = (\<lambda>_. \<lparr>pr_timed_out = True, pr_spawned = False, pr_has_stdin = False,
        pr_written = False, pr_waited = False, pr_success = False\<rparr>),
      be_duration = (\<lambda>_. 0)\<rparr>"

definition example_prepared :: "nat \<Rightarrow> prepared_message" where
  "example_prepared i =
     \<lparr>pm_index = i, pm_req_id = ''req_'' @ show_nat i, pm_key_id = ''svc-a'',
      pm_message = example_message, pm_recipient_domain = ''example.com'',
      pm_effective_mask = False\<rparr>"

lemma send_bulk_completes:
  assumes "messages \<noteq> []" and "length messages \<le> unat (ml_max_bulk_messages (cf_mail cfg))"
  shows "\<exists>schedule reply w'. send_bulk X ops be cfg auth bulk_id messages schedule w = Some (Inr reply, w')"
proof -
  obtain rejected prepared w1 where
    p: "phase1_loop X ops be cfg auth 0 messages w = ((rejected, prepared), w1)"
    by (metis surj_pair)
  obtain evs st where "run_schedule ops be cfg (bulk_concurrency cfg (length prepared)) evs
      \<lparr>bs_waiting = prepared, bs_running = [], bs_submitted = [], bs_world = w1\<rparr> = Some st"
    "all_joined st"
    using can_complete [OF bulk_concurrency_pos] by blast
  with p assms show ?thesis
    unfolding send_bulk_def
    by (intro exI [of _ evs] exI [of _ "bulk_reply bulk_id (length messages) (merge_results rejected (bs_submitted st))"]
        exI [of _ "on_metrics (inc_request ''2xx'') (bs_world st)"]) simp
qed

lemma example_bulk_completes:
  "\<exists>schedule reply w'. send_bulk example_externals (memory_ops (\<lambda>xs. xs)) example_bulk_env
     example_config example_auth ''req_b'' [example_request, example_request] schedule example_world
     = Some (Inr reply, w')"
  by (rule send_bulk_completes) (simp_all add: default_mail_config_def)

text \<open>C21: The answer to a bulk request does not depend on the scheduler: whatever the order in
  which the concurrent submissions run and complete, the response is the same.\<close>

theorem bulk_schedule_independent:
  assumes "send_bulk X ops be cfg auth bulk_id messages schedule w = Some (Inr reply, w')"
    and "send_bulk X ops be cfg auth bulk_id messages schedule' w = Some (Inr reply', w'')"
  shows "reply = reply'"
proof -
  obtain rejected prepared w1 where
    "phase1_loop X ops be cfg auth 0 messages w = ((rejected, prepared), w1)"
    by (metis surj_pair)
  from send_bulk_Inr [OF assms(1) this] send_bulk_Inr [OF assms(2) this] show ?thesis by simp
qed

theorem bulk_schedule_independent_witness:
  "\<exists>schedule schedule' reply reply' w' w''.
     send_bulk example_externals (memory_ops (\<lambda>xs. xs)) example_bulk_env example_config example_auth
       ''req_b'' [example_request, example_request] schedule example_world = Some (Inr reply, w')
     \<and> send_bulk example_externals (memory_ops (\<lambda>xs. xs)) example_bulk_env example_config example_auth
       ''req_b'' [example_request, example_request] schedule' example_world = Some (Inr reply', w'')
     \<and> reply = reply'"
  using example_bulk_completes bulk_schedule_independent by blast

text \<open>A bulk answer reports every message once, in the order of the request: the indices of
  the results are 0 to n - 1, and the accepted and the rejected ones add up to the total.\<close>

theorem bulk_reports_every_message:
  assumes "send_bulk X ops be cfg auth bulk_id messages schedule w = Some (Inr reply, w')"
  shows "\<exists>results. reply = bulk_reply bulk_id (length messages) results
    \<and> List.map br_index results = [0..<length messages]
    \<and> count_accepted results + count_rejected results = length messages"
proof -
  obtain rejected prepared w1 where
    "phase1_loop X ops be cfg auth 0 messages w = ((rejected, prepared), w1)"
    by (metis surj_pair)
  from send_bulk_Inr [OF assms this] show ?thesis
    by (metis counts_sum length_map length_upt diff_zero)
qed

theorem bulk_reports_every_message_witness:
  "\<exists>results. List.map br_index results = [0, 1] \<and> count_accepted results + count_rejected results = 2"
proof -
  obtain schedule reply w' where "send_bulk example_externals (memory_ops (\<lambda>xs. xs)) example_bulk_env
      example_config example_auth ''req_b'' [example_request, example_request] schedule example_world
      = Some (Inr reply, w')"
    using example_bulk_completes by blast
  from bulk_reports_every_message [OF this] obtain results where
    "List.map br_index results = [0..<length [example_request, example_request]]"
    "count_accepted results + count_rejected results = length [example_request, example_request]"
    by blast
  moreover have "[0..<length [example_request, example_request]] = [0, 1]"
    by (simp add: upt_rec)
  ultimately show ?thesis by (intro exI [of _ results]) simp
qed

text \<open>C29: The concurrent submissions never deadlock and never exceed the limit: from every state a
  run can reach, at most the configured number of messages is being transferred, and the
  run can be continued until every task has joined.\<close>

theorem bulk_tasks_progress:
  assumes "run_schedule ops be cfg (bulk_concurrency cfg (length prepared)) evs
      \<lparr>bs_waiting = prepared, bs_running = [], bs_submitted = [], bs_world = w\<rparr> = Some st"
  shows "length (bs_running st) \<le> bulk_concurrency cfg (length prepared)
    \<and> (\<exists>evs' st'. run_schedule ops be cfg (bulk_concurrency cfg (length prepared)) evs' st = Some st'
         \<and> all_joined st'
         \<and> mset (bs_submitted st') = mset (List.map (phase2_result be cfg) prepared))"
proof -
  let ?permits = "bulk_concurrency cfg (length prepared)"
  have "tasks_inv be cfg ?permits prepared
      \<lparr>bs_waiting = prepared, bs_running = [], bs_submitted = [], bs_world = w\<rparr>"
    by (simp add: tasks_inv_def)
  from run_schedule_inv [OF assms this] have inv: "tasks_inv be cfg ?permits prepared st" .
  obtain evs' st' where run: "run_schedule ops be cfg ?permits evs' st = Some st'" "all_joined st'"
    using can_complete [OF bulk_concurrency_pos] by blast
  have "tasks_inv be cfg ?permits prepared st'" by (rule run_schedule_inv [OF run(1) inv])
  with run(2) have "mset (bs_submitted st') = mset (List.map (phase2_result be cfg) prepared)"
    by (simp add: tasks_inv_def all_joined_def)
  with inv run show ?thesis unfolding tasks_inv_def by blast
qed

theorem bulk_tasks_progress_witness:
  "\<exists>st. run_schedule noop_ops example_bulk_env example_config 5 [Begin 1, Begin 0, Finish 1]
       \<lparr>bs_waiting = [example_prepared 0, example_prepared 1], bs_running = [], bs_submitted = [],
        bs_world = \<lparr>wd_store = (), wd_limiter = limiter_new default_rate_limit_config 0,
                    wd_metrics = metrics_new, wd_sent = []\<rparr>\<rparr> = Some st
     \<and> length (bs_running st) \<le> 5"
proof -
  let ?st = "\<lparr>bs_waiting = [example_prepared 0, example_prepared 1], bs_running = [], bs_submitted = [],
        bs_world = \<lparr>wd_store = (), wd_limiter = limiter_new default_rate_limit_config 0,
                    wd_metrics = metrics_new, wd_sent = []\<rparr>\<rparr>"
  have c: "bulk_concurrency example_config (length [example_prepared 0, example_prepared 1]) = 5"
    by (simp add: bulk_concurrency_def default_smtp_config_def)
  have ne: "example_prepared 1 \<noteq> example_prepared 0" by (simp add: example_prepared_def)
  obtain st where run: "run_schedule noop_ops example_bulk_env example_config 5 [Begin 1, Begin 0, Finish 1] ?st = Some st"
    using ne by (simp add: fire_def example_prepared_def)
  from run bulk_tasks_progress [of noop_ops example_bulk_env example_config
      "[example_prepared 0, example_prepared 1]" "[Begin 1, Begin 0, Finish 1]"]
  show ?thesis unfolding c by blast
qed

end
