(* ===== verification/Api.thy ===== *)
theory Api
  imports Request_Id Status Auth Smtp
begin

text \<open>
  The other handlers of \<open>api/\<close>: the submission status query, the description of the own
  key, the health probes and the metrics export, with the request-id middleware and the
  table of routes of \<open>api.rs\<close>. Matching a path to a route and running the layers belong
  to \<open>axum\<close> and \<open>tower\<close>.
\<close>

datatype reply_body = Json_Body json | Text_Reply str | Empty_Body

type_synonym reply = "nat \<times> reply_body"

subsection \<open>\<open>GET /v1/submissions/{request_id}\<close>\<close>

text \<open>\<open>rfc3339\<close> is \<open>chrono\<close>'s text form of a time.\<close>

definition serialize_record :: "(time \<Rightarrow> str) \<Rightarrow> status_record \<Rightarrow> json" where
  "serialize_record rfc3339 r =
     JObj [(''request_id'', JStr (sr_request_id r)),
           (''status'', JStr (status_str (sr_status r))),
           (''code'', json_opt (\<lambda>c. JStr (code_as_str c)) (sr_code r)),
           (''message'', json_opt JStr (sr_message r)),
           (''recipient_domains'', JArr (map JStr (sr_recipient_domains r))),
           (''recipient_count'', JNum (int (unat (sr_recipient_count r)))),
           (''created_at'', JStr (rfc3339 (sr_created_at r))),
           (''updated_at'', JStr (rfc3339 (sr_updated_at r))),
           (''expires_at'', JStr (rfc3339 (sr_expires_at r)))]"

definition not_found_body :: "str \<Rightarrow> str \<Rightarrow> json" where
  "not_found_body lookup_id request_id =
     JObj [(''status'', JStr ''error''), (''code'', JStr ''submission_not_found''),
           (''message'', JStr ''Submission status was not found or has expired.''),
           (''request_id'', JStr request_id), (''lookup_request_id'', JStr lookup_id)]"

text \<open>\<open>lookup_ulid\<close> is the ULID generated for the answer to an ill-formed id.\<close>

definition get_submission_status ::
  "externals \<Rightarrow> 's status_ops \<Rightarrow> (time \<Rightarrow> str) \<Rightarrow> clock \<Rightarrow> str \<Rightarrow> auth_context \<Rightarrow> str \<Rightarrow>
     's \<times> metrics \<Rightarrow> reply \<times> 's \<times> metrics" where
  "get_submission_status X ops rfc3339 clk lookup_ulid auth raw_id x =
     (case request_id_from_str X raw_id of
        Inl _ \<Rightarrow> ((404, Json_Body (not_found_body (request_id_new lookup_ulid) raw_id)), x)
      | Inr request_id \<Rightarrow>
          (case so_get ops clk request_id (ac_key_id auth) x of
             (Inr (Some record), x') \<Rightarrow> ((200, Json_Body (serialize_record rfc3339 record)), x')
           | (Inr None, x') \<Rightarrow>
               ((404, Json_Body (JObj
                  [(''status'', JStr ''error''), (''code'', JStr ''submission_not_found''),
                   (''message'', JStr ''Submission status was not found or has expired.''),
                   (''request_id'', JStr raw_id), (''target_request_id'', JStr request_id)])), x')
           | (Inl e, (s, m)) \<Rightarrow>
               ((503, Json_Body (JObj
                  [(''status'', JStr ''error''), (''code'', JStr ''status_store_unavailable''),
                   (''message'', JStr ''Status store is temporarily unavailable.''),
                   (''request_id'', JStr raw_id)])), (s, status_store_error ''get'' m))))"

subsection \<open>\<open>GET /v1/keys/self\<close>\<close>

definition key_json :: "app_config \<Rightarrow> api_key_config \<Rightarrow> json" where
  "key_json cfg k =
     JObj [(''id'', JStr (ak_id k)),
           (''enabled'', JBool (ak_enabled k)),
           (''description'', json_opt JStr (ak_description k)),
           (''allowed_recipient_domains'', JArr (map JStr (ak_allowed_recipient_domains k))),
           (''allowed_recipients'', JArr (map JStr (ak_allowed_recipients k))),
           (''rate_limit_per_min'', json_opt (\<lambda>n. JNum (int (unat n))) (ak_rate_limit_per_min k)),
           (''burst'', JNum (int (unat (ak_burst k)))),
           (''mask_recipient'', json_opt JBool (ak_mask_recipient k)),
           (''effective_rate_limit_per_min'', JNum (int (unat
              (case ak_rate_limit_per_min k of Some v \<Rightarrow> v
               | None \<Rightarrow> rl_per_key_per_min (cf_rate_limit cfg))))),
           (''effective_burst'', JNum (int (unat
              (if ak_burst k > 0 then ak_burst k
               else effective_per_key_burst (cf_rate_limit cfg)))))]"

definition get_key_self :: "app_config \<Rightarrow> auth_context \<Rightarrow> reply" where
  "get_key_self cfg auth =
     (case find (\<lambda>k. ak_id k = ac_key_id auth) (se_api_keys (cf_security cfg)) of
        Some k \<Rightarrow> (200, Json_Body (key_json cfg k))
      | None \<Rightarrow> (500, Json_Body (JObj
          [(''status'', JStr ''error''), (''code'', JStr ''internal_error''),
           (''message'', JStr ''Authenticated key not found in config.'')])))"

subsection \<open>Health probes\<close>

definition healthz :: "str \<Rightarrow> reply" where
  "healthz version = (200, Json_Body (JObj [(''status'', JStr ''ok''), (''version'', JStr version)]))"

text \<open>\<open>connect\<close> is the outcome of the TCP connection under its two-second limit.\<close>

definition readyz :: "bool option \<Rightarrow> reply" where
  "readyz connect =
     (if (case connect of Some ok \<Rightarrow> ok | None \<Rightarrow> False)
      then (200, Json_Body (JObj [(''status'', JStr ''ready''), (''smtp'', JStr ''ok'')]))
      else (503, Json_Body (JObj [(''status'', JStr ''not_ready''),
                                  (''smtp'', JStr ''unavailable'')])))"

subsection \<open>\<open>GET /metrics\<close>\<close>

text \<open>\<open>encode\<close> is the text of the Prometheus encoder, or its error.\<close>

definition metrics_handler ::
  "externals \<Rightarrow> app_config \<Rightarrow> (metrics \<Rightarrow> str + str) \<Rightarrow> ip_addr option \<Rightarrow> metrics \<Rightarrow> reply" where
  "metrics_handler X cfg encode connect_info m =
     (let client_ip = (case connect_info of Some ip \<Rightarrow> ip | None \<Rightarrow> localhost_v4);
          allowed = (\<exists>cidr \<in> set (sv_monitoring_cidrs (cf_server cfg)).
                       case x_parse_net X cidr of Some net \<Rightarrow> net client_ip | None \<Rightarrow> False)
      in if \<not> allowed then (403, Empty_Body)
         else (case encode m of
                 Inr body \<Rightarrow> (200, Text_Reply body)
               | Inl e \<Rightarrow> (500, Text_Reply e)))"

subsection \<open>Middleware and routes\<close>

text \<open>\<open>HeaderValue::from_str\<close> accepts visible ASCII, tabs, and bytes from 128.\<close>

definition header_value_ok :: "str \<Rightarrow> bool" where
  "header_value_ok s \<longleftrightarrow> (\<forall>c \<in> set s. byte c \<ge> 32 \<and> byte c \<noteq> 127 \<or> byte c = 9)"

text \<open>The layer generates the id, the handler below sees it, and the response names it.\<close>

definition request_id_layer ::
  "str \<Rightarrow> (str option \<Rightarrow> 'r) \<Rightarrow> 'r \<times> (str \<times> str) option" where
  "request_id_layer ulid next_layer =
     (let request_id = request_id_new ulid; resp = next_layer (Some request_id) in
      (resp, if header_value_ok request_id then Some (''x-request-id'', request_id) else None))"

definition extract_request_id :: "str \<Rightarrow> str option \<Rightarrow> str" where
  "extract_request_id ulid extension =
     (case extension of Some i \<Rightarrow> i | None \<Rightarrow> request_id_new ulid)"

datatype http_method = Get | Post

datatype endpoint =
    Healthz | Readyz | Metrics_Export | Submission_Status | Keys_Self | Send_Mail | Send_Bulk
  | Bulk_Not_Found

record router =
  ro_routes :: "(str \<times> http_method \<times> endpoint) list"
  ro_timeout_secs :: u64
  ro_max_body :: usize
  ro_concurrency :: "usize option"

definition build_router :: "app_config \<Rightarrow> router" where
  "build_router cfg =
     \<lparr>ro_routes =
        [(''/healthz'', Get, Healthz),
         (''/readyz'', Get, Readyz),
         (''/metrics'', Get, Metrics_Export),
         (''/v1/submissions/{request_id}'', Get, Submission_Status),
         (''/v1/keys/self'', Get, Keys_Self),
         (''/v1/send'', Post, Send_Mail),
         (''/v1/send-bulk'', Post,
            if ml_allow_bulk_send (cf_mail cfg) then Send_Bulk else Bulk_Not_Found)],
      ro_timeout_secs = sv_request_timeout_seconds (cf_server cfg),
      ro_max_body = sv_max_request_body_bytes (cf_server cfg),
      ro_concurrency = (if sv_concurrency_limit (cf_server cfg) > 0
                        then Some (sv_concurrency_limit (cf_server cfg)) else None)\<rparr>"

end
