(* ===== verification/App_State.thy ===== *)
theory App_State
  imports Config_Validate Rate_Limit Smtp Status_Memory
begin

text \<open>
  \<open>lib.rs\<close>: the shared state of the server, how it is built from a validated
  configuration, and the reload on SIGHUP. The start of \<open>cli/src/main.rs\<close> (the
  configuration path, the restrictions of the platform, the reload of the file) follows.
\<close>

subsection \<open>Choice of the status store\<close>

text \<open>
  The backend that \<open>AppState::new\<close> opens; \<open>Store_Panic\<close> is a failed \<open>expect\<close>, which
  ends the process.
\<close>

datatype store_choice =
    Noop_Store
  | Memory_Store
  | Sqlite_Store str
  | Redis_Store str
  | Store_Panic

definition choose_store :: "features \<Rightarrow> status_config \<Rightarrow> store_choice" where
  "choose_store F c =
     (if \<not> sc_enabled c then Noop_Store
      else if ft_sqlite F \<and> sc_store c = ''sqlite'' then
        (case sc_db_path c of Some p \<Rightarrow> Sqlite_Store p | None \<Rightarrow> Store_Panic)
      else if ft_redis F \<and> sc_store c = ''redis'' then
        (case sc_redis_url c of Some u \<Rightarrow> Redis_Store u | None \<Rightarrow> Store_Panic)
      else Memory_Store)"

record 's app_state =
  as_config :: app_config
  as_smtp :: smtp_transport
  as_limiter :: rate_limiter
  as_metrics :: metrics
  as_store :: 's

text \<open>
  \<open>AppState::new\<close>: \<open>open_store\<close> opens the chosen backend and may end the process, as a
  failed transport does (\<open>None\<close>).
\<close>

definition app_state_new ::
  "(str \<Rightarrow> bool) \<Rightarrow> features \<Rightarrow> (store_choice \<Rightarrow> status_config \<Rightarrow> 's option) \<Rightarrow> instant \<Rightarrow>
     app_config \<Rightarrow> 's app_state option" where
  "app_state_new relay_ok F open_store now config =
     (case build_transport relay_ok (cf_smtp config) of
        Inl _ \<Rightarrow> None
      | Inr smtp \<Rightarrow>
          (case choose_store F (cf_status config) of
             Store_Panic \<Rightarrow> None
           | choice \<Rightarrow>
               map_option (\<lambda>store. \<lparr>as_config = config, as_smtp = smtp,
                   as_limiter = limiter_new (cf_rate_limit config) now,
                   as_metrics = metrics_new, as_store = store\<rparr>)
                 (open_store choice (cf_status config))))"

definition new_with_store ::
  "(str \<Rightarrow> bool) \<Rightarrow> instant \<Rightarrow> app_config \<Rightarrow> 's \<Rightarrow> 's app_state option" where
  "new_with_store relay_ok now config store =
     (case build_transport relay_ok (cf_smtp config) of
        Inl _ \<Rightarrow> None
      | Inr smtp \<Rightarrow>
          Some \<lparr>as_config = config, as_smtp = smtp,
                as_limiter = limiter_new (cf_rate_limit config) now,
                as_metrics = metrics_new, as_store = store\<rparr>)"

subsection \<open>Reload\<close>

definition reload_config :: "'s status_ops \<Rightarrow> app_config \<Rightarrow> 's app_state \<Rightarrow> 's app_state" where
  "reload_config ops new_config st =
     (let merged = merge_reloadable (as_config st) new_config in
      case so_reload_config ops (cf_status merged) (as_store st, as_metrics st) of
        (store, m) \<Rightarrow> st\<lparr>as_store := store, as_metrics := m, as_config := merged\<rparr>)"

text \<open>One SIGHUP: the file is loaded again, and an invalid one leaves the state as it is.\<close>

definition on_sighup ::
  "externals \<Rightarrow> features \<Rightarrow> (str \<Rightarrow> str + app_config) \<Rightarrow> (str \<Rightarrow> str + str) \<Rightarrow> str \<Rightarrow>
     's status_ops \<Rightarrow> 's app_state \<Rightarrow> 's app_state" where
  "on_sighup X F toml read_file path ops st =
     (case load X F toml read_file path of
        Inr new_cfg \<Rightarrow> reload_config ops new_cfg st
      | Inl _ \<Rightarrow> st)"

subsection \<open>Command line\<close>

definition default_config_path :: str where
  "default_config_path = ''/etc/http-smtp-rele.toml''"

fun scan_args :: "str list \<Rightarrow> str" where
  "scan_args [] = default_config_path"
| "scan_args [a] = default_config_path"
| "scan_args (a # b # rest) = (if a = ''--config'' then b else scan_args (b # rest))"

text \<open>\<open>parse_config_path\<close> skips the program name, the first argument.\<close>

definition parse_config_path :: "str list \<Rightarrow> str" where
  "parse_config_path args = scan_args (tl args)"

subsection \<open>\<open>security.rs\<close>\<close>

datatype runtime_mode = Smtp_Relay | Sendmail_Pipe str

definition runtime_mode_of :: "smtp_config \<Rightarrow> runtime_mode" where
  "runtime_mode_of c =
     (if sm_mode c = ''pipe'' then Sendmail_Pipe (sm_pipe_command c) else Smtp_Relay)"

text \<open>
  The promises handed to \<open>pledge\<close> on OpenBSD (the call itself may fail with a text), and
  the restrictions of other platforms, which do nothing.
\<close>

definition pledge_promises :: "runtime_mode \<Rightarrow> bool \<Rightarrow> str + str" where
  "pledge_promises mode has_sqlite =
     (let extra = (if has_sqlite then '' wpath cpath'' else []) in
      case mode of
        Smtp_Relay \<Rightarrow> Inr (''stdio inet rpath'' @ extra)
      | Sendmail_Pipe _ \<Rightarrow> Inl ''pipe mode is not supported in v0.15'')"

definition apply_runtime_pledge ::
  "(str \<Rightarrow> str + unit) \<Rightarrow> runtime_mode \<Rightarrow> bool \<Rightarrow> str + unit" where
  "apply_runtime_pledge pledge mode has_sqlite =
     and_then (pledge_promises mode has_sqlite) (\<lambda>promises.
       case pledge promises of
         Inl e \<Rightarrow> Inl (''runtime pledge failed: '' @ e)
       | Inr u \<Rightarrow> Inr u)"

text \<open>
  The \<open>unveil\<close> calls of a start: the configuration file, the directory of the database
  (whose failure is ignored) and the database, the TLS files, and the lock. A call is its
  path, its permissions and, when a failure stops the start, the text of that failure.
  \<open>parent\<close> is \<open>Path::parent\<close>.
\<close>

type_synonym unveil_call = "str \<times> str \<times> str option"

definition unveil_calls ::
  "(str \<Rightarrow> str option) \<Rightarrow> str \<Rightarrow> str option \<Rightarrow> str option \<Rightarrow> str option \<Rightarrow> unveil_call list" where
  "unveil_calls parent config_path sqlite_path tls_cert tls_key =
     [(config_path, ''r'', Some ''unveil config failed: '')]
     @ (case sqlite_path of
          Some p \<Rightarrow>
            (case parent p of Some d \<Rightarrow> [(d, ''rwc'', None)] | None \<Rightarrow> [])
            @ [(p, ''rwc'', Some ''unveil sqlite failed: '')]
        | None \<Rightarrow> [])
     @ (case tls_cert of Some p \<Rightarrow> [(p, ''r'', Some ''unveil tls_cert failed: '')] | None \<Rightarrow> [])
     @ (case tls_key of Some p \<Rightarrow> [(p, ''r'', Some ''unveil tls_key failed: '')] | None \<Rightarrow> [])
     @ [([], [], Some ''unveil lock failed: '')]"

text \<open>The calls that are made, and the result: the first failure that counts stops.\<close>

fun run_unveil ::
  "(str \<Rightarrow> str \<Rightarrow> str + unit) \<Rightarrow> unveil_call list \<Rightarrow> (str + unit) \<times> (str \<times> str) list" where
  "run_unveil unveil [] = (Inr (), [])"
| "run_unveil unveil ((path, perms, what) # calls) =
     (case (unveil path perms, what) of
        (Inl e, Some w) \<Rightarrow> (Inl (w @ e), [(path, perms)])
      | _ \<Rightarrow> (case run_unveil unveil calls of (r, made) \<Rightarrow> (r, (path, perms) # made)))"

definition unveil_runtime_paths ::
  "(str \<Rightarrow> str \<Rightarrow> str + unit) \<Rightarrow> (str \<Rightarrow> str option) \<Rightarrow> str \<Rightarrow> str option \<Rightarrow> str option \<Rightarrow>
     str option \<Rightarrow> (str + unit) \<times> (str \<times> str) list" where
  "unveil_runtime_paths unveil parent config_path sqlite_path tls_cert tls_key =
     run_unveil unveil (unveil_calls parent config_path sqlite_path tls_cert tls_key)"

end
