(* ===== verification/Api_Claims.thy ===== *)
theory Api_Claims
  imports Api App_State Status_Memory_Claims Examples
begin

text \<open>
  Properties of the configuration life cycle and of the remaining handlers: a validated
  configuration is safe to start with, a reload keeps what needs a restart, a status query
  reveals nothing about the records of other keys, and no answer depends on a secret.
\<close>

subsection \<open>Configuration\<close>

lemma validate_config_facts:
  assumes "validate_config X F config = Inr u"
  shows "parse_socket_addr (sv_bind_address (cf_server config)) \<noteq> None"
    and "x_parse_address X (ml_default_from (cf_mail config)) \<noteq> None"
    and "\<forall>c \<in> set (se_trusted_source_cidrs (cf_security config))
            \<union> set (se_allowed_source_cidrs (cf_security config)). x_parse_net X c \<noteq> None"
    and "sm_tls (cf_smtp config) \<in> {''none'', ''starttls'', ''tls''}"
    and "sm_auth_user (cf_smtp config) = None \<longleftrightarrow> sm_auth_password (cf_smtp config) = None"
    and "sc_enabled (cf_status config) \<Longrightarrow> sc_store (cf_status config) = ''memory''
        \<or> sc_store (cf_status config) = ''sqlite'' \<and> sc_db_path (cf_status config) \<noteq> None \<and> ft_sqlite F
        \<or> sc_store (cf_status config) = ''redis'' \<and> sc_redis_url (cf_status config) \<noteq> None \<and> ft_redis F"
    and "rl_global_per_min (cf_rate_limit config) \<noteq> 0" "rl_per_ip_per_min (cf_rate_limit config) \<noteq> 0"
    and "\<forall>k \<in> set (se_api_keys (cf_security config)). min_secret_len \<le> length (expose (ak_secret k))
           \<and> (\<forall>b \<in> set blocked_secrets. \<not> contains_str (expose (ak_secret k)) b)"
    and "\<exists>k \<in> set (se_api_keys (cf_security config)). ak_enabled k"
  using assms
  by (auto simp: validate_config_def and_then_Inr_iff for_each_Inr_iff check_cidr_def
      check_smtp_tls_def config_check_iffs)

text \<open>C30: A configuration that passes validation is safe to start with: the transport and the
  chosen status store are built without hitting any of the panics of the construction
  (given that TLS parameters can be set up for the host and the backend opens), the bind
  address parses, every secret has at least 32 bytes and contains none of the seven
  placeholders, and some key is enabled.\<close>

theorem validated_config_starts:
  assumes "validate_config X F config = Inr u" and "relay_ok (sm_host (cf_smtp config))"
    and "\<And>choice c. choice \<noteq> Store_Panic \<Longrightarrow> open_store choice c \<noteq> None"
  shows "(\<exists>st. app_state_new relay_ok F open_store now config = Some st \<and> as_config st = config)
    \<and> parse_socket_addr (sv_bind_address (cf_server config)) \<noteq> None
    \<and> (\<forall>k \<in> set (se_api_keys (cf_security config)). 32 \<le> length (expose (ak_secret k))
         \<and> (\<forall>b \<in> {''your-secret-here'', ''generate-with-openssl-rand-base64-32'', ''changeme'', ''secret'',
                 ''password'', ''example-secret'', ''replace-me''}.
              \<not> contains_str (expose (ak_secret k)) b))
    \<and> (\<exists>k \<in> set (se_api_keys (cf_security config)). ak_enabled k)"
proof -
  note facts = validate_config_facts [OF assms(1)]
  have "\<exists>smtp. build_transport relay_ok (cf_smtp config) = Inr smtp"
    using assms(2) by (simp add: build_transport_def Let_def)
  moreover have "choose_store F (cf_status config) \<noteq> Store_Panic"
    using facts(6) by (auto simp: choose_store_def split: option.splits)
  ultimately have "\<exists>st. app_state_new relay_ok F open_store now config = Some st \<and> as_config st = config"
    using assms(3) [of "choose_store F (cf_status config)" "cf_status config"]
    by (auto simp: app_state_new_def split: store_choice.splits)
  with facts show ?thesis by (simp add: min_secret_len_def blocked_secrets_def)
qed

definition no_features :: features where
  "no_features = \<lparr>ft_tls = False, ft_sqlite = False, ft_redis = False\<rparr>"

lemma example_config_valid: "validate_config example_externals no_features example_config = Inr ()"
proof -
  have "check_api_key_secret key_a = Inr ()" "check_api_key_secret key_off = Inr ()"
    by (simp_all add: check_api_key_secret_Inr_iff min_secret_len_def blocked_secrets_def starts_with_def)
  then show ?thesis
    by (simp add: validate_config_def parse_socket_addr_default default_server_config_def
        default_mail_config_def default_security_config_def default_smtp_config_def
        default_status_config_def default_rate_limit_config_def default_logging_config_def
        example_parse_address_def check_smtp_tls_def check_smtp_auth_def check_tls_files_def
        check_status_store_def check_pipe_auth_def)
qed

theorem validated_config_starts_witness:
  "\<exists>st. app_state_new (\<lambda>_. True) no_features (\<lambda>choice c. Some ()) 0 example_config = Some st
     \<and> as_config st = example_config"
  using validated_config_starts [OF example_config_valid, of "\<lambda>_. True" "\<lambda>choice c. Some ()" 0] by simp

text \<open>C31: A reload changes only what it may: the server, SMTP and rate-limit sections and the
  backend of the status store (whether it is enabled, its kind, path and address) stay as
  they were, and so do the running limiter and the transport, while the mail and logging
  sections and the status limits (time to live, number of records, cleanup interval) follow
  the new file, which the store is told. The security section is the exception: the proxy
  and source settings are reported as needing a restart, yet the new values take effect, so
  the only changes a reload can make behind its own report are these three.\<close>

theorem reload_boundary:
  assumes "st' = reload_config ops new_config st"
  shows "cf_server (as_config st') = cf_server (as_config st)
    \<and> cf_smtp (as_config st') = cf_smtp (as_config st)
    \<and> cf_rate_limit (as_config st') = cf_rate_limit (as_config st)
    \<and> sc_enabled (cf_status (as_config st')) = sc_enabled (cf_status (as_config st))
    \<and> sc_store (cf_status (as_config st')) = sc_store (cf_status (as_config st))
    \<and> sc_db_path (cf_status (as_config st')) = sc_db_path (cf_status (as_config st))
    \<and> sc_redis_url (cf_status (as_config st')) = sc_redis_url (cf_status (as_config st))
    \<and> as_limiter st' = as_limiter st \<and> as_smtp st' = as_smtp st
    \<and> cf_mail (as_config st') = cf_mail new_config
    \<and> cf_logging (as_config st') = cf_logging new_config
    \<and> cf_security (as_config st') = cf_security new_config
    \<and> sc_ttl_seconds (cf_status (as_config st')) = sc_ttl_seconds (cf_status new_config)
    \<and> sc_max_records (cf_status (as_config st')) = sc_max_records (cf_status new_config)
    \<and> sc_cleanup_interval_seconds (cf_status (as_config st'))
        = sc_cleanup_interval_seconds (cf_status new_config)
    \<and> as_store st' = fst (so_reload_config ops (cf_status (as_config st')) (as_store st, as_metrics st))
    \<and> restart_required_changes (as_config st) (as_config st')
        = filter (\<lambda>f. f \<in> set reloaded_anyway) (restart_required_changes (as_config st) new_config)"
proof -
  have cfg: "as_config st' = merge_reloadable (as_config st) new_config"
    and rest: "as_limiter st' = as_limiter st" "as_smtp st' = as_smtp st"
      "as_store st' = fst (so_reload_config ops (cf_status (as_config st')) (as_store st, as_metrics st))"
    using assms by (simp_all add: reload_config_def Let_def split: prod.split)
  show ?thesis
    unfolding rest cfg restart_required_merged by (simp add: merge_reloadable_def)
qed

definition example_transport :: smtp_transport where
  "example_transport = \<lparr>st_tls = Plain_Tcp, st_host = ''127.0.0.1'', st_port = 25,
     st_timeout_seconds = 5, st_credentials = None\<rparr>"

theorem reload_boundary_witness:
  "cf_security (as_config (reload_config noop_ops (example_config\<lparr>cf_security :=
       (default_security_config [key_a])\<lparr>se_trust_proxy_headers := True\<rparr>\<rparr>)
     \<lparr>as_config = example_config, as_smtp = example_transport, as_limiter = limiter_new default_rate_limit_config 0,
      as_metrics = metrics_new, as_store = ()\<rparr>)) \<noteq> cf_security example_config"
  by (simp add: reload_boundary [OF refl] default_security_config_def)

text \<open>A SIGHUP with a file that cannot be read, does not parse or does not validate leaves the
  whole state as it was; otherwise the security section in effect afterwards has passed
  validation, so some key is enabled and no secret is shorter than 32 bytes.\<close>

theorem sighup_is_safe:
  "(\<exists>e. load X F toml read_file path = Inl e
       \<and> on_sighup X F toml read_file path ops st = st)
   \<or> (\<exists>k \<in> set (se_api_keys (cf_security (as_config (on_sighup X F toml read_file path ops st)))).
          ak_enabled k)
      \<and> (\<forall>k \<in> set (se_api_keys (cf_security (as_config (on_sighup X F toml read_file path ops st)))).
          32 \<le> length (expose (ak_secret k)))"
proof (cases "load X F toml read_file path")
  case (Inl e)
  then show ?thesis by (simp add: on_sighup_def)
next
  case (Inr new_cfg)
  then have "validate_config X F new_cfg = Inr ()"
    by (auto simp: load_def and_then_Inr_iff split: sum.splits)
  note facts = validate_config_facts [OF this]
  have "cf_security (as_config (on_sighup X F toml read_file path ops st)) = cf_security new_cfg"
    using Inr by (simp add: on_sighup_def reload_config_def merge_reloadable_def Let_def split: prod.split)
  with facts show ?thesis by (simp add: min_secret_len_def)
qed

theorem sighup_is_safe_witness:
  "\<exists>e. load example_externals no_features (\<lambda>_. Inl ''bad'') (\<lambda>_. Inr []) ''f'' = Inl e"
  using sighup_is_safe [of example_externals no_features "\<lambda>_. Inl ''bad''" "\<lambda>_. Inr []" "''f''" noop_ops
      "\<lparr>as_config = example_config\<lparr>cf_security := default_security_config []\<rparr>, as_smtp = example_transport,
        as_limiter = limiter_new default_rate_limit_config 0, as_metrics = metrics_new, as_store = ()\<rparr>"]
  by (simp add: load_def)

subsection \<open>Status queries\<close>

text \<open>
  The body of the 404, as the code has it (\<open>api/submissions.rs\<close>, lines 50-57 and 89-98):
  \<open>request_id\<close> is the id that was looked for; for an absent record \<open>target_request_id\<close> is the
  same, for an ill-formed id there is a fresh \<open>lookup_request_id\<close> instead. RFC 806 asks for the
  id of the query itself as \<open>request_id\<close>.
\<close>

definition not_found_reply :: "externals \<Rightarrow> str \<Rightarrow> str \<Rightarrow> reply_body" where
  "not_found_reply X ulid raw_id =
     (case request_id_from_str X raw_id of
        Inl _ \<Rightarrow> Json_Body (not_found_body (request_id_new ulid) raw_id)
      | Inr i \<Rightarrow> Json_Body (JObj
          [(''status'', JStr ''error''), (''code'', JStr ''submission_not_found''),
           (''message'', JStr ''Submission status was not found or has expired.''),
           (''request_id'', JStr raw_id), (''target_request_id'', JStr i)]))"

text \<open>A status query reveals nothing about other keys' submissions: for a record of another
  key the answer is exactly the one for an id that does not exist.\<close>

theorem status_query_hides_foreign:
  assumes "hm_get (ms_records s) i = Some r" and "sr_key_id r \<noteq> ac_key_id auth"
    and "request_id_from_str X raw_id = Inr i"
  shows "fst (get_submission_status X (memory_ops it) rfc3339 clk ulid auth raw_id (s, m))
    = fst (get_submission_status X (memory_ops it) rfc3339 clk ulid auth raw_id
        (s\<lparr>ms_records := hm_remove i (ms_records s)\<rparr>, m))"
  using assms by (simp add: get_submission_status_def memory_get_def memory_get_read_def)

definition foreign_id :: request_id where
  "foreign_id = request_id_new ''01HX7Q9V6R6W9V8Y5E3E6E7M9A''"

definition foreign_store :: memory_store where
  "foreign_store = (memory_new default_status_config)
     \<lparr>ms_records := [(foreign_id, new_received 0 foreign_id ''svc-b'' 60)]\<rparr>"

theorem status_query_hides_foreign_witness:
  "fst (get_submission_status example_externals (memory_ops (\<lambda>xs. xs)) (\<lambda>_. []) (\<lambda>_. 1) []
       example_auth foreign_id
       (foreign_store, metrics_new))
   = fst (get_submission_status example_externals (memory_ops (\<lambda>xs. xs)) (\<lambda>_. []) (\<lambda>_. 1) []
       example_auth foreign_id
       (memory_new default_status_config, metrics_new))"
proof -
  have "request_id_from_str example_externals foreign_id = Inr foreign_id"
    by (auto simp: request_id_from_str_Inr_iff foreign_id_def request_id_new_def)
  from status_query_hides_foreign [where s = foreign_store and r = "new_received 0 foreign_id ''svc-b'' 60",
      OF _ _ this]
  show ?thesis
    by (simp add: foreign_store_def new_received_def example_auth_def hm_remove_def memory_new_def)
qed

text \<open>C32: A status query answers 200 exactly for a well-formed id of a live record of the asking
  key, with that record; every other query is a 404 (the in-memory store has no 503). The
  body of the 404 is that of the code, which departs from RFC 806: its request_id is always
  the id that was looked for; for an absent record the target_request_id is the same one,
  and for an ill-formed id there is a fresh lookup_request_id in its place.\<close>

theorem status_query_exact:
  "fst (get_submission_status X (memory_ops it) rfc3339 clk ulid auth raw_id (s, m))
     = (case hm_get (ms_records s) raw_id of
          Some r \<Rightarrow>
            if (\<exists>u. raw_id = request_id_new u \<and> x_ulid_ok X u) \<and> sr_key_id r = ac_key_id auth
              \<and> \<not> is_expired (clk 0) r
            then (200, Json_Body (serialize_record rfc3339 r))
            else (404, not_found_reply X ulid raw_id)
        | None \<Rightarrow> (404, not_found_reply X ulid raw_id))"
proof (cases "request_id_from_str X raw_id")
  case (Inl e)
  then have "\<not> (\<exists>u. raw_id = request_id_new u \<and> x_ulid_ok X u)"
    using request_id_from_str_Inr_iff [of X raw_id raw_id] by auto
  with Inl show ?thesis
    by (cases "hm_get (ms_records s) raw_id") (simp_all add: get_submission_status_def not_found_reply_def)
next
  case (Inr i)
  then have "i = raw_id" "\<exists>u. raw_id = request_id_new u \<and> x_ulid_ok X u"
    by (simp_all add: request_id_from_str_Inr_iff)
  with Inr show ?thesis
    by (cases "hm_get (ms_records s) raw_id")
       (simp_all add: get_submission_status_def not_found_reply_def memory_get_def memory_get_read_def)
qed

subsection \<open>Secrets\<close>

text \<open>No answer about a key contains its secret: replacing the secrets of all keys by any
  others leaves the answer of the key description unchanged.\<close>

theorem key_self_hides_secret:
  "get_key_self (cfg\<lparr>cf_security := (cf_security cfg)\<lparr>se_api_keys :=
       List.map (\<lambda>k. k\<lparr>ak_secret := f k\<rparr>) (se_api_keys (cf_security cfg))\<rparr>\<rparr>) auth
     = get_key_self cfg auth"
proof -
  have "find (\<lambda>k. ak_id k = i) (List.map (\<lambda>k. k\<lparr>ak_secret := f k\<rparr>) ks)
      = map_option (\<lambda>k. k\<lparr>ak_secret := f k\<rparr>) (find (\<lambda>k. ak_id k = i) ks)" for i ks
    by (induction ks) auto
  then show ?thesis by (simp add: get_key_self_def key_json_def split: option.split)
qed

end
