(* ===== verification/Status_Sqlite.thy ===== *)
theory Status_Sqlite
  imports Status_Contract Request_Id
begin

text \<open>
  \<open>status_sqlite.rs\<close>: the store behind a SQLite connection. The table is its list of rows
  in insertion order, a row has the text columns of \<open>migrations/001_initial.sql\<close>, and each
  SQL statement of the program is a function on the rows. SQLite itself is outside the
  program: any statement may fail, without effect and with an error text, as the fault
  oracle says for the number of statements executed before it. \<open>chrono\<close>'s RFC 3339 text
  and \<open>serde_json\<close>'s text of a list of domains are a record of functions.
\<close>

subsection \<open>Rows and encodings\<close>

record sql_row =
  rw_request_id :: str
  rw_key_id :: str
  rw_status :: str
  rw_code :: "str option"
  rw_message :: "str option"
  rw_recipient_domains :: str
  rw_recipient_count :: int
  rw_created_at :: str
  rw_updated_at :: str
  rw_expires_at :: str

record sqlite_codec =
  qc_rfc3339 :: "time \<Rightarrow> str"
  qc_parse_rfc3339 :: "str \<Rightarrow> time option"
  qc_domains_json :: "domain list \<Rightarrow> str option"
  qc_parse_domains :: "str \<Rightarrow> domain list option"
  qc_fresh_ulid :: str

definition parse_status :: "str \<Rightarrow> submission_status" where
  "parse_status s =
     (if s = ''received'' then Received
      else if s = ''rejected'' then Rejected
      else if s = ''smtp_submission_started'' then SmtpSubmissionStarted
      else if s = ''smtp_accepted'' then SmtpAccepted
      else if s = ''smtp_failed'' then SmtpFailed
      else Received)"

text \<open>The variants of \<open>ErrorCode\<close> by their serialised names.\<close>

definition error_codes :: "error_code list" where
  "error_codes =
     [Code_BadRequest, Code_ValidationFailed, Code_Unauthorized, Code_Forbidden,
      Code_PayloadTooLarge, Code_UnsupportedMediaType, Code_RateLimited, Code_SmtpUnavailable,
      Code_SmtpRejected, Code_SubmissionNotFound, Code_StatusStoreUnavailable,
      Code_FeatureDisabled, Code_InternalError]"

definition parse_code :: "str \<Rightarrow> error_code option" where
  "parse_code s = find (\<lambda>c. code_as_str c = s) error_codes"

definition domains_json :: "sqlite_codec \<Rightarrow> domain list \<Rightarrow> str" where
  "domains_json Q ds = (case qc_domains_json Q ds of Some s \<Rightarrow> s | None \<Rightarrow> ''[]'')"

text \<open>The parameters bound to the columns of \<open>INSERT\<close>.\<close>

definition record_to_row :: "sqlite_codec \<Rightarrow> status_record \<Rightarrow> sql_row" where
  "record_to_row Q r =
     \<lparr>rw_request_id = sr_request_id r, rw_key_id = sr_key_id r,
      rw_status = status_str (sr_status r), rw_code = map_option code_as_str (sr_code r),
      rw_message = sr_message r, rw_recipient_domains = domains_json Q (sr_recipient_domains r),
      rw_recipient_count = int (unat (sr_recipient_count r)),
      rw_created_at = qc_rfc3339 Q (sr_created_at r),
      rw_updated_at = qc_rfc3339 Q (sr_updated_at r),
      rw_expires_at = qc_rfc3339 Q (sr_expires_at r)\<rparr>"

text \<open>\<open>row_to_record\<close>: each column that does not parse has a fallback; a time falls back to
  one more reading of the clock.\<close>

definition parse_ts :: "sqlite_codec \<Rightarrow> time \<Rightarrow> str \<Rightarrow> time" where
  "parse_ts Q now s = (case qc_parse_rfc3339 Q s of Some t \<Rightarrow> t | None \<Rightarrow> now)"

definition row_to_record :: "externals \<Rightarrow> sqlite_codec \<Rightarrow> clock \<Rightarrow> sql_row \<Rightarrow> status_record" where
  "row_to_record X Q clk row =
     \<lparr>sr_request_id = (case request_id_from_str X (rw_request_id row) of
                         Inr i \<Rightarrow> i | Inl _ \<Rightarrow> request_id_new (qc_fresh_ulid Q)),
      sr_key_id = rw_key_id row,
      sr_status = parse_status (rw_status row),
      sr_code = Option.bind (rw_code row) parse_code,
      sr_message = rw_message row,
      sr_recipient_domains = (case qc_parse_domains Q (rw_recipient_domains row) of
                                Some ds \<Rightarrow> ds | None \<Rightarrow> []),
      sr_recipient_count = word_of_int (rw_recipient_count row),
      sr_created_at = parse_ts Q (clk 1) (rw_created_at row),
      sr_updated_at = parse_ts Q (clk 2) (rw_updated_at row),
      sr_expires_at = parse_ts Q (clk 3) (rw_expires_at row)\<rparr>"

subsection \<open>Statements\<close>

type_synonym sql_fault = "nat \<Rightarrow> str option"

record sqlite_store =
  sq_rows :: "sql_row list"
  sq_config :: status_config
  sq_tick :: nat

definition statement ::
  "sql_fault \<Rightarrow> (sql_row list \<Rightarrow> str + 'a \<times> sql_row list) \<Rightarrow> sqlite_store \<Rightarrow> (str + 'a) \<times> sqlite_store" where
  "statement flt f s =
     (let s' = s\<lparr>sq_tick := Suc (sq_tick s)\<rparr> in
      case flt (sq_tick s) of
        Some e \<Rightarrow> (Inl e, s')
      | None \<Rightarrow> (case f (sq_rows s) of
                  Inl e \<Rightarrow> (Inl e, s')
                | Inr (a, rows) \<Rightarrow> (Inr a, s'\<lparr>sq_rows := rows\<rparr>)))"

definition unwrap_or :: "'e + 'a \<Rightarrow> 'a \<Rightarrow> 'a" where
  "unwrap_or r d = (case r of Inr a \<Rightarrow> a | Inl _ \<Rightarrow> d)"

text \<open>The \<open>CHECK\<close> constraints of the table.\<close>

definition row_constraints :: "sql_row \<Rightarrow> bool" where
  "row_constraints row \<longleftrightarrow>
     rw_status row \<in> {''received'', ''rejected'', ''smtp_submission_started'', ''smtp_accepted'',
                      ''smtp_failed''}
     \<and> rw_recipient_count row \<ge> 0"

text \<open>Each statement returns its number of rows; a \<open>SELECT\<close> its first row, if any.\<close>

definition sql_count :: "sql_row list \<Rightarrow> str + nat \<times> sql_row list" where
  "sql_count rows = Inr (length rows, rows)"

definition sql_insert_or_ignore :: "sql_row \<Rightarrow> sql_row list \<Rightarrow> str + nat \<times> sql_row list" where
  "sql_insert_or_ignore row rows =
     (if row_constraints row \<and> rw_request_id row \<notin> rw_request_id ` set rows
      then Inr (1, rows @ [row]) else Inr (0, rows))"

definition sql_update ::
  "(sql_row \<Rightarrow> bool) \<Rightarrow> (sql_row \<Rightarrow> sql_row) \<Rightarrow> sql_row list \<Rightarrow> str + nat \<times> sql_row list" where
  "sql_update P f rows =
     (if \<exists>r \<in> set rows. P r \<and> \<not> row_constraints (f r) then Inl ''CHECK constraint failed''
      else Inr (length (filter P rows), map (\<lambda>r. if P r then f r else r) rows))"

definition sql_delete :: "(sql_row \<Rightarrow> bool) \<Rightarrow> sql_row list \<Rightarrow> str + nat \<times> sql_row list" where
  "sql_delete P rows = Inr (length (filter P rows), filter (\<lambda>r. \<not> P r) rows)"

definition sql_select :: "(sql_row \<Rightarrow> bool) \<Rightarrow> sql_row list \<Rightarrow> str + sql_row option \<times> sql_row list" where
  "sql_select P rows = Inr (find P rows, rows)"

text \<open>
  The order of rows of equal \<open>created_at\<close> is left open by SQL: \<open>it\<close> is a function that
  permutes the rows before they are sorted.
\<close>

type_synonym row_order = "sql_row list \<Rightarrow> sql_row list"

definition sql_oldest :: "row_order \<Rightarrow> nat \<Rightarrow> sql_row list \<Rightarrow> str list" where
  "sql_oldest it excess rows = map rw_request_id (take excess (sort_key rw_created_at (it rows)))"

subsection \<open>Operations\<close>

definition evict_if_needed :: "row_order \<Rightarrow> sql_fault \<Rightarrow> usize \<Rightarrow> sqlite_store \<Rightarrow> sqlite_store" where
  "evict_if_needed it flt max_records s =
     (case statement flt sql_count s of
        (res, s1) \<Rightarrow>
          (let count = unwrap_or res 0 in
           if count \<ge> unat max_records
           then (let excess = max (count - unat max_records) 1 in
                 snd (statement flt
                   (\<lambda>rows. sql_delete (\<lambda>r. rw_request_id r \<in> set (sql_oldest it excess rows)) rows) s1))
           else s1))"

definition sqlite_put_received ::
  "sqlite_codec \<Rightarrow> row_order \<Rightarrow> sql_fault \<Rightarrow> status_record \<Rightarrow> sqlite_store \<times> metrics \<Rightarrow>
     (status_store_error + unit) \<times> sqlite_store \<times> metrics" where
  "sqlite_put_received Q it flt record x =
     (case x of (s, m) \<Rightarrow>
        (case statement flt (sql_insert_or_ignore (record_to_row Q record))
                (evict_if_needed it flt (sc_max_records (sq_config s)) s) of
           (Inr n, s') \<Rightarrow>
             if n = 1 then (Inr (), s', status_record_created m) else (Inr (), s', m)
         | (Inl e, s') \<Rightarrow> (Inl (BackendUnavailable e), s', status_store_error ''put_received'' m)))"

definition sqlite_set_recipient_metadata ::
  "sqlite_codec \<Rightarrow> sql_fault \<Rightarrow> clock \<Rightarrow> request_id \<Rightarrow> str \<Rightarrow> domain list \<Rightarrow> u32 \<Rightarrow>
     sqlite_store \<times> metrics \<Rightarrow> (status_store_error + unit) \<times> sqlite_store \<times> metrics" where
  "sqlite_set_recipient_metadata Q flt clk request_id key_id domains count x =
     (case x of (s, m) \<Rightarrow>
        (Inr (), snd (statement flt
           (sql_update (\<lambda>r. rw_request_id r = request_id \<and> rw_key_id r = key_id)
              (\<lambda>r. r\<lparr>rw_recipient_domains := domains_json Q domains,
                     rw_recipient_count := int (unat count)\<rparr>)) s), m))"

text \<open>The text of the clock reading \<open>now\<close> is compared with the column byte by byte.\<close>

definition update_matches :: "str \<Rightarrow> request_id \<Rightarrow> str \<Rightarrow> sql_row \<Rightarrow> bool" where
  "update_matches now_str request_id key_id r \<longleftrightarrow>
     rw_request_id r = request_id \<and> rw_key_id r = key_id \<and> rw_expires_at r > now_str
     \<and> rw_status r \<notin> {''rejected'', ''smtp_accepted'', ''smtp_failed''}"

definition update_row :: "str \<Rightarrow> status_update \<Rightarrow> sql_row \<Rightarrow> sql_row" where
  "update_row now_str update r =
     r\<lparr>rw_status := status_str (su_status update),
       rw_code := map_option code_as_str (su_code update),
       rw_message := su_message update, rw_updated_at := now_str\<rparr>"

definition sqlite_update_status ::
  "sqlite_codec \<Rightarrow> sql_fault \<Rightarrow> clock \<Rightarrow> request_id \<Rightarrow> str \<Rightarrow> status_update \<Rightarrow>
     sqlite_store \<times> metrics \<Rightarrow> (status_store_error + unit) \<times> sqlite_store \<times> metrics" where
  "sqlite_update_status Q flt clk request_id key_id update x =
     (case x of (s, m) \<Rightarrow>
        (let now_str = qc_rfc3339 Q (clk 0) in
         case statement flt (sql_update (update_matches now_str request_id key_id)
                (update_row now_str update)) s of
           (res, s') \<Rightarrow>
             (Inr (), s',
              if unwrap_or res 0 > 0
              then status_transitioned (status_str (su_status update))
                     (case su_code update of Some c \<Rightarrow> code_as_str c | None \<Rightarrow> ''none'') m
              else m)))"

definition sqlite_get ::
  "externals \<Rightarrow> sqlite_codec \<Rightarrow> sql_fault \<Rightarrow> clock \<Rightarrow> request_id \<Rightarrow> str \<Rightarrow>
     sqlite_store \<times> metrics \<Rightarrow>
     (status_store_error + status_record option) \<times> sqlite_store \<times> metrics" where
  "sqlite_get X Q flt clk request_id key_id x =
     (case x of (s, m) \<Rightarrow>
        (let now_str = qc_rfc3339 Q (clk 0) in
         case statement flt (sql_select (\<lambda>r. rw_request_id r = request_id \<and> rw_key_id r = key_id
                \<and> rw_expires_at r > now_str)) s of
           (Inr (Some row), s1) \<Rightarrow> (Inr (Some (row_to_record X Q clk row)), s1, m)
         | (Inr None, s1) \<Rightarrow>
             (case statement flt (sql_delete (\<lambda>r. rw_request_id r = request_id
                     \<and> rw_expires_at r \<le> now_str)) s1 of
                (res, s2) \<Rightarrow>
                  (Inr None, s2,
                   if unwrap_or res 0 > 0 then status_record_expired_one m else m))
         | (Inl e, s1) \<Rightarrow> (Inl (BackendUnavailable e), s1, status_store_error ''get'' m)))"

definition sqlite_expire_old_records ::
  "sqlite_codec \<Rightarrow> row_order \<Rightarrow> sql_fault \<Rightarrow> clock \<Rightarrow> sqlite_store \<times> metrics \<Rightarrow>
     sqlite_store \<times> metrics" where
  "sqlite_expire_old_records Q it flt clk x =
     (case x of (s, m) \<Rightarrow>
        (case statement flt (sql_delete (\<lambda>r. rw_expires_at r \<le> qc_rfc3339 Q (clk 0))) s of
           (res, s1) \<Rightarrow>
             (let deleted = unwrap_or res 0 in
              (evict_if_needed it flt (sc_max_records (sq_config s)) s1,
               if deleted > 0 then status_records_expired deleted m else m))))"

definition sqlite_record_count ::
  "sql_fault \<Rightarrow> sqlite_store \<times> metrics \<Rightarrow> nat \<times> sqlite_store \<times> metrics" where
  "sqlite_record_count flt x =
     (case x of (s, m) \<Rightarrow>
        (case statement flt sql_count s of
           (res, s1) \<Rightarrow> (unwrap_or res 0, s1, status_set_current (unwrap_or res 0) m)))"

definition sqlite_reload_config ::
  "status_config \<Rightarrow> sqlite_store \<times> metrics \<Rightarrow> sqlite_store \<times> metrics" where
  "sqlite_reload_config config x = (case x of (s, m) \<Rightarrow> (s\<lparr>sq_config := config\<rparr>, m))"

definition sqlite_ops ::
  "externals \<Rightarrow> sqlite_codec \<Rightarrow> row_order \<Rightarrow> sql_fault \<Rightarrow> sqlite_store status_ops" where
  "sqlite_ops X Q it flt =
     \<lparr>so_put_received = sqlite_put_received Q it flt,
      so_set_recipient_metadata = sqlite_set_recipient_metadata Q flt,
      so_update_status = sqlite_update_status Q flt,
      so_get = sqlite_get X Q flt,
      so_expire_old_records = sqlite_expire_old_records Q it flt,
      so_record_count = sqlite_record_count flt,
      so_reload_config = sqlite_reload_config\<rparr>"

subsection \<open>Opening the database\<close>

text \<open>
  A database before the store is built: its rows, once the table exists, and the
  \<open>user_version\<close>. The migration \<open>001_initial.sql\<close> creates the table if there is none.
  \<open>exec\<close> says whether a batch fails; a batch is one transaction. A file at the current
  version has the table, as only a migration sets the version.
\<close>

record sqlite_db =
  db_rows :: "sql_row list option"
  db_version :: u32

definition schema_version :: u32 where
  "schema_version = 1"

definition migration_001 :: "sqlite_db \<Rightarrow> sqlite_db" where
  "migration_001 db = db\<lparr>db_rows := Some (case db_rows db of Some rows \<Rightarrow> rows | None \<Rightarrow> [])\<rparr>"

definition migrations :: "(u32 \<times> (sqlite_db \<Rightarrow> sqlite_db)) list" where
  "migrations = [(0, migration_001)]"

datatype migration_error = Sql_Failed str | Newer_Schema u32

fun migrate_loop ::
  "(u32 \<Rightarrow> str option) \<Rightarrow> u32 \<Rightarrow> (u32 \<times> (sqlite_db \<Rightarrow> sqlite_db)) list \<Rightarrow> sqlite_db \<Rightarrow>
     (migration_error + unit) \<times> sqlite_db" where
  "migrate_loop exec current [] db = (Inr (), db)"
| "migrate_loop exec current ((required_from, sql) # rest) db =
     (if required_from \<ge> current \<and> required_from < schema_version
      then (case exec required_from of
              Some e \<Rightarrow> (Inl (Sql_Failed e), db)
            | None \<Rightarrow> migrate_loop exec current rest
                        ((sql db)\<lparr>db_version := required_from + 1\<rparr>))
      else migrate_loop exec current rest db)"

definition run_migrations ::
  "str option \<Rightarrow> (u32 \<Rightarrow> str option) \<Rightarrow> sqlite_db \<Rightarrow> (migration_error + unit) \<times> sqlite_db" where
  "run_migrations read_fault exec db =
     (case read_fault of
        Some e \<Rightarrow> (Inl (Sql_Failed e), db)
      | None \<Rightarrow>
          if db_version db = schema_version then (Inr (), db)
          else if db_version db > schema_version then (Inl (Newer_Schema (db_version db)), db)
          else migrate_loop exec (db_version db) migrations db)"

datatype open_error = Missing_Dir str | Open_Failed str | Init_Failed str | Migration_Failed migration_error

text \<open>\<open>SqliteStatusStore::open\<close>: \<open>conn\<close> is the outcome of opening the file, \<open>init_fault\<close>
  that of setting the pragmas.\<close>

definition sqlite_open ::
  "(str \<Rightarrow> str option) \<Rightarrow> (str \<Rightarrow> bool) \<Rightarrow> (str + sqlite_db) \<Rightarrow> str option \<Rightarrow> str option \<Rightarrow>
     (u32 \<Rightarrow> str option) \<Rightarrow> str \<Rightarrow> status_config \<Rightarrow> open_error + sqlite_store" where
  "sqlite_open parent dir_exists conn init_fault read_fault exec path config =
     and_then (case parent path of
                 Some dir \<Rightarrow> guard_err (\<not> dir_exists dir) (Missing_Dir dir)
               | None \<Rightarrow> Inr ()) (\<lambda>_.
     and_then (case conn of Inl e \<Rightarrow> Inl (Open_Failed e) | Inr db \<Rightarrow> Inr db) (\<lambda>db.
     and_then (case init_fault of Some e \<Rightarrow> Inl (Init_Failed e) | None \<Rightarrow> Inr ()) (\<lambda>_.
       case run_migrations read_fault exec db of
         (Inl e, _) \<Rightarrow> Inl (Migration_Failed e)
       | (Inr _, db') \<Rightarrow>
           Inr \<lparr>sq_rows = (case db_rows db' of Some rows \<Rightarrow> rows | None \<Rightarrow> []),
                sq_config = config, sq_tick = 0\<rparr>)))"

end
