(* ===== verification/Status_Sqlite_Props.thy ===== *)
theory Status_Sqlite_Props
  imports Status_Sqlite
begin

text \<open>
  The SQLite store refines the store contract under any failures of its statements, and
  tracks every submission when no statement fails. The abstraction is that each row is the
  encoding of a record; it rests on named hypotheses on \<open>chrono\<close> and \<open>serde_json\<close>, which
  are stated here and part of the store's invariant.
\<close>

subsection \<open>What the encodings promise\<close>

text \<open>
  On the times RFC 3339 can express the text parses back and its bytes are in the order of
  time. The JSON text of a list of strings parses
  back.
\<close>

definition codec_ok :: "sqlite_codec \<Rightarrow> bool" where
  "codec_ok Q \<longleftrightarrow>
     (\<forall>t. time_ok t \<longrightarrow> qc_parse_rfc3339 Q (qc_rfc3339 Q t) = Some t)
     \<and> (\<forall>t t'. time_ok t \<longrightarrow> time_ok t' \<longrightarrow> t < t' \<longrightarrow> qc_rfc3339 Q t < qc_rfc3339 Q t')
     \<and> (\<forall>ds. \<exists>s. qc_domains_json Q ds = Some s \<and> qc_parse_domains Q s = Some ds)"

lemma rfc3339_less:
  assumes "codec_ok Q" and "time_ok t" and "time_ok t'"
  shows "qc_rfc3339 Q t < qc_rfc3339 Q t' \<longleftrightarrow> t < t'"
  using assms unfolding codec_ok_def by (metis linorder_neqE_linordered_idom order_less_asym less_irrefl)

definition record_ok :: "externals \<Rightarrow> status_record \<Rightarrow> bool" where
  "record_ok X r \<longleftrightarrow>
     (\<exists>u. sr_request_id r = request_id_new u \<and> x_ulid_ok X u)
     \<and> time_ok (sr_created_at r) \<and> time_ok (sr_updated_at r) \<and> time_ok (sr_expires_at r)"

lemma parse_status_str [simp]: "parse_status (status_str s) = s"
  by (cases s) (simp_all add: parse_status_def)

lemma parse_code_str [simp]: "parse_code (code_as_str c) = Some c"
  by (cases c) (simp_all add: parse_code_def error_codes_def)

lemma row_round_trip:
  assumes "codec_ok Q" and "record_ok X r"
  shows "row_to_record X Q clk (record_to_row Q r) = r"
proof -
  have "request_id_from_str X (sr_request_id r) = Inr (sr_request_id r)"
    using assms(2) by (simp add: record_ok_def request_id_from_str_Inr_iff)
  moreover have "(case qc_parse_domains Q (domains_json Q ds) of Some ds \<Rightarrow> ds | None \<Rightarrow> []) = ds" for ds
  proof -
    obtain s where "qc_domains_json Q ds = Some s" "qc_parse_domains Q s = Some ds"
      using assms(1) unfolding codec_ok_def by blast
    then show ?thesis by (simp add: domains_json_def)
  qed
  moreover have "Option.bind (map_option code_as_str c) parse_code = c" for c
    by (cases c) simp_all
  moreover have "parse_ts Q t (qc_rfc3339 Q t') = t'" if "time_ok t'" for t t'
    using assms(1) that by (simp add: codec_ok_def parse_ts_def)
  ultimately show ?thesis
    using assms(2) by (simp add: row_to_record_def record_to_row_def record_ok_def)
qed

lemma record_to_row_id [simp]:
  "rw_request_id (record_to_row Q r) = sr_request_id r" "rw_key_id (record_to_row Q r) = sr_key_id r"
  "rw_expires_at (record_to_row Q r) = qc_rfc3339 Q (sr_expires_at r)"
  "rw_status (record_to_row Q r) = status_str (sr_status r)"
  by (simp_all add: record_to_row_def)

lemma record_to_row_constraints [simp]: "row_constraints (record_to_row Q r)"
  by (cases "sr_status r") (simp_all add: row_constraints_def record_to_row_def)

subsection \<open>Invariant and view\<close>

definition sqlite_ok :: "externals \<Rightarrow> sqlite_codec \<Rightarrow> sqlite_store \<Rightarrow> bool" where
  "sqlite_ok X Q s \<longleftrightarrow>
     codec_ok Q \<and> distinct (map rw_request_id (sq_rows s))
     \<and> (\<forall>row \<in> set (sq_rows s). \<exists>r. record_ok X r \<and> row = record_to_row Q r)"

definition sqlite_view :: "externals \<Rightarrow> sqlite_codec \<Rightarrow> sqlite_store \<Rightarrow> request_id \<Rightarrow> status_record option" where
  "sqlite_view X Q s i =
     map_option (row_to_record X Q (\<lambda>_. 0)) (find (\<lambda>row. rw_request_id row = i) (sq_rows s))"

lemma sqlite_ok_codec: "sqlite_ok X Q s \<Longrightarrow> codec_ok Q"
  by (simp add: sqlite_ok_def)

lemma sqlite_rowE:
  assumes "sqlite_ok X Q s" and "row \<in> set (sq_rows s)"
  obtains r where "record_ok X r" "row = record_to_row Q r"
  using assms unfolding sqlite_ok_def by blast

lemma view_iff:
  assumes "sqlite_ok X Q s"
  shows "sqlite_view X Q s i = Some r \<longleftrightarrow>
    record_ok X r \<and> sr_request_id r = i \<and> record_to_row Q r \<in> set (sq_rows s)"
proof
  assume "sqlite_view X Q s i = Some r"
  then obtain row where find: "find (\<lambda>row. rw_request_id row = i) (sq_rows s) = Some row"
    and r: "r = row_to_record X Q (\<lambda>_. 0) row" by (auto simp: sqlite_view_def)
  have row: "rw_request_id row = i" "row \<in> set (sq_rows s)" using find_SomeD [OF find] by simp_all
  obtain r' where "record_ok X r'" "row = record_to_row Q r'" by (rule sqlite_rowE [OF assms row(2)])
  with row r show "record_ok X r \<and> sr_request_id r = i \<and> record_to_row Q r \<in> set (sq_rows s)"
    by (simp add: row_round_trip [OF sqlite_ok_codec [OF assms]])
next
  assume *: "record_ok X r \<and> sr_request_id r = i \<and> record_to_row Q r \<in> set (sq_rows s)"
  have "distinct (map rw_request_id (sq_rows s))" using assms by (simp add: sqlite_ok_def)
  from find_distinct_key [OF this] * have
    "find (\<lambda>row. rw_request_id row = i) (sq_rows s) = Some (record_to_row Q r)"
    by (metis record_to_row_id(1))
  with * show "sqlite_view X Q s i = Some r"
    by (simp add: sqlite_view_def row_round_trip [OF sqlite_ok_codec [OF assms]])
qed

lemma view_cong: "sq_rows s = sq_rows s' \<Longrightarrow> sqlite_view X Q s i = sqlite_view X Q s' i"
  by (simp add: sqlite_view_def)

lemma ok_cong: "sq_rows s = sq_rows s' \<Longrightarrow> sqlite_ok X Q s = sqlite_ok X Q s'"
  by (simp add: sqlite_ok_def)

subsection \<open>Statements\<close>

lemma statement_rows_disj:
  "sq_rows (snd (statement flt f s)) = sq_rows s
   \<or> (\<exists>a. f (sq_rows s) = Inr (a, sq_rows (snd (statement flt f s)))
        \<and> fst (statement flt f s) = Inr a)"
  by (auto simp: statement_def Let_def split: option.split sum.split prod.split)

lemma statement_config [simp]: "sq_config (snd (statement flt f s)) = sq_config s"
  by (auto simp: statement_def Let_def split: option.split sum.split prod.split)

definition no_fault :: sql_fault where
  "no_fault = (\<lambda>_. None)"

lemma statement_no_fault:
  "f (sq_rows s) = Inr (a, rows) \<Longrightarrow>
     statement no_fault f s = (Inr a, s\<lparr>sq_tick := Suc (sq_tick s), sq_rows := rows\<rparr>)"
  by (simp add: statement_def no_fault_def)

text \<open>Statements that only delete.\<close>

definition shrinks :: "sqlite_store \<Rightarrow> sqlite_store \<Rightarrow> bool" where
  "shrinks s s' \<longleftrightarrow> sq_config s' = sq_config s \<and> (\<exists>P. sq_rows s' = filter P (sq_rows s))"

lemma shrinks_refl [simp]: "sq_rows s' = sq_rows s \<Longrightarrow> sq_config s' = sq_config s \<Longrightarrow> shrinks s s'"
  by (auto simp: shrinks_def intro!: exI [of _ "\<lambda>_. True"])

lemma shrinks_trans: "shrinks s s' \<Longrightarrow> shrinks s' s'' \<Longrightarrow> shrinks s s''"
  by (auto simp: shrinks_def)

lemma shrinks_count: "shrinks s (snd (statement flt sql_count s))"
  using statement_rows_disj [of flt sql_count s] by (auto simp: sql_count_def)

lemma shrinks_select: "shrinks s (snd (statement flt (sql_select P) s))"
  using statement_rows_disj [of flt "sql_select P" s] by (auto simp: sql_select_def)

lemma shrinks_delete: "shrinks s (snd (statement flt (sql_delete P) s))"
proof -
  consider "sq_rows (snd (statement flt (sql_delete P) s)) = sq_rows s"
    | "sq_rows (snd (statement flt (sql_delete P) s)) = filter (\<lambda>r. \<not> P r) (sq_rows s)"
    using statement_rows_disj [of flt "sql_delete P" s] by (auto simp: sql_delete_def)
  then show ?thesis by cases (simp, auto simp: shrinks_def)
qed

lemma shrinks_delete': "shrinks s (snd (statement flt (\<lambda>rows. sql_delete (P rows) rows) s))"
proof -
  consider "sq_rows (snd (statement flt (\<lambda>rows. sql_delete (P rows) rows) s)) = sq_rows s"
    | "sq_rows (snd (statement flt (\<lambda>rows. sql_delete (P rows) rows) s))
        = filter (\<lambda>r. \<not> P (sq_rows s) r) (sq_rows s)"
    using statement_rows_disj [of flt "\<lambda>rows. sql_delete (P rows) rows" s] by (auto simp: sql_delete_def)
  then show ?thesis by cases (simp, auto simp: shrinks_def)
qed

lemma shrinks_evict: "shrinks s (evict_if_needed it flt mx s)"
proof (cases "statement flt sql_count s")
  case (Pair res s1)
  have "shrinks s s1" using shrinks_count [of s flt] Pair by simp
  with Pair show ?thesis
    by (auto simp: evict_if_needed_def Let_def intro: shrinks_trans [OF _ shrinks_delete'])
qed

lemma shrinks_ok: "shrinks s s' \<Longrightarrow> sqlite_ok X Q s \<Longrightarrow> sqlite_ok X Q s'"
  by (auto simp: shrinks_def sqlite_ok_def distinct_map_filter)

lemma shrinks_view:
  assumes "shrinks s s'" and "sqlite_ok X Q s"
  shows "sqlite_view X Q s' i = sqlite_view X Q s i \<or> sqlite_view X Q s' i = None"
proof (cases "sqlite_view X Q s' i")
  case (Some r)
  then have "record_ok X r \<and> sr_request_id r = i \<and> record_to_row Q r \<in> set (sq_rows s')"
    by (simp add: view_iff [OF shrinks_ok [OF assms]])
  then have "sqlite_view X Q s i = Some r"
    using assms(1) by (auto simp: view_iff [OF assms(2)] shrinks_def)
  with Some show ?thesis by simp
qed simp

subsection \<open>Updates and insertion\<close>

text \<open>An update that acts on the encodings as \<open>h\<close> does on the records.\<close>

definition acts_as ::
  "externals \<Rightarrow> sqlite_codec \<Rightarrow> (sql_row \<Rightarrow> bool) \<Rightarrow> (sql_row \<Rightarrow> sql_row) \<Rightarrow> (status_record \<Rightarrow> status_record) \<Rightarrow> bool" where
  "acts_as X Q P f h \<longleftrightarrow>
     (\<forall>r. record_ok X r \<longrightarrow> sr_request_id (h r) = sr_request_id r \<and> record_ok X (h r)
        \<and> (if P (record_to_row Q r) then f (record_to_row Q r) else record_to_row Q r)
            = record_to_row Q (h r))"

lemma update_rows:
  "sq_rows (snd (statement flt (sql_update P f) s)) = sq_rows s
   \<or> sq_rows (snd (statement flt (sql_update P f) s)) = map (\<lambda>r. if P r then f r else r) (sq_rows s)"
  using statement_rows_disj [of flt "sql_update P f" s] by (auto simp: sql_update_def split: if_splits)

lemma mapped_ok:
  assumes "acts_as X Q P f h" and ok: "sqlite_ok X Q s"
    and rows: "sq_rows s' = map (\<lambda>r. if P r then f r else r) (sq_rows s)"
  shows "sqlite_ok X Q s'" and "sqlite_view X Q s' i = map_option h (sqlite_view X Q s i)"
proof -
  let ?g = "\<lambda>r. if P r then f r else r"
  have g: "\<exists>r. record_ok X r \<and> row = record_to_row Q r \<and> ?g row = record_to_row Q (h r)
      \<and> record_ok X (h r) \<and> sr_request_id (h r) = sr_request_id r" if "row \<in> set (sq_rows s)" for row
    using assms(1) sqlite_rowE [OF ok that] unfolding acts_as_def by metis
  have "rw_request_id (?g row) = rw_request_id row" if "row \<in> set (sq_rows s)" for row
    using g [OF that] by (metis record_to_row_id(1))
  then have "map rw_request_id (sq_rows s') = map rw_request_id (sq_rows s)"
    by (simp add: rows)
  moreover have "\<exists>r. record_ok X r \<and> row' = record_to_row Q r" if "row' \<in> set (sq_rows s')" for row'
  proof -
    from that obtain row where "row \<in> set (sq_rows s)" "row' = ?g row" by (auto simp: rows)
    with g show ?thesis by metis
  qed
  ultimately show ok': "sqlite_ok X Q s'"
    using ok by (simp add: sqlite_ok_def)
  show "sqlite_view X Q s' i = map_option h (sqlite_view X Q s i)"
  proof (cases "sqlite_view X Q s i")
    case (Some r)
    then have r: "record_ok X r" "sr_request_id r = i" "record_to_row Q r \<in> set (sq_rows s)"
      by (simp_all add: view_iff [OF ok])
    with assms(1) have "record_ok X (h r)" "sr_request_id (h r) = i" "?g (record_to_row Q r) = record_to_row Q (h r)"
      unfolding acts_as_def by auto
    moreover have "?g (record_to_row Q r) \<in> set (sq_rows s')"
      using imageI [OF r(3), of ?g] by (simp add: rows)
    ultimately have "sqlite_view X Q s' i = Some (h r)" by (simp only: view_iff [OF ok'])
    with Some show ?thesis by simp
  next
    case None
    have "\<nexists>row. row \<in> set (sq_rows s') \<and> rw_request_id row = i"
    proof
      assume "\<exists>row. row \<in> set (sq_rows s') \<and> rw_request_id row = i"
      then obtain row where "row \<in> set (sq_rows s)" "rw_request_id (?g row) = i" by (auto simp: rows)
      with g obtain r where "record_ok X r" "row = record_to_row Q r" "sr_request_id r = i"
        by (metis record_to_row_id(1))
      with \<open>row \<in> set (sq_rows s)\<close> None view_iff [OF ok, of i r] show False by simp
    qed
    then have "find (\<lambda>row. rw_request_id row = i) (sq_rows s') = None" by (auto simp: find_None_iff)
    with None show ?thesis by (simp add: sqlite_view_def)
  qed
qed

definition described :: "request_id \<Rightarrow> str \<Rightarrow> domain list \<Rightarrow> u32 \<Rightarrow> status_record \<Rightarrow> status_record" where
  "described i k ds n r =
     (if sr_request_id r = i \<and> sr_key_id r = k
      then r\<lparr>sr_recipient_domains := ds, sr_recipient_count := n\<rparr> else r)"

lemma set_metadata_acts:
  "acts_as X Q (\<lambda>r. rw_request_id r = i \<and> rw_key_id r = k)
     (\<lambda>r. r\<lparr>rw_recipient_domains := domains_json Q ds, rw_recipient_count := int (unat n)\<rparr>)
     (described i k ds n)"
  by (simp add: acts_as_def described_def record_ok_def) (simp add: record_to_row_def)

definition transitioned ::
  "time \<Rightarrow> request_id \<Rightarrow> str \<Rightarrow> status_update \<Rightarrow> status_record \<Rightarrow> status_record" where
  "transitioned now i k u r =
     (if sr_request_id r = i \<and> sr_key_id r = k \<and> now < sr_expires_at r \<and> \<not> is_terminal (sr_status r)
      then r\<lparr>sr_status := su_status u, sr_code := su_code u, sr_message := su_message u,
             sr_updated_at := now\<rparr>
      else r)"

lemma update_matches_row:
  assumes "codec_ok Q" and "time_ok now" and "record_ok X r"
  shows "update_matches (qc_rfc3339 Q now) i k (record_to_row Q r) \<longleftrightarrow>
    sr_request_id r = i \<and> sr_key_id r = k \<and> now < sr_expires_at r \<and> \<not> is_terminal (sr_status r)"
proof -
  have "qc_rfc3339 Q now < qc_rfc3339 Q (sr_expires_at r) \<longleftrightarrow> now < sr_expires_at r"
    using assms by (intro rfc3339_less) (simp_all add: record_ok_def)
  moreover have "status_str s \<notin> {''rejected'', ''smtp_accepted'', ''smtp_failed''} \<longleftrightarrow> \<not> is_terminal s" for s
    by (cases s) simp_all
  ultimately show ?thesis by (simp add: update_matches_def)
qed

lemma update_status_acts:
  assumes "codec_ok Q" and "time_ok now"
  shows "acts_as X Q (update_matches (qc_rfc3339 Q now) i k) (update_row (qc_rfc3339 Q now) u)
    (transitioned now i k u)"
  unfolding acts_as_def
proof (intro allI impI)
  fix r
  assume r: "record_ok X r"
  have "update_row (qc_rfc3339 Q now) u (record_to_row Q r)
      = record_to_row Q (r\<lparr>sr_status := su_status u, sr_code := su_code u, sr_message := su_message u,
             sr_updated_at := now\<rparr>)"
    by (simp add: update_row_def record_to_row_def)
  with r assms(2) show "sr_request_id (transitioned now i k u r) = sr_request_id r
      \<and> record_ok X (transitioned now i k u r)
      \<and> (if update_matches (qc_rfc3339 Q now) i k (record_to_row Q r)
         then update_row (qc_rfc3339 Q now) u (record_to_row Q r) else record_to_row Q r)
        = record_to_row Q (transitioned now i k u r)"
    by (auto simp: update_matches_row [OF assms r] transitioned_def record_ok_def)
qed

lemma inserted_ok:
  assumes ok: "sqlite_ok X Q s" and r: "record_ok X r"
    and rows: "sq_rows s' = sq_rows s @ [record_to_row Q r]"
    and fresh: "sr_request_id r \<notin> rw_request_id ` set (sq_rows s)"
  shows "sqlite_ok X Q s'" and "sqlite_view X Q s' i = (if i = sr_request_id r then Some r else sqlite_view X Q s i)"
proof -
  show ok': "sqlite_ok X Q s'"
    using ok r fresh unfolding sqlite_ok_def by (auto simp: rows)
  show "sqlite_view X Q s' i = (if i = sr_request_id r then Some r else sqlite_view X Q s i)"
  proof (cases "i = sr_request_id r")
    case True
    with r show ?thesis by (simp add: view_iff [OF ok'] rows)
  next
    case False
    then show ?thesis by (simp add: sqlite_view_def rows find_snoc split: option.split)
  qed
qed

subsection \<open>Effect of the operations\<close>

lemma sqlite_ops_simps [simp]:
  "so_put_received (sqlite_ops X Q it flt) = sqlite_put_received Q it flt"
  "so_set_recipient_metadata (sqlite_ops X Q it flt) = sqlite_set_recipient_metadata Q flt"
  "so_update_status (sqlite_ops X Q it flt) = sqlite_update_status Q flt"
  "so_get (sqlite_ops X Q it flt) = sqlite_get X Q flt"
  "so_expire_old_records (sqlite_ops X Q it flt) = sqlite_expire_old_records Q it flt"
  "so_record_count (sqlite_ops X Q it flt) = sqlite_record_count flt"
  "so_reload_config (sqlite_ops X Q it flt) = sqlite_reload_config"
  by (simp_all add: sqlite_ops_def)

lemma put_state:
  "fst (snd (sqlite_put_received Q it flt r (s, m))) =
     snd (statement flt (sql_insert_or_ignore (record_to_row Q r))
        (evict_if_needed it flt (sc_max_records (sq_config s)) s))"
  by (simp add: sqlite_put_received_def split: prod.split sum.split)

lemma set_metadata_state:
  "fst (snd (sqlite_set_recipient_metadata Q flt clk i k ds n (s, m))) =
     snd (statement flt (sql_update (\<lambda>r. rw_request_id r = i \<and> rw_key_id r = k)
        (\<lambda>r. r\<lparr>rw_recipient_domains := domains_json Q ds, rw_recipient_count := int (unat n)\<rparr>)) s)"
  by (simp add: sqlite_set_recipient_metadata_def)

lemma update_state:
  "fst (snd (sqlite_update_status Q flt clk i k u (s, m))) =
     snd (statement flt (sql_update (update_matches (qc_rfc3339 Q (clk 0)) i k)
        (update_row (qc_rfc3339 Q (clk 0)) u)) s)"
  by (simp add: sqlite_update_status_def Let_def split: prod.split)

lemma get_shrinks: "shrinks s (fst (snd (sqlite_get X Q flt clk i k (s, m))))"
proof -
  let ?P = "\<lambda>r. rw_request_id r = i \<and> rw_key_id r = k \<and> rw_expires_at r > qc_rfc3339 Q (clk 0)"
  let ?D = "\<lambda>r. rw_request_id r = i \<and> rw_expires_at r \<le> qc_rfc3339 Q (clk 0)"
  obtain res s1 where s1: "statement flt (sql_select ?P) s = (res, s1)" by (rule prod.exhaust)
  then have "shrinks s s1" using shrinks_select [of s flt ?P] by simp
  have "fst (snd (sqlite_get X Q flt clk i k (s, m))) \<in> {s1, snd (statement flt (sql_delete ?D) s1)}"
    using s1 by (cases res) (simp_all add: sqlite_get_def Let_def split: option.split prod.split)
  with \<open>shrinks s s1\<close> shrinks_trans [OF \<open>shrinks s s1\<close> shrinks_delete] show ?thesis by auto
qed

lemma expire_state:
  "fst (sqlite_expire_old_records Q it flt clk (s, m)) =
     evict_if_needed it flt (sc_max_records (sq_config s))
       (snd (statement flt (sql_delete (\<lambda>r. rw_expires_at r \<le> qc_rfc3339 Q (clk 0))) s))"
  by (simp add: sqlite_expire_old_records_def Let_def split: prod.split)

lemma expire_shrinks: "shrinks s (fst (sqlite_expire_old_records Q it flt clk (s, m)))"
  unfolding expire_state by (rule shrinks_trans [OF shrinks_delete shrinks_evict])

lemma count_shrinks: "shrinks s (fst (snd (sqlite_record_count flt (s, m))))"
  using shrinks_count [of s flt] by (cases "statement flt sql_count s") (simp add: sqlite_record_count_def)

lemma reload_rows [simp]: "sq_rows (fst (sqlite_reload_config c (s, m))) = sq_rows s"
  by (simp add: sqlite_reload_config_def)

text \<open>The rows after an insertion, with any failures of the three statements.\<close>

lemma put_rows_disj:
  assumes s0: "s0 = evict_if_needed it flt (sc_max_records (sq_config s)) s"
  shows "sq_rows (fst (snd (sqlite_put_received Q it flt r (s, m)))) = sq_rows s0
    \<or> sr_request_id r \<notin> rw_request_id ` set (sq_rows s0)
       \<and> sq_rows (fst (snd (sqlite_put_received Q it flt r (s, m)))) = sq_rows s0 @ [record_to_row Q r]"
  using statement_rows_disj [of flt "sql_insert_or_ignore (record_to_row Q r)" s0]
  by (auto simp: put_state s0 sql_insert_or_ignore_def split: if_splits)

lemma put_ok_view:
  assumes ok: "sqlite_ok X Q s" and r: "record_ok X r"
  shows "sqlite_ok X Q (fst (snd (sqlite_put_received Q it flt r (s, m))))"
    and "i \<noteq> sr_request_id r \<Longrightarrow>
      sqlite_view X Q (fst (snd (sqlite_put_received Q it flt r (s, m)))) i \<in> {sqlite_view X Q s i, None}"
proof -
  let ?s0 = "evict_if_needed it flt (sc_max_records (sq_config s)) s"
  let ?s' = "fst (snd (sqlite_put_received Q it flt r (s, m)))"
  have ok0: "sqlite_ok X Q ?s0" by (rule shrinks_ok [OF shrinks_evict ok])
  have view0: "sqlite_view X Q ?s0 i = sqlite_view X Q s i \<or> sqlite_view X Q ?s0 i = None"
    by (rule shrinks_view [OF shrinks_evict ok])
  show "sqlite_ok X Q ?s'"
    using put_rows_disj [of ?s0 it flt s Q r m, OF refl] inserted_ok(1) [OF ok0 r] ok0 ok_cong [of ?s' ?s0 X Q] by (metis (no_types))
  show "sqlite_view X Q ?s' i \<in> {sqlite_view X Q s i, None}" if "i \<noteq> sr_request_id r"
    using put_rows_disj [of ?s0 it flt s Q r m, OF refl]
  proof
    assume "sq_rows ?s' = sq_rows ?s0"
    then have "sqlite_view X Q ?s' i = sqlite_view X Q ?s0 i" by (rule view_cong)
    with view0 show ?thesis by auto
  next
    assume "sr_request_id r \<notin> rw_request_id ` set (sq_rows ?s0) \<and> sq_rows ?s' = sq_rows ?s0 @ [record_to_row Q r]"
    then have "sqlite_view X Q ?s' i = sqlite_view X Q ?s0 i"
      using inserted_ok(2) [OF ok0 r] that by simp
    with view0 show ?thesis by auto
  qed
qed

text \<open>An update either fails and changes nothing, or acts on the record.\<close>

lemma update_statement:
  assumes "acts_as X Q P f h" and "sqlite_ok X Q s"
  shows "sqlite_ok X Q (snd (statement flt (sql_update P f) s))"
    and "sqlite_view X Q (snd (statement flt (sql_update P f) s)) i
      \<in> {sqlite_view X Q s i, map_option h (sqlite_view X Q s i)}"
  using update_rows [of flt P f s] mapped_ok [OF assms] assms(2) ok_cong view_cong by blast+

lemma transitioned_evolves:
  "evolves a (map_option (transitioned now i k u) a)"
  by (auto simp: evolves_def transitioned_def same_identity_def same_outcome_def split: option.split)

lemma described_evolves: "evolves a (map_option (described i k ds n) a)"
  by (auto simp: evolves_def described_def same_identity_def same_outcome_def split: option.split)

text \<open>The calls the contract covers: ids of the right form, and times RFC 3339 can express.\<close>

fun sql_valid :: "externals \<Rightarrow> store_op \<Rightarrow> bool" where
  "sql_valid X (Put_Received r) \<longleftrightarrow> record_ok X r"
| "sql_valid X (Set_Metadata clk i k ds n) \<longleftrightarrow> True"
| "sql_valid X (Update_Status clk i k u) \<longleftrightarrow> time_ok (clk 0)"
| "sql_valid X (Get_Status clk i k) \<longleftrightarrow> time_ok (clk 0)"
| "sql_valid X (Expire_Old clk) \<longleftrightarrow> True"
| "sql_valid X Record_Count \<longleftrightarrow> True"
| "sql_valid X (Reload c) \<longleftrightarrow> True"

subsection \<open>The contract\<close>

lemma sqlite_step_ok:
  assumes ok: "sqlite_ok X Q (fst x)" and "sql_valid X op"
  shows "sqlite_ok X Q (fst (apply_op (sqlite_ops X Q it flt) op x))"
proof -
  obtain s m where x: "x = (s, m)" by (cases x)
  have ok: "sqlite_ok X Q s" using ok by (simp add: x)
  show ?thesis
  proof (cases op)
    case (Put_Received r)
    with assms(2) show ?thesis by (simp add: x put_ok_view(1) [OF ok])
  next
    case (Set_Metadata clk j k ds n)
    show ?thesis
      unfolding Set_Metadata x apply_op.simps sqlite_ops_simps set_metadata_state
      by (rule update_statement(1) [OF set_metadata_acts ok])
  next
    case (Update_Status clk j k u)
    with assms(2) have "time_ok (clk 0)" by simp
    show ?thesis
      unfolding Update_Status x apply_op.simps sqlite_ops_simps update_state
      by (rule update_statement(1) [OF update_status_acts [OF sqlite_ok_codec [OF ok] \<open>time_ok (clk 0)\<close>] ok])
  next
    case (Get_Status clk j k)
    then show ?thesis using shrinks_ok [OF get_shrinks ok] by (simp add: x)
  next
    case (Expire_Old clk)
    then show ?thesis using shrinks_ok [OF expire_shrinks ok] by (simp add: x)
  next
    case Record_Count
    then show ?thesis using shrinks_ok [OF count_shrinks ok] by (simp add: x)
  next
    case (Reload c)
    then show ?thesis using ok_cong [OF reload_rows] ok by (simp add: x)
  qed
qed

lemma sqlite_step_view:
  assumes ok: "sqlite_ok X Q s" and "sql_valid X op" and "\<not> creates op i"
  shows "\<exists>h. sqlite_view X Q (fst (apply_op (sqlite_ops X Q it flt) op (s, m))) i
        \<in> {sqlite_view X Q s i, None, map_option h (sqlite_view X Q s i)}
      \<and> (\<forall>a. evolves a (map_option h a))
      \<and> (\<forall>r. sqlite_view X Q s i = Some r \<longrightarrow> \<not> writes op i (sr_key_id r) \<longrightarrow> h r = r)"
proof -
  have kept: ?thesis if "sqlite_view X Q (fst (apply_op (sqlite_ops X Q it flt) op (s, m))) i
      \<in> {sqlite_view X Q s i, None}"
    using that by (intro exI [of _ id]) (auto simp: option.map_id)
  have id: "sr_request_id r = i" if "sqlite_view X Q s i = Some r" for r
    using that by (simp add: view_iff [OF ok])
  show ?thesis
  proof (cases op)
    case (Put_Received r)
    with assms(2,3) show ?thesis
      using put_ok_view(2) [OF ok, of r i it flt m] by (intro kept) simp
  next
    case (Set_Metadata clk j k ds n)
    have "sqlite_view X Q (fst (apply_op (sqlite_ops X Q it flt) op (s, m))) i
        \<in> {sqlite_view X Q s i, map_option (described j k ds n) (sqlite_view X Q s i)}"
      unfolding Set_Metadata apply_op.simps sqlite_ops_simps set_metadata_state
      by (rule update_statement(2) [OF set_metadata_acts ok])
    with Set_Metadata show ?thesis
      by (intro exI [of _ "described j k ds n"]) (auto simp: described_evolves described_def dest: id)
  next
    case (Update_Status clk j k u)
    with assms(2) have "time_ok (clk 0)" by simp
    have "sqlite_view X Q (fst (apply_op (sqlite_ops X Q it flt) op (s, m))) i
        \<in> {sqlite_view X Q s i, map_option (transitioned (clk 0) j k u) (sqlite_view X Q s i)}"
      unfolding Update_Status apply_op.simps sqlite_ops_simps update_state
      by (rule update_statement(2) [OF update_status_acts [OF sqlite_ok_codec [OF ok] \<open>time_ok (clk 0)\<close>] ok])
    with Update_Status show ?thesis
      by (intro exI [of _ "transitioned (clk 0) j k u"])
        (auto simp: transitioned_evolves transitioned_def dest: id)
  next
    case (Get_Status clk j k)
    then show ?thesis using shrinks_view [OF get_shrinks ok] by (intro kept) auto
  next
    case (Expire_Old clk)
    then show ?thesis using shrinks_view [OF expire_shrinks ok] by (intro kept) auto
  next
    case Record_Count
    then show ?thesis using shrinks_view [OF count_shrinks ok] by (intro kept) auto
  next
    case (Reload c)
    then show ?thesis by (intro kept) (simp add: view_cong [OF reload_rows])
  qed
qed

lemma sqlite_get_sound:
  assumes ok: "sqlite_ok X Q s" and "time_ok (clk 0)"
    and "fst (sqlite_get X Q flt clk i k (s, m)) = Inr (Some r)"
  shows "sqlite_view X Q s i = Some r \<and> sr_key_id r = k \<and> clk 0 < sr_expires_at r"
proof -
  let ?P = "\<lambda>r. rw_request_id r = i \<and> rw_key_id r = k \<and> rw_expires_at r > qc_rfc3339 Q (clk 0)"
  from assms(3) obtain row s1 where sel: "statement flt (sql_select ?P) s = (Inr (Some row), s1)"
    and r: "r = row_to_record X Q clk row"
    by (auto simp: sqlite_get_def Let_def split: prod.splits sum.splits option.splits)
  from sel have "find ?P (sq_rows s) = Some row"
    by (auto simp: statement_def Let_def sql_select_def split: option.splits)
  from find_SomeD [OF this] have row: "?P row" "row \<in> set (sq_rows s)" by simp_all
  obtain r' where r': "record_ok X r'" "row = record_to_row Q r'" by (rule sqlite_rowE [OF ok row(2)])
  have "r = r'" by (simp add: r r' row_round_trip [OF sqlite_ok_codec [OF ok]])
  have "clk 0 < sr_expires_at r'"
    using row(1) r' assms(2) rfc3339_less [OF sqlite_ok_codec [OF ok] assms(2), of "sr_expires_at r'"]
    by (simp add: record_ok_def)
  with row r' show ?thesis by (simp add: \<open>r = r'\<close> view_iff [OF ok])
qed

interpretation sq: status_store "sqlite_ops X Q it flt" "sqlite_view X Q" "sqlite_ok X Q" "sql_valid X"
  for X Q it flt
proof
  fix x :: "sqlite_store \<times> metrics" and s :: sqlite_store
  fix op i r clk k
  obtain s0 m where x: "x = (s0, m)" by (cases x)
  show "sqlite_ok X Q (fst x) \<Longrightarrow> sql_valid X op \<Longrightarrow>
      sqlite_ok X Q (fst (apply_op (sqlite_ops X Q it flt) op x))"
    by (rule sqlite_step_ok)
  show "sqlite_ok X Q s \<Longrightarrow> sqlite_view X Q s i = Some r \<Longrightarrow> sr_request_id r = i"
    by (simp add: view_iff)
  show "sqlite_ok X Q (fst x) \<Longrightarrow> sql_valid X op \<Longrightarrow> \<not> creates op i \<Longrightarrow>
      evolves (sqlite_view X Q (fst x) i) (sqlite_view X Q (fst (apply_op (sqlite_ops X Q it flt) op x)) i)"
    using sqlite_step_view [of X Q s0 op i it flt m] by (auto simp: x)
  show "sqlite_ok X Q (fst x) \<Longrightarrow> sql_valid X op \<Longrightarrow> \<not> creates op i \<Longrightarrow>
      sqlite_view X Q (fst x) i = Some r \<Longrightarrow> \<not> writes op i (sr_key_id r) \<Longrightarrow>
      sqlite_view X Q (fst (apply_op (sqlite_ops X Q it flt) op x)) i \<in> {Some r, None}"
    using sqlite_step_view [of X Q s0 op i it flt m] by (auto simp: x)
  show "sqlite_ok X Q (fst x) \<Longrightarrow> sql_valid X (Get_Status clk i k) \<Longrightarrow>
      fst (so_get (sqlite_ops X Q it flt) clk i k x) = Inr (Some r) \<Longrightarrow>
      sqlite_view X Q (fst x) i = Some r \<and> sr_key_id r = k \<and> \<not> is_expired (clk 0) r"
    using sqlite_get_sound [of X Q s0 clk flt i k m r] by (auto simp: x is_expired_def)
qed

subsection \<open>Without failures every submission is tracked\<close>

lemma put_no_fault_view:
  assumes ok: "sqlite_ok X Q s" and r: "record_ok X r" and fresh: "sqlite_view X Q s (sr_request_id r) = None"
  shows "sqlite_view X Q (fst (snd (sqlite_put_received Q it no_fault r (s, m)))) (sr_request_id r) = Some r"
proof -
  let ?s0 = "evict_if_needed it no_fault (sc_max_records (sq_config s)) s"
  have ok0: "sqlite_ok X Q ?s0" by (rule shrinks_ok [OF shrinks_evict ok])
  have new: "sr_request_id r \<notin> rw_request_id ` set (sq_rows ?s0)"
  proof
    assume "sr_request_id r \<in> rw_request_id ` set (sq_rows ?s0)"
    then obtain row where row: "row \<in> set (sq_rows ?s0)" "rw_request_id row = sr_request_id r" by auto
    obtain r' where "record_ok X r'" "row = record_to_row Q r'" by (rule sqlite_rowE [OF ok0 row(1)])
    with row have "sqlite_view X Q ?s0 (sr_request_id r) = Some r'" by (simp add: view_iff [OF ok0])
    with shrinks_view [OF shrinks_evict ok, of it no_fault "sc_max_records (sq_config s)" "sr_request_id r"] fresh
    show False by simp
  qed
  have "statement no_fault (sql_insert_or_ignore (record_to_row Q r)) ?s0
      = (Inr 1, ?s0\<lparr>sq_tick := Suc (sq_tick ?s0), sq_rows := sq_rows ?s0 @ [record_to_row Q r]\<rparr>)"
    using new by (intro statement_no_fault) (simp add: sql_insert_or_ignore_def)
  then have "sq_rows (fst (snd (sqlite_put_received Q it no_fault r (s, m)))) = sq_rows ?s0 @ [record_to_row Q r]"
    by (simp add: put_state)
  from inserted_ok(2) [OF ok0 r this new] show ?thesis by simp
qed

lemma update_no_fault:
  assumes "acts_as X Q P f h" and ok: "sqlite_ok X Q s"
  shows "sqlite_view X Q (snd (statement no_fault (sql_update P f) s)) i = map_option h (sqlite_view X Q s i)"
proof -
  have "\<not> (\<exists>row \<in> set (sq_rows s). P row \<and> \<not> row_constraints (f row))"
  proof
    assume "\<exists>row \<in> set (sq_rows s). P row \<and> \<not> row_constraints (f row)"
    then obtain row where row: "row \<in> set (sq_rows s)" "P row" "\<not> row_constraints (f row)" by blast
    obtain r where "record_ok X r" "row = record_to_row Q r" by (rule sqlite_rowE [OF ok row(1)])
    with assms(1) row(2) have "f row = record_to_row Q (h r)" unfolding acts_as_def by metis
    with row(3) show False by simp
  qed
  then have "statement no_fault (sql_update P f) s
      = (Inr (length (filter P (sq_rows s))), s\<lparr>sq_tick := Suc (sq_tick s),
           sq_rows := map (\<lambda>r. if P r then f r else r) (sq_rows s)\<rparr>)"
    by (intro statement_no_fault) (simp add: sql_update_def)
  then have "sq_rows (snd (statement no_fault (sql_update P f) s)) = map (\<lambda>r. if P r then f r else r) (sq_rows s)"
    by simp
  from mapped_ok(2) [OF assms this] show ?thesis .
qed

interpretation sqt: tracking_store "sqlite_ops X Q it no_fault" "sqlite_view X Q" "sqlite_ok X Q" "sql_valid X"
  for X Q it
proof
  fix x :: "sqlite_store \<times> metrics"
  fix i r clk u ds n
  obtain s m where x: "x = (s, m)" by (cases x)
  show "sqlite_ok X Q (fst x) \<Longrightarrow> sql_valid X (Put_Received r) \<Longrightarrow>
      sqlite_view X Q (fst x) (sr_request_id r) = None \<Longrightarrow>
      sqlite_view X Q (fst (apply_op (sqlite_ops X Q it no_fault) (Put_Received r) x)) (sr_request_id r) = Some r"
    by (simp add: x put_no_fault_view)
  show "\<exists>r'. sqlite_view X Q (fst (apply_op (sqlite_ops X Q it no_fault)
               (Update_Status clk i (sr_key_id r) u) x)) i = Some r'
         \<and> same_identity r r' \<and> sr_status r' = su_status u \<and> sr_code r' = su_code u"
    if "sqlite_ok X Q (fst x)" "sqlite_view X Q (fst x) i = Some r" "\<not> is_terminal (sr_status r)"
      "clk 0 < sr_expires_at r" "sql_valid X (Update_Status clk i (sr_key_id r) u)"
  proof -
    have ok: "sqlite_ok X Q s" using that(1) by (simp add: x)
    have "sr_request_id r = i" using that(2) by (simp add: x view_iff [OF ok])
    with that show ?thesis
      using update_no_fault [OF update_status_acts [OF sqlite_ok_codec [OF ok]] ok, of "clk 0" i "sr_key_id r" u i]
      by (simp add: x update_state transitioned_def same_identity_def)
  qed
  show "\<exists>r'. sqlite_view X Q (fst (apply_op (sqlite_ops X Q it no_fault)
               (Set_Metadata clk i (sr_key_id r) ds n) x)) i = Some r'
         \<and> same_identity r r' \<and> same_outcome r r'"
    if "sqlite_ok X Q (fst x)" "sqlite_view X Q (fst x) i = Some r"
  proof -
    have ok: "sqlite_ok X Q s" using that(1) by (simp add: x)
    have "sqlite_view X Q (fst (apply_op (sqlite_ops X Q it no_fault) (Set_Metadata clk i (sr_key_id r) ds n) x)) i
        = map_option (described i (sr_key_id r) ds n) (Some r)"
      unfolding x apply_op.simps sqlite_ops_simps set_metadata_state that(2) [symmetric] fst_conv
      by (rule update_no_fault [OF set_metadata_acts ok])
    then show ?thesis by (simp add: described_def same_identity_def same_outcome_def)
  qed
qed

end
