(* ===== verification/Status_Redis.thy ===== *)
theory Status_Redis
  imports Status_Contract Hash_Map
begin

text \<open>
  \<open>status_redis.rs\<close>: the store on a shared Redis server. The server is outside the program:
  its keyspace is a hash map from keys to values with a deadline, each command happens at
  a time of the server's clock, and before it the server may have dropped any key, by
  expiry or for memory. A connection may fail, and a command may fail with or without
  having been executed. \<open>serde_json\<close>'s text of a record belongs to the environment too.
\<close>

subsection \<open>Server and environment\<close>

text \<open>
  Connections and commands are numbered. \<open>rx_fault\<close> gives the error of a command and
  whether the server has executed it; \<open>rx_set_error\<close> the error the server answers to a
  \<open>SET EX\<close> with a number of seconds; \<open>rx_scan\<close> the answer to a \<open>SCAN\<close> with a cursor.
\<close>

record redis_env =
  rx_conn :: "nat \<Rightarrow> bool"
  rx_fault :: "nat \<Rightarrow> (bool \<times> str) option"
  rx_time :: "nat \<Rightarrow> time"
  rx_gone :: "nat \<Rightarrow> str \<Rightarrow> bool"
  rx_set_error :: "u64 \<Rightarrow> str option"
  rx_scan :: "nat \<Rightarrow> u64 \<Rightarrow> str + u64 \<times> str list"
  rx_to_json :: "status_record \<Rightarrow> str option"
  rx_from_json :: "str \<Rightarrow> str + status_record"

type_synonym keyspace = "(str, str \<times> time) hash_map"

record redis_store =
  rd_data :: keyspace
  rd_config :: status_config
  rd_conns :: nat
  rd_cmds :: nat

definition redis_key :: "request_id \<Rightarrow> str" where
  "redis_key request_id = ''rele:s:'' @ request_id"

definition get_conn :: "redis_env \<Rightarrow> redis_store \<Rightarrow> bool \<times> redis_store" where
  "get_conn E s = (rx_conn E (rd_conns s), s\<lparr>rd_conns := Suc (rd_conns s)\<rparr>)"

text \<open>One command: what has expired or been dropped is gone, then the command acts.\<close>

definition surviving :: "redis_env \<Rightarrow> nat \<Rightarrow> keyspace \<Rightarrow> keyspace" where
  "surviving E n d = hm_retain (\<lambda>k v. rx_time E n < snd v \<and> \<not> rx_gone E n k) d"

definition redis_command ::
  "redis_env \<Rightarrow> (time \<Rightarrow> keyspace \<Rightarrow> (str + 'a) \<times> keyspace) \<Rightarrow> redis_store \<Rightarrow> (str + 'a) \<times> redis_store" where
  "redis_command E f s =
     (let n = rd_cmds s; d = surviving E n (rd_data s) in
      case f (rx_time E n) d of
        (res, d') \<Rightarrow>
          (case rx_fault E n of
             None \<Rightarrow> (res, s\<lparr>rd_cmds := Suc n, rd_data := d'\<rparr>)
           | Some (executed, e) \<Rightarrow> (Inl e, s\<lparr>rd_cmds := Suc n, rd_data := (if executed then d' else d)\<rparr>)))"

definition cmd_exists :: "str \<Rightarrow> time \<Rightarrow> keyspace \<Rightarrow> (str + bool) \<times> keyspace" where
  "cmd_exists k t d = (Inr (hm_contains d k), d)"

definition cmd_get :: "str \<Rightarrow> time \<Rightarrow> keyspace \<Rightarrow> (str + str option) \<times> keyspace" where
  "cmd_get k t d = (Inr (map_option fst (hm_get d k)), d)"

definition cmd_set_ex :: "redis_env \<Rightarrow> str \<Rightarrow> str \<Rightarrow> u64 \<Rightarrow> time \<Rightarrow> keyspace \<Rightarrow> (str + unit) \<times> keyspace" where
  "cmd_set_ex E k v ttl t d =
     (case rx_set_error E ttl of
        Some e \<Rightarrow> (Inl e, d)
      | None \<Rightarrow> (Inr (), hm_insert k (v, t + int (unat ttl) * 1000000000) d))"

definition cmd_del :: "str \<Rightarrow> time \<Rightarrow> keyspace \<Rightarrow> (str + unit) \<times> keyspace" where
  "cmd_del k t d = (Inr (), hm_remove k d)"

subsection \<open>Operations\<close>

definition redis_put_received ::
  "redis_env \<Rightarrow> status_record \<Rightarrow> redis_store \<times> metrics \<Rightarrow>
     (status_store_error + unit) \<times> redis_store \<times> metrics" where
  "redis_put_received E record x =
     (case x of (s, m) \<Rightarrow>
        (let k = redis_key (sr_request_id record) in
         case get_conn E s of
           (False, s1) \<Rightarrow> (Inr (), s1, m)
         | (True, s1) \<Rightarrow>
             (case redis_command E (cmd_exists k) s1 of
                (res, s2) \<Rightarrow>
                  if (case res of Inr b \<Rightarrow> b | Inl _ \<Rightarrow> False) then (Inr (), s2, m)
                  else (case rx_to_json E record of
                          None \<Rightarrow> (Inl (BackendUnavailable ''serialisation failed''), s2, m)
                        | Some json \<Rightarrow>
                            (case redis_command E (cmd_set_ex E k json (sc_ttl_seconds (rd_config s))) s2 of
                               (Inl e, s3) \<Rightarrow> (Inl (BackendUnavailable e), s3, m)
                             | (Inr _, s3) \<Rightarrow> (Inr (), s3, status_record_created m))))))"

text \<open>\<open>num_seconds().max(1) as u64\<close> of the time that remains to the record.\<close>

definition remaining_ttl :: "time \<Rightarrow> status_record \<Rightarrow> u64" where
  "remaining_ttl now r = word_of_int (max 1 ((sr_expires_at r - now) div 1000000000))"

definition redis_set_recipient_metadata ::
  "redis_env \<Rightarrow> clock \<Rightarrow> request_id \<Rightarrow> str \<Rightarrow> domain list \<Rightarrow> u32 \<Rightarrow>
     redis_store \<times> metrics \<Rightarrow> (status_store_error + unit) \<times> redis_store \<times> metrics" where
  "redis_set_recipient_metadata E clk request_id key_id domains count x =
     (case x of (s, m) \<Rightarrow>
        (let k = redis_key request_id in
         case get_conn E s of
           (False, s1) \<Rightarrow> (Inr (), s1, m)
         | (True, s1) \<Rightarrow>
             (case redis_command E (cmd_get k) s1 of
                (Inr (Some raw), s2) \<Rightarrow>
                  (case rx_from_json E raw of
                     Inl _ \<Rightarrow> (Inr (), s2, m)
                   | Inr record \<Rightarrow>
                       if sr_key_id record = key_id \<and> \<not> is_expired (clk 0) record then
                         (let record' = record\<lparr>sr_recipient_domains := domains,
                                sr_recipient_count := count, sr_updated_at := clk 1\<rparr> in
                          case rx_to_json E record' of
                            Some json \<Rightarrow>
                              (Inr (), snd (redis_command E
                                 (cmd_set_ex E k json (remaining_ttl (clk 2) record')) s2), m)
                          | None \<Rightarrow> (Inr (), s2, m))
                       else (Inr (), s2, m))
              | (_, s2) \<Rightarrow> (Inr (), s2, m))))"

definition redis_updated :: "status_update \<Rightarrow> time \<Rightarrow> status_record \<Rightarrow> status_record" where
  "redis_updated update now record =
     record\<lparr>sr_status := su_status update, sr_code := su_code update,
            sr_message := (if su_message update \<noteq> None then su_message update else sr_message record),
            sr_updated_at := now\<rparr>"

definition redis_update_status ::
  "redis_env \<Rightarrow> clock \<Rightarrow> request_id \<Rightarrow> str \<Rightarrow> status_update \<Rightarrow> redis_store \<times> metrics \<Rightarrow>
     (status_store_error + unit) \<times> redis_store \<times> metrics" where
  "redis_update_status E clk request_id key_id update x =
     (case x of (s, m) \<Rightarrow>
        (let k = redis_key request_id in
         case get_conn E s of
           (False, s1) \<Rightarrow> (Inr (), s1, m)
         | (True, s1) \<Rightarrow>
             (case redis_command E (cmd_get k) s1 of
                (Inr (Some raw), s2) \<Rightarrow>
                  (case rx_from_json E raw of
                     Inl _ \<Rightarrow> (Inr (), s2, m)
                   | Inr record \<Rightarrow>
                       if sr_key_id record \<noteq> key_id \<or> is_expired (clk 0) record
                          \<or> is_terminal (sr_status record)
                       then (Inr (), s2, m)
                       else
                         (let record' = redis_updated update (clk 1) record in
                          case rx_to_json E record' of
                            None \<Rightarrow> (Inr (), s2, m)
                          | Some json \<Rightarrow>
                              (case redis_command E
                                      (cmd_set_ex E k json (remaining_ttl (clk 2) record')) s2 of
                                 (Inl _, s3) \<Rightarrow> (Inr (), s3, m)
                               | (Inr _, s3) \<Rightarrow>
                                   (Inr (), s3, status_transitioned (status_str (su_status update))
                                      (case su_code update of Some c \<Rightarrow> code_as_str c
                                       | None \<Rightarrow> ''none'') m))))
              | (_, s2) \<Rightarrow> (Inr (), s2, m))))"

definition redis_get ::
  "redis_env \<Rightarrow> clock \<Rightarrow> request_id \<Rightarrow> str \<Rightarrow> redis_store \<times> metrics \<Rightarrow>
     (status_store_error + status_record option) \<times> redis_store \<times> metrics" where
  "redis_get E clk request_id key_id x =
     (case x of (s, m) \<Rightarrow>
        (let k = redis_key request_id in
         case get_conn E s of
           (False, s1) \<Rightarrow> (Inl (BackendUnavailable ''no connection''), s1, m)
         | (True, s1) \<Rightarrow>
             (case redis_command E (cmd_get k) s1 of
                (Inl e, s2) \<Rightarrow> (Inl (BackendUnavailable e), s2, status_store_error ''get'' m)
              | (Inr None, s2) \<Rightarrow> (Inr None, s2, m)
              | (Inr (Some raw), s2) \<Rightarrow>
                  (case rx_from_json E raw of
                     Inl e \<Rightarrow> (Inl (Corrupted e), s2, m)
                   | Inr record \<Rightarrow>
                       if sr_key_id record \<noteq> key_id then (Inr None, s2, m)
                       else if is_expired (clk 0) record then
                         (Inr None, snd (redis_command E (cmd_del k) s2), status_record_expired_one m)
                       else (Inr (Some record), s2, m)))))"

text \<open>\<open>expire_old_records\<close> leaves expiry to the server.\<close>

definition redis_expire_old_records :: "clock \<Rightarrow> redis_store \<times> metrics \<Rightarrow> redis_store \<times> metrics" where
  "redis_expire_old_records clk x = x"

text \<open>
  The loop over \<open>SCAN\<close>: it goes on until the cursor is zero or a command fails, and may
  not end; then its value is \<open>None\<close>. The result is the number of keys and of commands.
\<close>

partial_function (option) redis_scan_loop ::
  "redis_env \<Rightarrow> nat \<Rightarrow> u64 \<Rightarrow> nat \<Rightarrow> (nat \<times> nat) option" where
  "redis_scan_loop E n cursor found =
     (case rx_scan E n cursor of
        Inl _ \<Rightarrow> Some (found, Suc n)
      | Inr (new_cursor, keys) \<Rightarrow>
          if new_cursor = 0 then Some (found + length keys, Suc n)
          else redis_scan_loop E (Suc n) new_cursor (found + length keys))"

definition redis_record_count ::
  "redis_env \<Rightarrow> redis_store \<times> metrics \<Rightarrow> (nat \<times> redis_store \<times> metrics) option" where
  "redis_record_count E x =
     (case x of (s, m) \<Rightarrow>
        (case get_conn E s of
           (False, s1) \<Rightarrow> Some (0, s1, m)
         | (True, s1) \<Rightarrow>
             map_option (\<lambda>(found, n). (found, s1\<lparr>rd_cmds := n\<rparr>, status_set_current found m))
               (redis_scan_loop E (rd_cmds s1) 0 0)))"

definition redis_reload_config ::
  "status_config \<Rightarrow> redis_store \<times> metrics \<Rightarrow> redis_store \<times> metrics" where
  "redis_reload_config config x = (case x of (s, m) \<Rightarrow> (s\<lparr>rd_config := config\<rparr>, m))"

text \<open>The operations of a store are total functions: a count that never returns leaves the
  state, and \<open>redis_record_count\<close> says when it does return.\<close>

definition redis_ops :: "redis_env \<Rightarrow> redis_store status_ops" where
  "redis_ops E =
     \<lparr>so_put_received = redis_put_received E,
      so_set_recipient_metadata = redis_set_recipient_metadata E,
      so_update_status = redis_update_status E,
      so_get = redis_get E,
      so_expire_old_records = redis_expire_old_records,
      so_record_count = (\<lambda>x. case redis_record_count E x of Some r \<Rightarrow> r | None \<Rightarrow> (0, x)),
      so_reload_config = redis_reload_config\<rparr>"

subsection \<open>Opening\<close>

datatype redis_open_error = Client_Failed str | Connect_Failed str | Ping_Failed str

text \<open>\<open>RedisStatusStore::open\<close>: the outcomes of building the client, of connecting and of
  the first \<open>PING\<close>, on a server that holds \<open>data\<close>.\<close>

definition redis_open ::
  "str option \<Rightarrow> str option \<Rightarrow> str option \<Rightarrow> keyspace \<Rightarrow> status_config \<Rightarrow> redis_open_error + redis_store" where
  "redis_open client_fault conn_fault ping_fault data config =
     (case client_fault of Some e \<Rightarrow> Inl (Client_Failed e) | None \<Rightarrow>
      case conn_fault of Some e \<Rightarrow> Inl (Connect_Failed e) | None \<Rightarrow>
      case ping_fault of Some e \<Rightarrow> Inl (Ping_Failed e) | None \<Rightarrow>
        Inr \<lparr>rd_data = data, rd_config = config, rd_conns = 0, rd_cmds = 0\<rparr>)"

end
