(* ===== verification/Status_Redis_Props.thy ===== *)
theory Status_Redis_Props
  imports Status_Redis
begin

text \<open>
  The Redis store refines the store contract, whatever the server drops and whichever
  connections and commands fail, executed or not. The abstraction is that each key holds
  the text of the record it is named after.
\<close>

definition times_ok :: "status_record \<Rightarrow> bool" where
  "times_ok r \<longleftrightarrow> time_ok (sr_created_at r) \<and> time_ok (sr_updated_at r) \<and> time_ok (sr_expires_at r)"

text \<open>The JSON text of a record parses back.\<close>

definition json_ok :: "redis_env \<Rightarrow> bool" where
  "json_ok E \<longleftrightarrow> (\<forall>r. times_ok r \<longrightarrow> (\<exists>j. rx_to_json E r = Some j \<and> rx_from_json E j = Inr r))"

lemma json_round_trip: "json_ok E \<Longrightarrow> times_ok r \<Longrightarrow> rx_to_json E r = Some j \<Longrightarrow> rx_from_json E j = Inr r"
  by (auto simp: json_ok_def)

lemma redis_key_inj [simp]: "redis_key i = redis_key j \<longleftrightarrow> i = j"
  by (simp add: redis_key_def)

definition redis_ok :: "redis_env \<Rightarrow> redis_store \<Rightarrow> bool" where
  "redis_ok E s \<longleftrightarrow>
     json_ok E \<and> hm_wf (rd_data s)
     \<and> (\<forall>k v d. hm_get (rd_data s) k = Some (v, d) \<longrightarrow>
          (\<exists>r. times_ok r \<and> k = redis_key (sr_request_id r) \<and> rx_to_json E r = Some v))"

definition redis_view :: "redis_env \<Rightarrow> redis_store \<Rightarrow> request_id \<Rightarrow> status_record option" where
  "redis_view E s i =
     (case hm_get (rd_data s) (redis_key i) of
        Some (v, d) \<Rightarrow> (case rx_from_json E v of Inr r \<Rightarrow> Some r | Inl _ \<Rightarrow> None)
      | None \<Rightarrow> None)"

lemma redis_entryE:
  assumes "redis_ok E s" and "hm_get (rd_data s) (redis_key i) = Some (v, d)"
  obtains r where "times_ok r" "sr_request_id r = i" "rx_to_json E r = Some v" "rx_from_json E v = Inr r"
    "redis_view E s i = Some r"
proof -
  from assms obtain r where "times_ok r" "redis_key i = redis_key (sr_request_id r)" "rx_to_json E r = Some v"
    unfolding redis_ok_def by blast
  moreover from this have "rx_from_json E v = Inr r"
    using assms(1) by (auto simp: redis_ok_def intro: json_round_trip)
  ultimately show ?thesis using assms(2) by (intro that) (simp_all add: redis_view_def)
qed

lemma redis_view_Some:
  assumes "redis_ok E s" and "redis_view E s i = Some r"
  shows "times_ok r" "sr_request_id r = i"
proof -
  from assms(2) obtain v d where "hm_get (rd_data s) (redis_key i) = Some (v, d)" "rx_from_json E v = Inr r"
    by (auto simp: redis_view_def split: option.splits sum.splits)
  with redis_entryE [OF assms(1) this(1)] show "times_ok r" "sr_request_id r = i" by auto
qed

lemma redis_cong:
  "rd_data s = rd_data s' \<Longrightarrow> redis_ok E s = redis_ok E s'"
  "rd_data s = rd_data s' \<Longrightarrow> redis_view E s i = redis_view E s' i"
  by (simp_all add: redis_ok_def redis_view_def)

subsection \<open>Commands\<close>

text \<open>Keys may go, nothing else changes.\<close>

definition drops :: "keyspace \<Rightarrow> keyspace \<Rightarrow> bool" where
  "drops d d' \<longleftrightarrow> (hm_wf d \<longrightarrow> hm_wf d' \<and> (\<forall>k. hm_get d' k \<in> {hm_get d k, None}))"

lemma drops_refl [simp]: "drops d d"
  by (simp add: drops_def)

lemma drops_trans: "drops d d' \<Longrightarrow> drops d' d'' \<Longrightarrow> drops d d''"
  unfolding drops_def by (metis insert_iff singletonD)

lemma drops_surviving: "drops d (surviving E n d)"
  by (auto simp: drops_def surviving_def hm_get_retain split: option.split)

lemma drops_remove: "drops d (hm_remove k d)"
  by (simp add: drops_def)

lemma conn_data [simp]: "get_conn E s = (b, s1) \<Longrightarrow> rd_data s1 = rd_data s"
  by (auto simp: get_conn_def)

lemma command_data_disj:
  "rd_data (snd (redis_command E f s)) = surviving E (rd_cmds s) (rd_data s)
   \<or> rd_data (snd (redis_command E f s))
       = snd (f (rx_time E (rd_cmds s)) (surviving E (rd_cmds s) (rd_data s)))"
  by (auto simp: redis_command_def Let_def split: prod.split option.split)

lemma read_drops:
  "drops (rd_data s) (rd_data (snd (redis_command E (cmd_get k) s)))"
  "drops (rd_data s) (rd_data (snd (redis_command E (cmd_exists k) s)))"
  "drops (rd_data s) (rd_data (snd (redis_command E (cmd_del k) s)))"
  using command_data_disj [of E "cmd_get k" s] command_data_disj [of E "cmd_exists k" s]
    command_data_disj [of E "cmd_del k" s] drops_surviving [of "rd_data s" E "rd_cmds s"]
    drops_trans [OF drops_surviving drops_remove]
  by (auto simp: cmd_get_def cmd_exists_def cmd_del_def)

lemma get_result:
  assumes "redis_command E (cmd_get k) s = (Inr (Some raw), s')" and "hm_wf (rd_data s)"
  shows "\<exists>d. hm_get (rd_data s) k = Some (raw, d)"
proof -
  from assms(1) obtain d where "hm_get (surviving E (rd_cmds s) (rd_data s)) k = Some (raw, d)"
    by (auto simp: redis_command_def cmd_get_def Let_def split: option.splits prod.splits)
  with drops_surviving [of "rd_data s" E "rd_cmds s"] assms(2) show ?thesis
    unfolding drops_def by (metis insertE option.distinct(1) singletonD)
qed

text \<open>A write leaves the keys that survive, with the new value under its key when it was executed.\<close>

lemma set_data:
  "drops (rd_data s) (rd_data (snd (redis_command E (cmd_set_ex E k v ttl) s)))
   \<or> (\<exists>d t. drops (rd_data s) d \<and> rd_data (snd (redis_command E (cmd_set_ex E k v ttl) s)) = hm_insert k (v, t) d)"
  using command_data_disj [of E "cmd_set_ex E k v ttl" s] drops_surviving [of "rd_data s" E "rd_cmds s"]
  by (auto simp: cmd_set_ex_def split: option.splits)

subsection \<open>What an operation does to the records\<close>

lemma drops_ok_view:
  assumes ok: "redis_ok E s" and "drops (rd_data s) (rd_data s')"
  shows "redis_ok E s'" and "redis_view E s' i \<in> {redis_view E s i, None}"
proof -
  have *: "hm_wf (rd_data s')" "\<And>k. hm_get (rd_data s') k \<in> {hm_get (rd_data s) k, None}"
    using assms by (auto simp: drops_def redis_ok_def)
  then show "redis_ok E s'" using ok unfolding redis_ok_def by (metis insertE option.distinct(1) singletonD)
  show "redis_view E s' i \<in> {redis_view E s i, None}"
    using *(2) [of "redis_key i"] by (auto simp: redis_view_def)
qed

lemma insert_ok_view:
  assumes ok: "redis_ok E s" and "drops (rd_data s) d" and r: "times_ok r" "rx_to_json E r = Some v"
    and data: "rd_data s' = hm_insert (redis_key (sr_request_id r)) (v, t) d"
  shows "redis_ok E s'"
    and "redis_view E s' i \<in> (if i = sr_request_id r then {Some r} else {redis_view E s i, None})"
proof -
  let ?s = "s\<lparr>rd_data := d\<rparr>"
  have ok': "redis_ok E ?s" and view: "redis_view E ?s i \<in> {redis_view E s i, None}"
    using drops_ok_view [OF ok, of ?s] assms(2) by auto
  show "redis_ok E s'"
    using ok' r unfolding redis_ok_def by (auto simp: data split: if_splits)
  have "rx_from_json E v = Inr r" using ok r by (auto simp: redis_ok_def intro: json_round_trip)
  then show "redis_view E s' i \<in> (if i = sr_request_id r then {Some r} else {redis_view E s i, None})"
    using view by (auto simp: redis_view_def data)
qed

text \<open>A read-modify-write of the record of \<open>i\<close>: guarded by \<open>G\<close>, it stores \<open>h\<close> of what it read.\<close>

definition rmw ::
  "redis_env \<Rightarrow> (status_record \<Rightarrow> bool) \<Rightarrow> (status_record \<Rightarrow> status_record) \<Rightarrow> request_id \<Rightarrow>
     redis_store \<Rightarrow> redis_store \<Rightarrow> bool" where
  "rmw E G h i s s' \<longleftrightarrow>
     drops (rd_data s) (rd_data s')
     \<or> (\<exists>r v t d. redis_view E s i = Some r \<and> G r \<and> drops (rd_data s) d
          \<and> rx_to_json E (h r) = Some v \<and> rd_data s' = hm_insert (redis_key i) (v, t) d)"

lemma rmw_ok_view:
  assumes ok: "redis_ok E s" and rw: "rmw E G h i s s'"
    and h: "\<And>r. times_ok r \<Longrightarrow> G r \<Longrightarrow> times_ok (h r) \<and> sr_request_id (h r) = sr_request_id r"
  shows "redis_ok E s'"
    and "redis_view E s' j \<in> {redis_view E s j, None}
      \<or> j = i \<and> (\<exists>r. redis_view E s i = Some r \<and> G r \<and> redis_view E s' i = Some (h r))"
proof -
  consider (drops) "drops (rd_data s) (rd_data s')"
    | (set) r v t d where "redis_view E s i = Some r" "G r" "drops (rd_data s) d"
        "rx_to_json E (h r) = Some v" "rd_data s' = hm_insert (redis_key i) (v, t) d"
    using rw unfolding rmw_def by blast
  then have "redis_ok E s' \<and> (redis_view E s' j \<in> {redis_view E s j, None}
      \<or> j = i \<and> (\<exists>r. redis_view E s i = Some r \<and> G r \<and> redis_view E s' i = Some (h r)))"
  proof cases
    case drops
    then show ?thesis using drops_ok_view [OF ok] by blast
  next
    case (set r v t d)
    have hr: "times_ok (h r)" "sr_request_id (h r) = i" using h redis_view_Some [OF ok set(1)] set(2) by auto
    have data: "rd_data s' = hm_insert (redis_key (sr_request_id (h r))) (v, t) d" using set(5) hr(2) by simp
    note ins = insert_ok_view [OF ok set(3) hr(1) set(4) data]
    have "redis_view E s' j \<in> (if j = i then {Some (h r)} else {redis_view E s j, None})"
      using ins(2) [of j] hr(2) by simp
    with ins(1) set(1,2) show ?thesis by (cases "j = i") auto
  qed
  then show "redis_ok E s'" and "redis_view E s' j \<in> {redis_view E s j, None}
      \<or> j = i \<and> (\<exists>r. redis_view E s i = Some r \<and> G r \<and> redis_view E s' i = Some (h r))"
    by blast+
qed

lemma rmw_drops [simp]: "drops (rd_data s) (rd_data s') \<Longrightarrow> rmw E G h i s s'"
  by (simp add: rmw_def)

lemma rmw_set:
  assumes "redis_view E s i = Some r" and "G r" and "drops (rd_data s) (rd_data s2)"
    and "rx_to_json E (h r) = Some v"
  shows "rmw E G h i s (snd (redis_command E (cmd_set_ex E (redis_key i) v ttl) s2))"
  using set_data [of s2 E "redis_key i" v ttl] assms drops_trans [OF assms(3)]
  unfolding rmw_def by blast

lemma read_then:
  assumes ok: "redis_ok E s" and conn: "get_conn E s = (b, s1)"
    and get: "redis_command E (cmd_get (redis_key i)) s1 = (res, s2)"
  shows "drops (rd_data s) (rd_data s2)"
    and "res = Inr (Some raw) \<Longrightarrow> rx_from_json E raw = Inr r \<Longrightarrow> redis_view E s i = Some r"
proof -
  show "drops (rd_data s) (rd_data s2)"
    using read_drops(1) [of s1 E "redis_key i"] conn get by simp
  assume "res = Inr (Some raw)" and "rx_from_json E raw = Inr r"
  with get_result [of E "redis_key i" s1 raw s2] get conn ok show "redis_view E s i = Some r"
    by (auto simp: redis_ok_def redis_view_def)
qed

definition guard_update :: "time \<Rightarrow> str \<Rightarrow> status_record \<Rightarrow> bool" where
  "guard_update now k r \<longleftrightarrow> sr_key_id r = k \<and> \<not> is_expired now r \<and> \<not> is_terminal (sr_status r)"

lemma update_state_cases:
  assumes ok: "redis_ok E s"
  obtains "drops (rd_data s) (rd_data (fst (snd (redis_update_status E clk i k u (s, m)))))"
    | r j s2 where "redis_view E s i = Some r" "guard_update (clk 0) k r" "drops (rd_data s) (rd_data s2)"
        "rx_to_json E (redis_updated u (clk 1) r) = Some j"
        "fst (snd (redis_update_status E clk i k u (s, m)))
           = snd (redis_command E (cmd_set_ex E (redis_key i) j (remaining_ttl (clk 2) r)) s2)"
proof (cases "get_conn E s")
  case (Pair b s1)
  show ?thesis
  proof (cases b)
    case False
    with Pair show ?thesis by (intro that(1)) (simp add: redis_update_status_def)
  next
    case True
    obtain res s2 where get: "redis_command E (cmd_get (redis_key i)) s1 = (res, s2)" by (rule prod.exhaust)
    note rd = read_then [OF ok Pair get]
    show ?thesis
    proof (cases "\<exists>raw r j. res = Inr (Some raw) \<and> rx_from_json E raw = Inr r \<and> guard_update (clk 0) k r
        \<and> rx_to_json E (redis_updated u (clk 1) r) = Some j")
      case True
      then obtain raw r j where *: "res = Inr (Some raw)" "rx_from_json E raw = Inr r"
        "guard_update (clk 0) k r" "rx_to_json E (redis_updated u (clk 1) r) = Some j" by blast
      have "remaining_ttl (clk 2) (redis_updated u (clk 1) r) = remaining_ttl (clk 2) r"
        by (simp add: remaining_ttl_def redis_updated_def)
      then have "fst (snd (redis_update_status E clk i k u (s, m)))
          = snd (redis_command E (cmd_set_ex E (redis_key i) j (remaining_ttl (clk 2) r)) s2)"
        using * Pair \<open>b\<close> get
        by (simp add: redis_update_status_def guard_update_def Let_def split: prod.split sum.split)
      then show ?thesis by (rule that(2) [OF rd(2) [OF *(1,2)] *(3) rd(1) *(4)])
    next
      case False
      have "fst (snd (redis_update_status E clk i k u (s, m))) = s2"
        using False Pair \<open>b\<close> get
        by (auto simp: redis_update_status_def guard_update_def Let_def split: sum.split option.split)
      then show ?thesis using rd(1) by (intro that(1)) simp
    qed
  qed
qed

lemma update_rmw:
  assumes "redis_ok E s"
  shows "rmw E (guard_update (clk 0) k) (redis_updated u (clk 1)) i s
    (fst (snd (redis_update_status E clk i k u (s, m))))"
  using assms
proof (cases rule: update_state_cases [of E s clk i k u m])
  case (2 r j s2)
  with rmw_set [OF 2(1), of "guard_update (clk 0) k" s2 "redis_updated u (clk 1)" j] show ?thesis by simp
qed simp

definition guard_metadata :: "time \<Rightarrow> str \<Rightarrow> status_record \<Rightarrow> bool" where
  "guard_metadata now k r \<longleftrightarrow> sr_key_id r = k \<and> \<not> is_expired now r"

definition redis_described :: "domain list \<Rightarrow> u32 \<Rightarrow> time \<Rightarrow> status_record \<Rightarrow> status_record" where
  "redis_described ds n now r =
     r\<lparr>sr_recipient_domains := ds, sr_recipient_count := n, sr_updated_at := now\<rparr>"

lemma metadata_rmw:
  assumes ok: "redis_ok E s"
  shows "rmw E (guard_metadata (clk 0) k) (redis_described ds n (clk 1)) i s
    (fst (snd (redis_set_recipient_metadata E clk i k ds n (s, m))))"
proof (cases "get_conn E s")
  case (Pair b s1)
  show ?thesis
  proof (cases b)
    case False
    with Pair show ?thesis by (simp add: redis_set_recipient_metadata_def)
  next
    case True
    obtain res s2 where get: "redis_command E (cmd_get (redis_key i)) s1 = (res, s2)" by (rule prod.exhaust)
    note rd = read_then [OF ok Pair get]
    show ?thesis
    proof (cases "\<exists>raw r j. res = Inr (Some raw) \<and> rx_from_json E raw = Inr r \<and> guard_metadata (clk 0) k r
        \<and> rx_to_json E (redis_described ds n (clk 1) r) = Some j")
      case True
      then obtain raw r j where *: "res = Inr (Some raw)" "rx_from_json E raw = Inr r"
        "guard_metadata (clk 0) k r" "rx_to_json E (redis_described ds n (clk 1) r) = Some j" by blast
      have "fst (snd (redis_set_recipient_metadata E clk i k ds n (s, m))) = snd (redis_command E (cmd_set_ex E
          (redis_key i) j (remaining_ttl (clk 2) (redis_described ds n (clk 1) r))) s2)"
        using * Pair \<open>b\<close> get
        by (simp add: redis_set_recipient_metadata_def guard_metadata_def redis_described_def Let_def)
      with rmw_set [of E s i r "guard_metadata (clk 0) k" s2 "redis_described ds n (clk 1)" j, OF rd(2) [OF *(1,2)] *(3) rd(1) *(4)]
      show ?thesis by simp
    next
      case False
      have "fst (snd (redis_set_recipient_metadata E clk i k ds n (s, m))) = s2"
        using False Pair \<open>b\<close> get
        by (auto simp: redis_set_recipient_metadata_def guard_metadata_def redis_described_def Let_def
            split: sum.split option.split)
      with rd(1) show ?thesis by simp
    qed
  qed
qed

lemma put_writes:
  assumes "redis_ok E s"
  shows "drops (rd_data s) (rd_data (fst (snd (redis_put_received E r (s, m)))))
    \<or> (\<exists>v t d. drops (rd_data s) d \<and> rx_to_json E r = Some v
         \<and> rd_data (fst (snd (redis_put_received E r (s, m)))) = hm_insert (redis_key (sr_request_id r)) (v, t) d)"
proof (cases "get_conn E s")
  case (Pair b s1)
  obtain res s2 where ex: "redis_command E (cmd_exists (redis_key (sr_request_id r))) s1 = (res, s2)"
    by (rule prod.exhaust)
  have drops: "drops (rd_data s) (rd_data s1)" "drops (rd_data s) (rd_data s2)"
    using read_drops(2) [of s1 E "redis_key (sr_request_id r)"] Pair ex by simp_all
  have "fst (snd (redis_put_received E r (s, m))) \<in> {s1, s2}
    \<or> (\<exists>v. rx_to_json E r = Some v \<and> fst (snd (redis_put_received E r (s, m)))
         = snd (redis_command E (cmd_set_ex E (redis_key (sr_request_id r)) v (sc_ttl_seconds (rd_config s))) s2))"
    using Pair ex
    by (cases b; cases "rx_to_json E r") (auto simp: redis_put_received_def Let_def split: prod.split sum.split)
  then show ?thesis
    using drops set_data [of s2 E "redis_key (sr_request_id r)"] drops_trans [OF drops(2)] by (elim disjE exE conjE) (auto, blast)
qed

lemma redis_get_drops: "drops (rd_data s) (rd_data (fst (snd (redis_get E clk i k (s, m)))))"
proof (cases "get_conn E s")
  case (Pair b s1)
  obtain res s2 where get: "redis_command E (cmd_get (redis_key i)) s1 = (res, s2)" by (rule prod.exhaust)
  have drops: "drops (rd_data s) (rd_data s1)" "drops (rd_data s) (rd_data s2)"
    using read_drops(1) [of s1 E "redis_key i"] Pair get by simp_all
  have "fst (snd (redis_get E clk i k (s, m))) \<in> {s1, s2, snd (redis_command E (cmd_del (redis_key i)) s2)}"
    using Pair get by (cases b) (auto simp: redis_get_def Let_def split: sum.split option.split)
  with drops drops_trans [OF drops(2) read_drops(3)] show ?thesis by auto
qed

lemma redis_ops_simps [simp]:
  "so_put_received (redis_ops E) = redis_put_received E"
  "so_set_recipient_metadata (redis_ops E) = redis_set_recipient_metadata E"
  "so_update_status (redis_ops E) = redis_update_status E"
  "so_get (redis_ops E) = redis_get E"
  "so_expire_old_records (redis_ops E) = redis_expire_old_records"
  "so_reload_config (redis_ops E) = redis_reload_config"
  by (simp_all add: redis_ops_def)

lemma count_data [simp]: "rd_data (fst (snd (so_record_count (redis_ops E) (s, m)))) = rd_data s"
  by (auto simp: redis_ops_def redis_record_count_def split: option.split prod.split bool.splits)

text \<open>The calls the contract covers: times that RFC 3339 can express.\<close>

fun redis_valid :: "store_op \<Rightarrow> bool" where
  "redis_valid (Put_Received r) \<longleftrightarrow> times_ok r"
| "redis_valid (Set_Metadata clk i k ds n) \<longleftrightarrow> time_ok (clk 1)"
| "redis_valid (Update_Status clk i k u) \<longleftrightarrow> time_ok (clk 1)"
| "redis_valid (Get_Status clk i k) \<longleftrightarrow> True"
| "redis_valid (Expire_Old clk) \<longleftrightarrow> True"
| "redis_valid Record_Count \<longleftrightarrow> True"
| "redis_valid (Reload c) \<longleftrightarrow> True"

lemma redis_step:
  assumes ok: "redis_ok E s" and "redis_valid op"
  shows "redis_ok E (fst (apply_op (redis_ops E) op (s, m)))"
    and "\<not> creates op i \<Longrightarrow>
      redis_view E (fst (apply_op (redis_ops E) op (s, m))) i \<in> {redis_view E s i, None}
      \<or> (\<exists>r r'. redis_view E s i = Some r \<and> redis_view E (fst (apply_op (redis_ops E) op (s, m))) i = Some r'
           \<and> writes op i (sr_key_id r) \<and> evolves (Some r) (Some r'))"
proof -
  let ?s' = "fst (apply_op (redis_ops E) op (s, m))"
  let ?claim = "redis_ok E ?s' \<and> (\<not> creates op i \<longrightarrow> redis_view E ?s' i \<in> {redis_view E s i, None}
      \<or> (\<exists>r r'. redis_view E s i = Some r \<and> redis_view E ?s' i = Some r'
           \<and> writes op i (sr_key_id r) \<and> evolves (Some r) (Some r')))"
  have dropped: ?claim if "drops (rd_data s) (rd_data ?s')"
    using drops_ok_view [OF ok that] by blast
  have ?claim
  proof (cases op)
    case (Put_Received r)
    have r: "times_ok r" using assms(2) Put_Received by simp
    from put_writes [OF ok, of r m] show ?thesis
    proof (elim disjE exE conjE)
      assume "drops (rd_data s) (rd_data (fst (snd (redis_put_received E r (s, m)))))"
      then show ?thesis by (intro dropped) (simp add: Put_Received)
    next
      fix v t d
      assume "drops (rd_data s) d" "rx_to_json E r = Some v"
        "rd_data (fst (snd (redis_put_received E r (s, m)))) = hm_insert (redis_key (sr_request_id r)) (v, t) d"
      from insert_ok_view(1) [OF ok this(1) r this(2,3)] insert_ok_view(2) [OF ok this(1) r this(2,3), of i]
      show ?thesis by (cases "i = sr_request_id r") (simp_all add: Put_Received)
    qed
  next
    case (Set_Metadata clk j k ds n)
    then have t: "time_ok (clk 1)" using assms(2) by simp
    have h: "times_ok (redis_described ds n (clk 1) r) \<and> sr_request_id (redis_described ds n (clk 1) r) = sr_request_id r"
      if "times_ok r" for r
      using t that by (simp add: times_ok_def redis_described_def)
    from rmw_ok_view(1) [OF ok metadata_rmw [OF ok, of clk k ds n j m]]
      rmw_ok_view(2) [OF ok metadata_rmw [OF ok, of clk k ds n j m], of i] h show ?thesis
      by (auto simp: Set_Metadata guard_metadata_def redis_described_def evolves_Some_iff
          same_identity_def same_outcome_def)
  next
    case (Update_Status clk j k u)
    then have t: "time_ok (clk 1)" using assms(2) by simp
    have h: "times_ok (redis_updated u (clk 1) r) \<and> sr_request_id (redis_updated u (clk 1) r) = sr_request_id r"
      if "times_ok r" for r
      using t that by (simp add: times_ok_def redis_updated_def)
    from rmw_ok_view(1) [OF ok update_rmw [OF ok, of clk k u j m]]
      rmw_ok_view(2) [OF ok update_rmw [OF ok, of clk k u j m], of i] h show ?thesis
      by (auto simp: Update_Status guard_update_def redis_updated_def evolves_Some_iff same_identity_def)
  next
    case (Get_Status clk j k)
    then show ?thesis by (intro dropped) (simp add: redis_get_drops)
  next
    case (Expire_Old clk)
    then show ?thesis by (intro dropped) (simp add: redis_expire_old_records_def)
  next
    case Record_Count
    then show ?thesis by (intro dropped) simp
  next
    case (Reload c)
    then show ?thesis by (intro dropped) (simp add: redis_reload_config_def)
  qed
  then show "redis_ok E ?s'" and "\<not> creates op i \<Longrightarrow>
      redis_view E ?s' i \<in> {redis_view E s i, None}
      \<or> (\<exists>r r'. redis_view E s i = Some r \<and> redis_view E ?s' i = Some r'
           \<and> writes op i (sr_key_id r) \<and> evolves (Some r) (Some r'))"
    by blast+
qed

lemma redis_get_sound:
  assumes ok: "redis_ok E s" and "fst (redis_get E clk i k (s, m)) = Inr (Some r)"
  shows "redis_view E s i = Some r \<and> sr_key_id r = k \<and> \<not> is_expired (clk 0) r"
proof (cases "get_conn E s")
  case (Pair b s1)
  obtain res s2 where get: "redis_command E (cmd_get (redis_key i)) s1 = (res, s2)" by (rule prod.exhaust)
  from assms(2) Pair get obtain raw where "res = Inr (Some raw)" "rx_from_json E raw = Inr r"
    "sr_key_id r = k" "\<not> is_expired (clk 0) r"
    by (cases b) (auto simp: redis_get_def Let_def split: sum.splits option.splits if_splits)
  with read_then(2) [OF ok Pair get] show ?thesis by simp
qed

interpretation rd: status_store "redis_ops E" "redis_view E" "redis_ok E" redis_valid for E
proof
  fix x :: "redis_store \<times> metrics" and s :: redis_store
  fix op i r clk k
  obtain s0 m where x: "x = (s0, m)" by (cases x)
  show "redis_ok E (fst x) \<Longrightarrow> redis_valid op \<Longrightarrow> redis_ok E (fst (apply_op (redis_ops E) op x))"
    using redis_step(1) by (simp add: x)
  show "redis_ok E s \<Longrightarrow> redis_view E s i = Some r \<Longrightarrow> sr_request_id r = i"
    by (rule redis_view_Some)
  show "redis_ok E (fst x) \<Longrightarrow> redis_valid op \<Longrightarrow> \<not> creates op i \<Longrightarrow>
      evolves (redis_view E (fst x) i) (redis_view E (fst (apply_op (redis_ops E) op x)) i)"
    using redis_step(2) [of E s0 op i m] by (auto simp: x)
  show "redis_ok E (fst x) \<Longrightarrow> redis_valid op \<Longrightarrow> \<not> creates op i \<Longrightarrow> redis_view E (fst x) i = Some r \<Longrightarrow>
      \<not> writes op i (sr_key_id r) \<Longrightarrow> redis_view E (fst (apply_op (redis_ops E) op x)) i \<in> {Some r, None}"
    using redis_step(2) [of E s0 op i m] by (auto simp: x)
  show "redis_ok E (fst x) \<Longrightarrow> redis_valid (Get_Status clk i k) \<Longrightarrow>
      fst (so_get (redis_ops E) clk i k x) = Inr (Some r) \<Longrightarrow>
      redis_view E (fst x) i = Some r \<and> sr_key_id r = k \<and> \<not> is_expired (clk 0) r"
    using redis_get_sound [of E s0 clk i k m r] by (simp add: x)
qed

end
