(* ===== verification/Example_Codec.thy ===== *)
theory Example_Codec
  imports Status_Sqlite_Props Status_Redis_Props
begin

text \<open>
  Concrete encodings for which the hypotheses on \<open>chrono\<close> and \<open>serde_json\<close> hold: a codec
  for the columns of the SQLite store, and an environment of the Redis store whose text of
  a record is the marked list of its fields.
\<close>

subsection \<open>Columns\<close>

text \<open>
  Times in unary from the year 0, and a list of strings with each character marked. Only
  the properties of the codec matter, not its size.
\<close>

definition unary_time :: "time \<Rightarrow> str" where
  "unary_time t = replicate (nat (t + 62167219200000000000)) (CHR ''x'')"

definition parse_unary_time :: "str \<Rightarrow> time option" where
  "parse_unary_time s = Some (int (length s) - 62167219200000000000)"

fun mark_domains :: "domain list \<Rightarrow> str" where
  "mark_domains [] = []"
| "mark_domains ([] # ds) = CHR ''e'' # mark_domains ds"
| "mark_domains ((c # d) # ds) = CHR ''c'' # c # mark_domains (d # ds)"

fun unmark_domains :: "str \<Rightarrow> str \<Rightarrow> domain list option" where
  "unmark_domains acc [] = (if acc = [] then Some [] else None)"
| "unmark_domains acc [a] = (if a = CHR ''e'' then Some [rev acc] else None)"
| "unmark_domains acc (a # b # s) =
     (if a = CHR ''e'' then map_option ((#) (rev acc)) (unmark_domains [] (b # s))
      else unmark_domains (b # acc) s)"

lemma unmark_e: "unmark_domains acc (CHR ''e'' # s) = map_option ((#) (rev acc)) (unmark_domains [] s)"
  by (cases s) simp_all

lemma unmark_mark:
  "unmark_domains acc (mark_domains (d # ds)) = map_option ((#) (rev acc @ d)) (unmark_domains [] (mark_domains ds))"
  by (induction d arbitrary: acc) (simp_all add: unmark_e)

lemma unmark_mark_domains: "unmark_domains [] (mark_domains ds) = Some ds"
  by (induction ds) (simp_all add: unmark_mark)

lemma replicate_less: "n < k \<Longrightarrow> replicate n c < replicate k c"
proof (induction n arbitrary: k)
  case 0
  then show ?case by (cases k) simp_all
next
  case (Suc n)
  then show ?case by (cases k) simp_all
qed

definition example_codec :: sqlite_codec where
  "example_codec =
     \<lparr>qc_rfc3339 = unary_time, qc_parse_rfc3339 = parse_unary_time,
      qc_domains_json = (\<lambda>ds. Some (mark_domains ds)), qc_parse_domains = unmark_domains [],
      qc_fresh_ulid = ''01HX7Q9V6R6W9V8Y5E3E6E7M9A''\<rparr>"

lemma example_codec_ok: "codec_ok example_codec"
  by (auto simp: codec_ok_def example_codec_def unary_time_def parse_unary_time_def time_ok_def
      unmark_mark_domains intro!: replicate_less)


subsection \<open>Records\<close>

definition show_int :: "int \<Rightarrow> str" where
  "show_int z = (if z < 0 then CHR ''-'' # show_nat (nat (- z)) else CHR ''+'' # show_nat (nat z))"

fun read_int :: "str \<Rightarrow> int" where
  "read_int [] = 0"
| "read_int (c # s) =
     (case read_nat 0 s of Some n \<Rightarrow> if c = CHR ''-'' then - int n else int n | None \<Rightarrow> 0)"

lemma read_show_int [simp]: "read_int (show_int z) = z"
  by (simp add: show_int_def read_show_nat)

definition show_option :: "str option \<Rightarrow> str" where
  "show_option x = (case x of None \<Rightarrow> [] | Some s \<Rightarrow> CHR ''+'' # s)"

definition read_option :: "str \<Rightarrow> str option" where
  "read_option s = (case s of [] \<Rightarrow> None | c # t \<Rightarrow> Some t)"

lemma read_show_option [simp]: "read_option (show_option x) = x"
  by (simp add: read_option_def show_option_def split: option.split)

definition record_fields :: "status_record \<Rightarrow> str list" where
  "record_fields r =
     [sr_request_id r, sr_key_id r, status_str (sr_status r),
      show_option (map_option code_as_str (sr_code r)), show_option (sr_message r),
      mark_domains (sr_recipient_domains r), show_int (uint (sr_recipient_count r)),
      show_int (sr_created_at r), show_int (sr_updated_at r), show_int (sr_expires_at r)]"

definition example_to_json :: "status_record \<Rightarrow> str option" where
  "example_to_json r = Some (mark_domains (record_fields r))"

definition example_from_json :: "str \<Rightarrow> str + status_record" where
  "example_from_json j =
     (case unmark_domains [] j of
        Some [i, k, st, co, msg, ds, n, cr, up, ex] \<Rightarrow>
          (case unmark_domains [] ds of
             Some domains \<Rightarrow>
               Inr \<lparr>sr_request_id = i, sr_key_id = k, sr_status = parse_status st,
                    sr_code = Option.bind (read_option co) parse_code, sr_message = read_option msg,
                    sr_recipient_domains = domains, sr_recipient_count = word_of_int (read_int n),
                    sr_created_at = read_int cr, sr_updated_at = read_int up,
                    sr_expires_at = read_int ex\<rparr>
           | None \<Rightarrow> Inl ''domains'')
      | _ \<Rightarrow> Inl ''fields'')"

lemma example_json: "example_from_json (mark_domains (record_fields r)) = Inr r"
proof -
  have "Option.bind (map_option code_as_str c) parse_code = c" for c by (cases c) simp_all
  then show ?thesis
    by (simp add: example_from_json_def unmark_mark_domains) (simp add: record_fields_def unmark_mark_domains)
qed

text \<open>A server at time 0 that keeps what it stores, with one page of keys, and refuses a time
  to live of zero.\<close>

definition example_redis :: redis_env where
  "example_redis =
     \<lparr>rx_conn = (\<lambda>_. True), rx_fault = (\<lambda>_. None), rx_time = (\<lambda>_. 0), rx_gone = (\<lambda>_ _. False),
      rx_set_error = (\<lambda>ttl. if ttl = 0 then Some ''invalid expire time'' else None),
      rx_scan = (\<lambda>_ _. Inr (0, [''rele:s:req_1''])),
      rx_to_json = example_to_json, rx_from_json = example_from_json\<rparr>"

lemma example_redis_ok: "json_ok example_redis"
  by (simp add: json_ok_def example_redis_def example_to_json_def example_json)

end
