(* ===== verification/Status_Sqlite_Claims.thy ===== *)
theory Status_Sqlite_Claims
  imports Example_Codec Send_Claims
begin

text \<open>
  The properties of the SQLite store: terminal states are final whatever fails, a query
  answers exactly, an insertion is read back, the cleanup leaves one record less than the
  limit when it meets it, and a request's record matches its answer.
\<close>

subsection \<open>A concrete store\<close>

definition sql_id :: request_id where
  "sql_id = request_id_new ''01HX7Q9V6R6W9V8Y5E3E6E7M9A''"

definition sql_record :: status_record where
  "sql_record = new_received 0 sql_id ''svc-a'' 60"

lemma sql_record_simps [simp]:
  "sr_request_id sql_record = sql_id" "sr_key_id sql_record = ''svc-a''"
  "sr_expires_at sql_record = 60000000000" "sr_status sql_record = Received"
  by (simp_all add: sql_record_def new_received_def ttl_nanos_def)

lemma sql_id_ok: "\<exists>u. sql_id = request_id_new u \<and> x_ulid_ok example_externals u"
  by (intro exI [of _ "''01HX7Q9V6R6W9V8Y5E3E6E7M9A''"]) (simp add: sql_id_def)

lemma sql_record_ok: "record_ok example_externals sql_record"
  using sql_id_ok by (simp add: record_ok_def time_ok_def) (simp add: sql_record_def new_received_def)

definition empty_sqlite :: sqlite_store where
  "empty_sqlite = \<lparr>sq_rows = [], sq_config = default_status_config, sq_tick = 0\<rparr>"

lemma empty_sqlite_ok: "sqlite_ok example_externals example_codec empty_sqlite"
  by (simp add: sqlite_ok_def empty_sqlite_def example_codec_ok)

lemma empty_sqlite_view [simp]: "sqlite_view X Q empty_sqlite i = None"
  by (simp add: sqlite_view_def empty_sqlite_def)

subsection \<open>The life cycle\<close>

text \<open>C33: A terminal status is final in the SQLite store whatever statements fail: after any sequence
  of calls (none of which inserts the same request id again, at times RFC 3339 can express)
  on a well-formed table, and any failures, the record
  is either gone or has the same owner, status, code and message.\<close>

theorem sqlite_terminal_final:
  assumes "sqlite_ok X Q (fst x)" and "sqlite_view X Q (fst x) i = Some r"
    and "is_terminal (sr_status r)"
    and "\<And>op. op \<in> set os \<Longrightarrow> sql_valid X op \<and> \<not> creates op i"
  shows "sqlite_view X Q (fst (run_ops (sqlite_ops X Q it flt) os x)) i = None
    \<or> (\<exists>r'. sqlite_view X Q (fst (run_ops (sqlite_ops X Q it flt) os x)) i = Some r'
           \<and> same_identity r r' \<and> same_outcome r r')"
  using assms by (intro sq.terminal_is_final) simp_all

definition sql_done :: status_record where
  "sql_done = sql_record\<lparr>sr_status := SmtpAccepted\<rparr>"

lemma sql_done_ok: "record_ok example_externals sql_done"
  using sql_record_ok by (simp add: sql_done_def record_ok_def)

definition done_sqlite :: sqlite_store where
  "done_sqlite = empty_sqlite\<lparr>sq_rows := [record_to_row example_codec sql_done]\<rparr>"

lemma done_sqlite_ok:
  "sqlite_ok example_externals example_codec done_sqlite"
  "sqlite_view example_externals example_codec done_sqlite sql_id = Some sql_done"
proof -
  show ok: "sqlite_ok example_externals example_codec done_sqlite"
    using sql_done_ok by (auto simp: sqlite_ok_def done_sqlite_def example_codec_ok)
  show "sqlite_view example_externals example_codec done_sqlite sql_id = Some sql_done"
    unfolding view_iff [OF ok] using sql_done_ok by (simp add: done_sqlite_def) (simp add: sql_done_def)
qed

definition sql_calls :: "store_op list" where
  "sql_calls = [Update_Status (\<lambda>_. 5) sql_id ''svc-a'' \<lparr>su_status = SmtpFailed, su_code = None, su_message = None\<rparr>,
     Expire_Old (\<lambda>_. 6)]"

definition first_fails :: sql_fault where
  "first_fails n = (if n = 0 then Some ''locked'' else None)"

theorem sqlite_terminal_final_witness:
  "(case sqlite_view example_externals example_codec (fst (run_ops (sqlite_ops example_externals example_codec
        (\<lambda>rows. rows) first_fails) sql_calls (done_sqlite, metrics_new))) sql_id of
      Some r' \<Rightarrow> sr_status r' = SmtpAccepted | None \<Rightarrow> True)"
proof -
  have "sql_valid example_externals op \<and> \<not> creates op sql_id" if "op \<in> set sql_calls" for op
    using that by (auto simp: sql_calls_def time_ok_def)
  with sqlite_terminal_final [of example_externals example_codec "(done_sqlite, metrics_new)" sql_id sql_done
      sql_calls "\<lambda>rows. rows" first_fails]
  show ?thesis by (auto simp: done_sqlite_ok sql_done_def same_outcome_def)
qed

text \<open>C40: The table is well typed: from an empty one, after any calls with well-formed arguments and
  any failing statements, the request ids are distinct, and every row satisfies the
  constraints of the schema and decodes, without a fallback, to a record that is written as
  this very row.\<close>

theorem sqlite_rows_typed:
  assumes "codec_ok Q" and "sq_rows (fst x) = []" and "\<And>op. op \<in> set os \<Longrightarrow> sql_valid X op"
  shows "distinct (map rw_request_id (sq_rows (fst (run_ops (sqlite_ops X Q it flt) os x))))
    \<and> (\<forall>row \<in> set (sq_rows (fst (run_ops (sqlite_ops X Q it flt) os x))).
         row_constraints row
         \<and> record_ok X (row_to_record X Q clk row) \<and> record_to_row Q (row_to_record X Q clk row) = row)"
proof -
  have "sqlite_ok X Q (fst x)" using assms(1,2) by (simp add: sqlite_ok_def)
  from sq.ok_run [OF this assms(3), of os it flt]
  have ok: "sqlite_ok X Q (fst (run_ops (sqlite_ops X Q it flt) os x))" by simp
  then have "row_constraints row \<and> record_ok X (row_to_record X Q clk row)
      \<and> record_to_row Q (row_to_record X Q clk row) = row"
    if row: "row \<in> set (sq_rows (fst (run_ops (sqlite_ops X Q it flt) os x)))" for row
  proof -
    obtain r where "record_ok X r" "row = record_to_row Q r" by (rule sqlite_rowE [OF ok row])
    then show ?thesis by (simp add: row_round_trip [OF assms(1)])
  qed
  with ok show ?thesis by (simp add: sqlite_ok_def)
qed

theorem sqlite_rows_typed_witness:
  "distinct (map rw_request_id (sq_rows (fst (run_ops (sqlite_ops example_externals example_codec
     (\<lambda>rows. rows) first_fails) (Put_Received sql_record # Put_Received sql_record # sql_calls)
     (empty_sqlite, metrics_new)))))"
proof -
  have "sql_valid example_externals op"
    if "op \<in> set (Put_Received sql_record # Put_Received sql_record # sql_calls)" for op
    using that by (auto simp: sql_calls_def time_ok_def sql_record_ok)
  then show ?thesis
    using sqlite_rows_typed [OF example_codec_ok, of "(empty_sqlite, metrics_new)"
        "Put_Received sql_record # Put_Received sql_record # sql_calls" example_externals]
    by (simp add: empty_sqlite_def)
qed

subsection \<open>Queries\<close>

text \<open>C34: A query of the SQLite store answers the record of the id exactly when the asking key owns
  it and its time has not come, and no record otherwise; it is an error exactly when the
  first statement fails.\<close>

theorem sqlite_get_exact:
  assumes ok: "sqlite_ok X Q s" and t: "time_ok (clk 0)"
  shows "fst (sqlite_get X Q flt clk i k (s, m)) =
    (case flt (sq_tick s) of
       Some e \<Rightarrow> Inl (BackendUnavailable e)
     | None \<Rightarrow> Inr (case sqlite_view X Q s i of
                     Some r \<Rightarrow> if sr_key_id r = k \<and> clk 0 < sr_expires_at r then Some r else None
                   | None \<Rightarrow> None))"
proof (cases "flt (sq_tick s)")
  case (Some e)
  then show ?thesis by (simp add: sqlite_get_def statement_def)
next
  case None
  let ?P = "\<lambda>row. rw_request_id row = i \<and> rw_key_id row = k \<and> rw_expires_at row > qc_rfc3339 Q (clk 0)"
  have sel: "statement flt (sql_select ?P) s = (Inr (find ?P (sq_rows s)), s\<lparr>sq_tick := Suc (sq_tick s)\<rparr>)"
    using None by (simp add: statement_def sql_select_def)
  have get: "fst (sqlite_get X Q flt clk i k (s, m)) = Inr (map_option (row_to_record X Q clk) (find ?P (sq_rows s)))"
    by (simp add: sqlite_get_def Let_def sel split: option.split prod.split)
  show ?thesis
  proof (cases "find ?P (sq_rows s)")
    case (Some row)
    with get sqlite_get_sound [OF ok, of clk flt i k m "row_to_record X Q clk row"] t None
    show ?thesis by simp
  next
    case none: None
    have "\<not> (sr_key_id r = k \<and> clk 0 < sr_expires_at r)" if "sqlite_view X Q s i = Some r" for r
    proof -
      from that have r: "record_ok X r" "sr_request_id r = i" "record_to_row Q r \<in> set (sq_rows s)"
        by (simp_all add: view_iff [OF ok])
      with none have "\<not> ?P (record_to_row Q r)" unfolding find_None_iff by blast
      moreover have "qc_rfc3339 Q (clk 0) < qc_rfc3339 Q (sr_expires_at r) \<longleftrightarrow> clk 0 < sr_expires_at r"
        using r(1) by (intro rfc3339_less [OF sqlite_ok_codec [OF ok] t]) (simp add: record_ok_def)
      ultimately show ?thesis using r(2) by auto
    qed
    then show ?thesis using get none None by (auto split: option.split)
  qed
qed

theorem sqlite_get_exact_witness:
  "fst (sqlite_get example_externals example_codec no_fault (\<lambda>_. 5) sql_id ''svc-a'' (done_sqlite, metrics_new))
     = Inr (Some sql_done)
   \<and> fst (sqlite_get example_externals example_codec no_fault (\<lambda>_. 5) sql_id ''svc-b'' (done_sqlite, metrics_new))
     = Inr None"
  using sqlite_get_exact [OF done_sqlite_ok(1), of "\<lambda>_. 5"]
  by (simp add: time_ok_def done_sqlite_ok no_fault_def) (simp add: sql_done_def)

text \<open>C35: What is put is read back: a record inserted under a new request id, with no statement
  failing, is returned unchanged to its key until it expires, through the text columns of
  its status, code, domains and times.\<close>

theorem sqlite_put_get:
  assumes "sqlite_ok X Q s" and "record_ok X r" and "sqlite_view X Q s (sr_request_id r) = None"
    and "time_ok (clk 0)" and "clk 0 < sr_expires_at r"
  shows "fst (sqlite_get X Q no_fault clk (sr_request_id r) (sr_key_id r)
      (snd (sqlite_put_received Q it no_fault r (s, m)))) = Inr (Some r)"
proof -
  obtain s' m' where s': "snd (sqlite_put_received Q it no_fault r (s, m)) = (s', m')" by (rule prod.exhaust)
  have "sqlite_ok X Q s'" using put_ok_view(1) [OF assms(1,2), of it no_fault m] s' by simp
  moreover have "sqlite_view X Q s' (sr_request_id r) = Some r"
    using put_no_fault_view [OF assms(1-3), of it m] s' by simp
  ultimately show ?thesis
    using assms(5) sqlite_get_exact [of X Q s' clk no_fault, OF _ assms(4)]
    by (simp add: s') (simp add: no_fault_def)
qed

theorem sqlite_put_get_witness:
  "fst (sqlite_get example_externals example_codec no_fault (\<lambda>_. 5) sql_id ''svc-a''
      (snd (sqlite_put_received example_codec (\<lambda>rows. rows) no_fault sql_record (empty_sqlite, metrics_new))))
     = Inr (Some sql_record)"
  using sqlite_put_get [OF empty_sqlite_ok sql_record_ok, of "\<lambda>_. 5"] by (simp add: time_ok_def)

subsection \<open>Size\<close>

lemma length_filter_removed:
  "distinct (map f xs) \<Longrightarrow> S \<subseteq> f ` set xs \<Longrightarrow> length (filter (\<lambda>x. f x \<notin> S) xs) = length xs - card S"
proof (induction xs arbitrary: S)
  case Nil
  then show ?case by simp
next
  case (Cons x xs)
  have fin: "finite S" using Cons.prems(2) by (rule finite_subset) simp
  have fx: "f x \<notin> f ` set xs" "distinct (map f xs)" using Cons.prems(1) by simp_all
  have "filter (\<lambda>y. f y \<notin> S) xs = filter (\<lambda>y. f y \<notin> S - {f x}) xs"
    using fx(1) by (intro filter_cong refl) (metis Diff_iff imageI singletonD)
  with Cons.IH [OF fx(2), of "S - {f x}"] Cons.prems(2)
  have IH: "length (filter (\<lambda>y. f y \<notin> S) xs) = length xs - card (S - {f x})" by auto
  have "card (S - {f x}) \<le> card (f ` set xs)" using Cons.prems(2) by (intro card_mono) auto
  also have "\<dots> \<le> length xs" by (rule order_trans [OF card_image_le card_length]) simp
  finally have le: "card (S - {f x}) \<le> length xs" .
  show ?case
  proof (cases "f x \<in> S")
    case True
    then have "Suc (card (S - {f x})) = card S" by (rule card_Suc_Diff1 [OF fin])
    moreover have "length (filter (\<lambda>y. f y \<notin> S) (x # xs)) = length xs - card (S - {f x})"
      using True IH by (simp only: filter.simps) simp
    ultimately show ?thesis by (metis diff_Suc_Suc length_Cons)
  next
    case False
    then have "length (filter (\<lambda>y. f y \<notin> S) (x # xs)) = Suc (length xs - card S)" using IH by simp
    with False le show ?thesis by (simp add: Suc_diff_le)
  qed
qed

definition row_permutes :: "row_order \<Rightarrow> bool" where
  "row_permutes it \<longleftrightarrow> (\<forall>rows. mset (it rows) = mset rows)"

lemma sql_oldest_card:
  assumes "row_permutes it" and "distinct (map rw_request_id rows)"
  shows "card (set (sql_oldest it n rows)) = min n (length rows)"
    and "set (sql_oldest it n rows) \<subseteq> rw_request_id ` set rows"
proof -
  let ?sorted = "sort_key rw_created_at (it rows)"
  have mset: "mset ?sorted = mset rows" using assms(1) by (simp add: row_permutes_def)
  then have len: "length ?sorted = length rows" by (metis size_mset)
  have "mset (map rw_request_id ?sorted) = mset (map rw_request_id rows)" using mset by (metis mset_map)
  then have "distinct (map rw_request_id ?sorted)" using assms(2) by (metis mset_eq_imp_distinct_iff)
  then have "distinct (sql_oldest it n rows)" by (simp add: sql_oldest_def take_map [symmetric])
  then show "card (set (sql_oldest it n rows)) = min n (length rows)"
    using len by (simp add: distinct_card) (simp add: sql_oldest_def)
  have "set ?sorted = set rows" using mset by (metis set_mset_mset)
  then show "set (sql_oldest it n rows) \<subseteq> rw_request_id ` set rows"
    by (auto simp: sql_oldest_def dest: in_set_takeD)
qed

lemma evict_length:
  assumes "row_permutes it" and "distinct (map rw_request_id (sq_rows s))"
  shows "length (sq_rows (evict_if_needed it no_fault mx s)) =
    (if length (sq_rows s) = unat mx then unat mx - 1 else min (length (sq_rows s)) (unat mx))"
proof -
  let ?n = "length (sq_rows s)"
  let ?e = "max (?n - unat mx) 1"
  have count: "statement no_fault sql_count s = (Inr ?n, s\<lparr>sq_tick := Suc (sq_tick s)\<rparr>)"
    using statement_no_fault [of sql_count s ?n "sq_rows s"] by (simp add: sql_count_def)
  let ?s1 = "s\<lparr>sq_tick := Suc (sq_tick s)\<rparr>"
  have "length (sq_rows (snd (statement no_fault
      (\<lambda>rows. sql_delete (\<lambda>r. rw_request_id r \<in> set (sql_oldest it ?e rows)) rows) ?s1))) = ?n - min ?e ?n"
    using sql_oldest_card [OF assms, of ?e] length_filter_removed [OF assms(2)]
    by (simp add: statement_no_fault sql_delete_def)
  then show ?thesis
    by (auto simp: evict_if_needed_def count unwrap_or_def Let_def)
qed

text \<open>C36: The cleanup of the SQLite store, when no statement fails, keeps the limit, but not its
  exact value: on a well-formed table, at a time RFC 3339 can express, it leaves the
  unexpired records, or as many as the limit when there are more, or one less than the
  limit when there are just as many as allowed, so that a full store loses a live record
  at every cleanup.\<close>

theorem sqlite_cleanup_count:
  assumes ok: "sqlite_ok X Q s" and "row_permutes it" and t: "time_ok (clk 0)"
    and mx: "mx = unat (sc_max_records (sq_config s))"
    and live: "live = card {i. \<exists>r. sqlite_view X Q s i = Some r \<and> clk 0 < sr_expires_at r}"
  shows "length (sq_rows (fst (sqlite_expire_old_records Q it no_fault clk (s, m)))) =
    (if live = mx then mx - 1 else min live mx)"
proof -
  let ?D = "\<lambda>r. rw_expires_at r \<le> qc_rfc3339 Q (clk 0)"
  let ?rows = "filter (\<lambda>r. \<not> ?D r) (sq_rows s)"
  have dist: "distinct (map rw_request_id (sq_rows s))" using ok by (simp add: sqlite_ok_def)
  have lt: "qc_rfc3339 Q (clk 0) < qc_rfc3339 Q (sr_expires_at r) \<longleftrightarrow> clk 0 < sr_expires_at r"
    if "record_ok X r" for r
    using that by (intro rfc3339_less [OF sqlite_ok_codec [OF ok] t]) (simp add: record_ok_def)
  have "rw_request_id ` set ?rows = {i. \<exists>r. sqlite_view X Q s i = Some r \<and> clk 0 < sr_expires_at r}"
  proof (intro set_eqI iffI; clarsimp)
    fix row
    assume row: "row \<in> set (sq_rows s)" "\<not> ?D row"
    obtain r where "record_ok X r" "row = record_to_row Q r" by (rule sqlite_rowE [OF ok row(1)])
    with row lt show "\<exists>r. sqlite_view X Q s (rw_request_id row) = Some r \<and> clk 0 < sr_expires_at r"
      by (intro exI [of _ r]) (simp add: view_iff [OF ok] not_le)
  next
    fix i r
    assume r: "sqlite_view X Q s i = Some r" "clk 0 < sr_expires_at r"
    then have "record_ok X r" "sr_request_id r = i" "record_to_row Q r \<in> set (sq_rows s)"
      by (simp_all add: view_iff [OF ok])
    with r lt show "i \<in> rw_request_id ` {x \<in> set (sq_rows s). \<not> ?D x}"
      by (intro image_eqI [of _ _ "record_to_row Q r"]) (simp_all add: not_le)
  qed
  moreover have "card (rw_request_id ` set ?rows) = length ?rows"
    using dist by (metis distinct_card distinct_map_filter length_map set_map)
  ultimately have "length ?rows = live" using live by simp
  moreover have "sq_rows (snd (statement no_fault (sql_delete ?D) s)) = ?rows"
    "sq_config (snd (statement no_fault (sql_delete ?D) s)) = sq_config s"
    by (simp_all add: statement_no_fault [of "sql_delete ?D" s "length (filter ?D (sq_rows s))" ?rows] sql_delete_def)
  ultimately show ?thesis
    using evict_length [OF assms(2), of "snd (statement no_fault (sql_delete ?D) s)" "sc_max_records (sq_config s)"] dist mx
    by (simp add: expire_state distinct_map_filter)
qed

definition full_sqlite :: sqlite_store where
  "full_sqlite = done_sqlite\<lparr>sq_config := default_status_config\<lparr>sc_max_records := 1\<rparr>\<rparr>"


lemma done_sqlite_view:
  "sqlite_view example_externals example_codec done_sqlite i = (if i = sql_id then Some sql_done else None)"
proof (cases "i = sql_id")
  case False
  have "sr_request_id sql_done = sql_id" by (simp add: sql_done_def)
  with False show ?thesis by (simp add: sqlite_view_def done_sqlite_def)
qed (simp add: done_sqlite_ok)

theorem sqlite_cleanup_count_witness:
  "length (sq_rows (fst (sqlite_expire_old_records example_codec (\<lambda>rows. rows) no_fault (\<lambda>_. 5)
      (full_sqlite, metrics_new)))) = 0"
proof -
  have rows: "sq_rows full_sqlite = sq_rows done_sqlite" by (simp add: full_sqlite_def)
  have ok: "sqlite_ok example_externals example_codec full_sqlite"
    using done_sqlite_ok(1) ok_cong [OF rows] by blast
  have "sr_expires_at sql_done = 60000000000" by (simp add: sql_done_def)
  then have "{i. \<exists>r. sqlite_view example_externals example_codec full_sqlite i = Some r
      \<and> 5 < sr_expires_at r} = {sql_id}"
    by (auto simp: view_cong [OF rows] done_sqlite_view)
  then have "1 = card {i. \<exists>r. sqlite_view example_externals example_codec full_sqlite i = Some r
      \<and> (\<lambda>_. 5) 0 < sr_expires_at r}"
    by simp
  from sqlite_cleanup_count [OF ok _ _ refl this, of "\<lambda>rows. rows" metrics_new]
  show ?thesis by (simp add: row_permutes_def time_ok_def full_sqlite_def)
qed

subsection \<open>The record and the answer\<close>

text \<open>With a SQLite store whose statements succeed every request that was not known before ends
  with a record of the asking key in a terminal state that matches the answer, as with the
  in-memory store (for an id of the right form, times RFC 3339 can express, and a record
  that does not expire while the handler runs).\<close>

theorem send_record_matches_answer_sqlite:
  assumes "sqlite_ok X Q (wd_store w)" and "sqlite_view X Q (wd_store w) (ev_request_id ev) = None"
    and "record_ok X (new_received (ev_received ev) (ev_request_id ev) (ac_key_id auth)
      (sc_ttl_seconds (cf_status cfg)))"
    and "\<And>n k. ev_clock ev n k < ev_received ev + ttl_nanos (sc_ttl_seconds (cf_status cfg))"
    and "\<And>n k. time_ok (ev_clock ev n k)"
    and "send_mail Y (sqlite_ops X Q it no_fault) ev cfg auth w = (res, w')"
  shows "\<exists>r. sqlite_view X Q (wd_store w') (ev_request_id ev) = Some r
    \<and> sr_key_id r = ac_key_id auth \<and> is_terminal (sr_status r)
    \<and> sr_status r = final_status (map_sum re_source id res)
    \<and> sr_code r = final_code (map_sum re_source id res)"
proof -
  have "tracking_store.calls_ok (sql_valid X) ev (ac_key_id auth)
      (ev_received ev + ttl_nanos (sc_ttl_seconds (cf_status cfg)))"
    using assms(4,5) by (simp add: tracking_store.calls_ok_def [OF sqt.tracking_store_axioms])
  from tracking_store.send_mail_record [OF sqt.tracking_store_axioms assms(1,2) this _ assms(6)] assms(3)
  show ?thesis using final_status_terminal by (metis sql_valid.simps(1))
qed

theorem send_record_matches_answer_sqlite_witness:
  "\<exists>r. sqlite_view example_externals example_codec (wd_store (snd (send_mail example_externals
       (sqlite_ops example_externals example_codec (\<lambda>rows. rows) no_fault) (example_env\<lparr>ev_request_id := sql_id\<rparr>)
       example_config example_auth \<lparr>wd_store = empty_sqlite, wd_limiter = wd_limiter example_world,
         wd_metrics = metrics_new, wd_sent = []\<rparr>))) sql_id = Some r \<and> is_terminal (sr_status r)"
proof -
  let ?ev = "example_env\<lparr>ev_request_id := sql_id\<rparr>"
  let ?w = "\<lparr>wd_store = empty_sqlite, wd_limiter = wd_limiter example_world, wd_metrics = metrics_new, wd_sent = []\<rparr>"
  obtain res w' where run: "send_mail example_externals (sqlite_ops example_externals example_codec
      (\<lambda>rows. rows) no_fault) ?ev example_config example_auth ?w = (res, w')"
    by (rule prod.exhaust)
  have "record_ok example_externals (new_received (ev_received ?ev) (ev_request_id ?ev)
      (ac_key_id example_auth) (sc_ttl_seconds (cf_status example_config)))"
    using sql_id_ok by (simp add: record_ok_def new_received_def example_env_def time_ok_def
        default_status_config_def ttl_nanos_def)
  moreover have "sqlite_ok example_externals example_codec (wd_store ?w)"
    "sqlite_view example_externals example_codec (wd_store ?w) (ev_request_id ?ev) = None"
    by (simp_all add: empty_sqlite_ok)
  moreover have "ev_clock ?ev n k < ev_received ?ev + ttl_nanos (sc_ttl_seconds (cf_status example_config))"
    "time_ok (ev_clock ?ev n k)" for n k
    by (simp_all add: example_env_def default_status_config_def ttl_nanos_def time_ok_def)
  ultimately obtain r where "sqlite_view example_externals example_codec (wd_store w') (ev_request_id ?ev) = Some r"
    "is_terminal (sr_status r)"
    using send_record_matches_answer_sqlite [OF _ _ _ _ _ run] by blast
  with run show ?thesis by simp
qed

end
