(* ===== verification/Status_Redis_Claims.thy ===== *)
theory Status_Redis_Claims
  imports Example_Codec
begin

text \<open>
  The properties of the Redis store: terminal states are final whatever fails, an update
  keeps the deadline of a key with the expiry of its record, and counting the keys returns
  exactly when the scan ends.
\<close>

subsection \<open>The life cycle\<close>

text \<open>C37: A terminal status is final in the Redis store whatever the server drops and whichever
  connections and commands fail (executed or not): after any sequence of calls, none of
  which inserts the same request id again, the record is either gone or has the same
  owner, status, code and message.\<close>

theorem redis_terminal_final:
  assumes "redis_ok E (fst x)" and "redis_view E (fst x) i = Some r"
    and "is_terminal (sr_status r)"
    and "\<And>op. op \<in> set os \<Longrightarrow> redis_valid op \<and> \<not> creates op i"
  shows "redis_view E (fst (run_ops (redis_ops E) os x)) i = None
    \<or> (\<exists>r'. redis_view E (fst (run_ops (redis_ops E) os x)) i = Some r'
           \<and> same_identity r r' \<and> same_outcome r r')"
  using assms by (intro rd.terminal_is_final) simp_all

definition redis_done :: status_record where
  "redis_done = (new_received 0 ''req_1'' ''svc-a'' 60)\<lparr>sr_status := SmtpAccepted\<rparr>"

lemma redis_done_simps [simp]:
  "sr_request_id redis_done = ''req_1''" "sr_key_id redis_done = ''svc-a''"
  "sr_status redis_done = SmtpAccepted" "times_ok redis_done"
  by (simp_all add: redis_done_def new_received_def ttl_nanos_def times_ok_def time_ok_def)

definition redis_holding :: "status_record \<Rightarrow> redis_store" where
  "redis_holding r =
     \<lparr>rd_data = [(redis_key (sr_request_id r), (mark_domains (record_fields r), 60000000000))],
      rd_config = default_status_config, rd_conns = 0, rd_cmds = 0\<rparr>"

lemma redis_holding_ok:
  assumes "times_ok r"
  shows "redis_ok example_redis (redis_holding r)"
    and "redis_view example_redis (redis_holding r) (sr_request_id r) = Some r"
  using assms example_redis_ok
  by (auto simp: redis_ok_def redis_view_def redis_holding_def hm_wf_def example_redis_def
      example_to_json_def example_json)

definition redis_calls :: "store_op list" where
  "redis_calls = [Update_Status (\<lambda>_. 5) ''req_1'' ''svc-a'' \<lparr>su_status = SmtpFailed, su_code = None, su_message = None\<rparr>,
     Get_Status (\<lambda>_. 6) ''req_1'' ''svc-b'']"

theorem redis_terminal_final_witness:
  "(case redis_view example_redis (fst (run_ops (redis_ops example_redis) redis_calls
        (redis_holding redis_done, metrics_new))) ''req_1'' of
      Some r' \<Rightarrow> sr_status r' = SmtpAccepted | None \<Rightarrow> True)"
proof -
  have "redis_valid op \<and> \<not> creates op ''req_1''" if "op \<in> set redis_calls" for op
    using that by (auto simp: redis_calls_def time_ok_def)
  with redis_terminal_final [of example_redis "(redis_holding redis_done, metrics_new)" "''req_1''" redis_done redis_calls]
    redis_holding_ok [of redis_done]
  show ?thesis by (auto simp: same_outcome_def)
qed

subsection \<open>Time to live\<close>

lemma remaining_ttl_seconds:
  assumes "time_ok now" and "time_ok (sr_expires_at r)"
  shows "int (unat (remaining_ttl now r)) = max 1 ((sr_expires_at r - now) div 1000000000)"
proof -
  have "sr_expires_at r - now < 1000000000 * 18446744073709551616"
    using assms by (simp add: time_ok_def)
  then have "(sr_expires_at r - now) div 1000000000 < 18446744073709551616"
    by (simp add: div_less_iff_less_mult mult.commute)
  then show ?thesis
    by (simp add: remaining_ttl_def uint_nat [symmetric] uint_word_of_int take_bit_int_eq_self)
qed

lemma set_ex_entry:
  assumes "hm_get (rd_data (snd (redis_command E (cmd_set_ex E k v ttl) s))) k = Some (v', d')"
    and "hm_wf (rd_data s)"
  shows "(\<exists>d. hm_get (rd_data s) k = Some (v', d) \<and> d' = d)
    \<or> v' = v \<and> d' = rx_time E (rd_cmds s) + int (unat ttl) * 1000000000"
proof -
  let ?d = "surviving E (rd_cmds s) (rd_data s)"
  let ?new = "hm_insert k (v, rx_time E (rd_cmds s) + int (unat ttl) * 1000000000) ?d"
  have kept: "hm_get ?d k = Some (v', d') \<Longrightarrow> hm_get (rd_data s) k = Some (v', d')"
    using drops_surviving [of "rd_data s" E "rd_cmds s"] assms(2) unfolding drops_def
    by (metis insertE option.distinct(1) singletonD)
  have "rd_data (snd (redis_command E (cmd_set_ex E k v ttl) s)) \<in> {?d, ?new}"
    using command_data_disj [of E "cmd_set_ex E k v ttl" s] by (auto simp: cmd_set_ex_def split: option.splits)
  with assms(1) have "hm_get ?d k = Some (v', d') \<or> hm_get ?new k = Some (v', d')" by auto
  then show ?thesis using kept by auto
qed

text \<open>C38: An update keeps the time a record has to live instead of starting it afresh: after any
  update the key either has the deadline it had before, or (with the server's clock equal
  to the program's) one that is less than a second before the expiry of the record and not
  after it, except that a record about to expire gets one more second.\<close>

theorem redis_update_keeps_deadline:
  assumes "redis_ok E s" and "redis_view E s i = Some r" and "time_ok (clk 2)"
    and "\<And>n. rx_time E n = clk 2"
    and "hm_get (rd_data (fst (snd (redis_update_status E clk i k u (s, m))))) (redis_key i) = Some (v, d)"
  shows "(\<exists>v'. hm_get (rd_data s) (redis_key i) = Some (v', d))
    \<or> sr_expires_at r - 1000000000 < d \<and> d \<le> max (sr_expires_at r) (clk 2 + 1000000000)"
  using assms(1)
proof (cases rule: update_state_cases [of E s clk i k u m])
  case 1
  with assms(1,5) show ?thesis unfolding drops_def redis_ok_def by (metis insertE option.distinct(1) singletonD)
next
  case (2 r' j s2)
  have wf: "hm_wf (rd_data s)" using assms(1) by (simp add: redis_ok_def)
  have r: "r' = r" and t: "time_ok (sr_expires_at r)"
    using 2(1) assms(2) redis_view_Some(1) [OF assms(1,2)] by (simp_all add: times_ok_def)
  let ?ttl = "remaining_ttl (clk 2) r"
  consider d0 where "hm_get (rd_data s2) (redis_key i) = Some (v, d0)" "d = d0"
    | "d = clk 2 + int (unat ?ttl) * 1000000000"
    using set_ex_entry [of E "redis_key i" j ?ttl s2 v d] assms(4,5) 2(3,5) wf r by (auto simp: drops_def)
  then show ?thesis
  proof cases
    case 1
    with 2(3) wf show ?thesis unfolding drops_def by (metis insertE option.distinct(1) singletonD)
  next
    case 2
    let ?q = "(sr_expires_at r - clk 2) div 1000000000"
    have "sr_expires_at r - clk 2 < ?q * 1000000000 + 1000000000" "?q * 1000000000 \<le> sr_expires_at r - clk 2"
      by simp_all
    with 2 show ?thesis unfolding remaining_ttl_seconds [OF assms(3) t] by (cases "1 \<le> ?q") (auto simp: max_def)
  qed
qed

definition redis_pending :: status_record where
  "redis_pending = new_received 0 ''req_1'' ''svc-a'' 60"

definition pending_store :: redis_store where
  "pending_store = redis_holding redis_pending"

definition to_accepted :: status_update where
  "to_accepted = \<lparr>su_status = SmtpAccepted, su_code = None, su_message = None\<rparr>"

lemma pending_store_ok:
  "redis_ok example_redis pending_store" "redis_view example_redis pending_store ''req_1'' = Some redis_pending"
  using redis_holding_ok [of redis_pending]
  by (simp_all add: pending_store_def redis_pending_def times_ok_def time_ok_def new_received_def ttl_nanos_def)

text \<open>The record expires at 60 seconds; an update 7.5 seconds later writes a deadline of 52
  whole seconds more.\<close>

definition late_redis :: redis_env where
  "late_redis = example_redis\<lparr>rx_time := (\<lambda>_. 7500000000)\<rparr>"

lemma late_redis_env [simp]:
  "rx_to_json late_redis = example_to_json" "rx_from_json late_redis = example_from_json"
  "rx_time late_redis n = 7500000000" "rx_conn late_redis n" "rx_fault late_redis n = None"
  "rx_gone late_redis n k = False"
  "rx_set_error late_redis ttl = (if ttl = 0 then Some ''invalid expire time'' else None)"
  by (simp_all add: late_redis_def example_redis_def)

lemma late_redis_ok:
  "redis_ok late_redis pending_store" "redis_view late_redis pending_store ''req_1'' = Some redis_pending"
proof -
  have *: "rx_to_json example_redis = example_to_json" "rx_from_json example_redis = example_from_json"
    by (simp_all add: example_redis_def)
  show "redis_ok late_redis pending_store"
    using pending_store_ok(1) by (simp add: redis_ok_def json_ok_def *)
  show "redis_view late_redis pending_store ''req_1'' = Some redis_pending"
    by (simp add: redis_view_def pending_store_def redis_holding_def redis_pending_def new_received_def example_json)
qed

lemma redis_pending_simps [simp]:
  "sr_request_id redis_pending = ''req_1''" "sr_key_id redis_pending = ''svc-a''"
  "sr_status redis_pending = Received" "sr_expires_at redis_pending = 60000000000"
  by (simp_all add: redis_pending_def new_received_def ttl_nanos_def)

lemma late_update:
  "hm_get (rd_data (fst (snd (redis_update_status late_redis (\<lambda>_. 7500000000) ''req_1'' ''svc-a'' to_accepted
      (pending_store, metrics_new))))) (redis_key ''req_1'')
    = Some (mark_domains (record_fields (redis_updated to_accepted 7500000000 redis_pending)), 59500000000)"
proof -
  let ?k = "redis_key ''req_1''"
  let ?j = "mark_domains (record_fields redis_pending)"
  let ?j' = "mark_domains (record_fields (redis_updated to_accepted 7500000000 redis_pending))"
  let ?s1 = "pending_store\<lparr>rd_conns := Suc 0\<rparr>"
  let ?s2 = "?s1\<lparr>rd_cmds := Suc 0\<rparr>"
  have data: "rd_data pending_store = [(?k, ?j, 60000000000)]" "rd_cmds pending_store = 0" "rd_conns pending_store = 0"
    by (simp_all add: pending_store_def redis_holding_def)
  have alive: "surviving late_redis n [(?k, ?j, 60000000000)] = [(?k, ?j, 60000000000)]" for n
    by (simp add: surviving_def hm_retain_def)
  have conn: "get_conn late_redis pending_store = (True, ?s1)" by (simp add: get_conn_def data)
  have get: "redis_command late_redis (cmd_get ?k) ?s1 = (Inr (Some ?j), ?s2)"
    by (simp add: redis_command_def cmd_get_def data alive Let_def)
  have ttl: "remaining_ttl 7500000000 (redis_updated to_accepted 7500000000 redis_pending) = 52"
    by (simp add: remaining_ttl_def redis_updated_def)
  have set: "\<exists>s3. redis_command late_redis (cmd_set_ex late_redis ?k ?j' 52) ?s2 = (Inr (), s3)
      \<and> hm_get (rd_data s3) ?k = Some (?j', 59500000000)"
    by (simp add: redis_command_def cmd_set_ex_def data alive Let_def)
  then obtain s3 where s3: "redis_command late_redis (cmd_set_ex late_redis ?k ?j' 52) ?s2 = (Inr (), s3)"
    "hm_get (rd_data s3) ?k = Some (?j', 59500000000)" by blast
  have "fst (snd (redis_update_status late_redis (\<lambda>_. 7500000000) ''req_1'' ''svc-a'' to_accepted
      (pending_store, metrics_new))) = s3"
    by (simp add: redis_update_status_def Let_def conn get example_json is_expired_def example_to_json_def ttl s3(1))
  with s3(2) show ?thesis by simp
qed

theorem redis_update_keeps_deadline_witness:
  "\<exists>v d. hm_get (rd_data (fst (snd (redis_update_status late_redis (\<lambda>_. 7500000000) ''req_1'' ''svc-a''
        to_accepted (pending_store, metrics_new))))) (redis_key ''req_1'') = Some (v, d)
     \<and> sr_expires_at redis_pending - 1000000000 < d \<and> d \<le> max (sr_expires_at redis_pending) 8500000000"
proof -
  have "hm_get (rd_data pending_store) (redis_key ''req_1'') \<noteq> Some (v', 59500000000)" for v'
    by (simp add: pending_store_def redis_holding_def)
  then have "sr_expires_at redis_pending - 1000000000 < 59500000000
      \<and> 59500000000 \<le> max (sr_expires_at redis_pending) (7500000000 + 1000000000)"
    using redis_update_keeps_deadline [OF late_redis_ok _ late_redis_env(3) late_update] by (auto simp: time_ok_def)
  with late_update show ?thesis by auto
qed

subsection \<open>Counting\<close>

text \<open>The cursor of the scan after a number of answers, \<open>None\<close> once it has ended.\<close>

fun scan_cursor :: "redis_env \<Rightarrow> nat \<Rightarrow> u64 \<Rightarrow> nat \<Rightarrow> u64 option" where
  "scan_cursor E n c 0 = Some c"
| "scan_cursor E n c (Suc k) =
     (case rx_scan E n c of
        Inl _ \<Rightarrow> None
      | Inr (c', keys) \<Rightarrow> if c' = 0 then None else scan_cursor E (Suc n) c' k)"

lemma scan_ends: "scan_cursor E n c k = None \<Longrightarrow> redis_scan_loop E n c found \<noteq> None"
proof (induction k arbitrary: n c found)
  case 0
  then show ?case by simp
next
  case (Suc k)
  then show ?case
    by (subst redis_scan_loop.simps) (auto split: sum.splits if_splits)
qed

lemma scan_goes_on:
  assumes "redis_scan_loop E n c found = Some res"
  shows "\<exists>k. scan_cursor E n c k = None"
proof (rule redis_scan_loop.raw_induct [where P = "\<lambda>E n c found res. \<exists>k. scan_cursor E n c k = None", OF _ assms])
  fix loop E n c found res
  assume IH: "\<And>E n c found res. loop E n c found = Some res \<Longrightarrow> \<exists>k. scan_cursor E n c k = None"
    and body: "(case rx_scan E n c of Inl _ \<Rightarrow> Some (found, Suc n)
      | Inr (new_cursor, keys) \<Rightarrow> if new_cursor = 0 then Some (found + length keys, Suc n)
          else loop E (Suc n) new_cursor (found + length keys)) = Some res"
  show "\<exists>k. scan_cursor E n c k = None"
  proof (cases "\<exists>c' keys. rx_scan E n c = Inr (c', keys) \<and> c' \<noteq> 0")
    case True
    then obtain c' keys where a: "rx_scan E n c = Inr (c', keys)" "c' \<noteq> 0" by blast
    with body IH obtain k where "scan_cursor E (Suc n) c' k = None" by fastforce
    with a show ?thesis by (intro exI [of _ "Suc k"]) simp
  next
    case False
    then show ?thesis by (intro exI [of _ 1]) (auto split: sum.split)
  qed
qed

text \<open>C39: Counting the records in Redis returns exactly when no connection is made or the scan ends,
  that is when some answer to \<open>SCAN\<close> is an error or carries the cursor zero; nothing in the
  program bounds the loop.\<close>

theorem redis_count_returns:
  "redis_record_count E (s, m) = None \<longleftrightarrow>
     rx_conn E (rd_conns s) \<and> (\<forall>k. scan_cursor E (rd_cmds s) 0 k \<noteq> None)"
proof -
  have "redis_scan_loop E (rd_cmds s) 0 0 = None \<longleftrightarrow> (\<forall>k. scan_cursor E (rd_cmds s) 0 k \<noteq> None)"
    using scan_ends [of E "rd_cmds s" 0 _ 0] scan_goes_on [of E "rd_cmds s" 0 0]
    by (metis not_None_eq)
  then show ?thesis by (auto simp: redis_record_count_def get_conn_def split: bool.split)
qed

end
