(* ===== verification/Tasks.thy ===== *)
theory Tasks
  imports Prelude
begin

text \<open>
  Concurrent tasks. The server runs its handlers as tasks on several threads; what they
  share is behind locks, atomic counters and an atomically replaced pointer, so a task is
  a sequence of atomic sections. After a section the task goes on as a function of what
  the section saw. \<open>run_alone\<close> runs a task without interference; \<open>sections\<close> states
  what all sections do, whatever happens in between, and \<open>survives\<close> what holds at the end
  although other tasks may change the world before each section in the ways of a
  relation.
\<close>

datatype (dead 'w, 'r) task =
    Done 'r
  | Atomic "'w \<Rightarrow> 'w" "'w \<Rightarrow> ('w, 'r) task"

primrec run_alone :: "('w, 'r) task \<Rightarrow> 'w \<Rightarrow> 'r \<times> 'w" where
  "run_alone (Done r) w = (r, w)"
| "run_alone (Atomic g k) w = run_alone (k w) (g w)"

primrec bind_task :: "('w, 'a) task \<Rightarrow> ('a \<Rightarrow> ('w, 'b) task) \<Rightarrow> ('w, 'b) task" where
  "bind_task (Done a) h = h a"
| "bind_task (Atomic g k) h = Atomic g (\<lambda>w. bind_task (k w) h)"

definition then_do :: "('w, 'a) task \<Rightarrow> ('w, 'b) task \<Rightarrow> ('w, 'b) task" where
  "then_do t u = bind_task t (\<lambda>_. u)"

text \<open>The \<open>?\<close> operator: the error ends the task.\<close>

definition try_task ::
  "('w, 'e + 'a) task \<Rightarrow> ('a \<Rightarrow> ('w, 'e + 'b) task) \<Rightarrow> ('w, 'e + 'b) task" where
  "try_task t h = bind_task t (\<lambda>r. case r of Inl e \<Rightarrow> Done (Inl e) | Inr a \<Rightarrow> h a)"

definition atomically :: "('w \<Rightarrow> 'a \<times> 'w) \<Rightarrow> ('w, 'a) task" where
  "atomically f = Atomic (\<lambda>w. snd (f w)) (\<lambda>w. Done (fst (f w)))"

text \<open>A task on a part of a larger world.\<close>

primrec on_part ::
  "('p \<Rightarrow> 'w) \<Rightarrow> ('w \<Rightarrow> 'p \<Rightarrow> 'p) \<Rightarrow> ('w, 'r) task \<Rightarrow> ('p, 'r) task" where
  "on_part get put (Done r) = Done r"
| "on_part get put (Atomic g k) =
     Atomic (\<lambda>p. put (g (get p)) p) (\<lambda>p. on_part get put (k (get p)))"

subsection \<open>Without interference\<close>

lemma run_alone_bind [simp]:
  "run_alone (bind_task t h) w = (case run_alone t w of (a, w') \<Rightarrow> run_alone (h a) w')"
  by (induction t arbitrary: w) simp_all

lemma run_alone_then_do [simp]:
  "run_alone (then_do t u) = (\<lambda>w. run_alone u (snd (run_alone t w)))"
  by (rule ext) (simp add: then_do_def split_beta)

lemma run_alone_atomically [simp]: "run_alone (atomically f) w = f w"
  by (simp add: atomically_def)

lemma run_alone_on_part:
  assumes "\<And>w p. get (put w p) = w" and "\<And>w w' p. put w (put w' p) = put w p"
    and "\<And>p. put (get p) p = p"
  shows "run_alone (on_part get put t) p
    = (case run_alone t (get p) of (r, w) \<Rightarrow> (r, put w p))"
proof (induction t arbitrary: p)
  case (Done r)
  then show ?case using assms(3) by simp
next
  case (Atomic g k)
  then show ?case using assms(1,2) by (simp add: split_beta)
qed

subsection \<open>What every section does\<close>

text \<open>
  \<open>sections I G P t c\<close>: from a world in \<open>I\<close> each section of \<open>t\<close> takes a step of \<open>G\<close>, which
  may update the ghost state \<open>c\<close>, and at the end the result and the ghost state satisfy \<open>P\<close>.
\<close>

primrec sections ::
  "('w \<Rightarrow> bool) \<Rightarrow> ('c \<Rightarrow> 'w \<Rightarrow> 'w \<Rightarrow> 'c \<Rightarrow> bool) \<Rightarrow> ('r \<Rightarrow> 'c \<Rightarrow> bool) \<Rightarrow> ('w, 'r) task \<Rightarrow> 'c \<Rightarrow> bool" where
  "sections I G P (Done r) c \<longleftrightarrow> P r c"
| "sections I G P (Atomic g k) c \<longleftrightarrow>
     (\<forall>w. I w \<longrightarrow> (\<exists>c'. G c w (g w) c' \<and> sections I G P (k w) c'))"

lemma sections_bind:
  "sections I G P t c \<Longrightarrow> (\<And>a c. P a c \<Longrightarrow> sections I G Q (h a) c) \<Longrightarrow> sections I G Q (bind_task t h) c"
proof (induction t arbitrary: c)
  case (Done r)
  then show ?case by simp
next
  case (Atomic g k)
  show ?case
  proof (simp, intro allI impI)
    fix w assume "I w"
    with Atomic.prems(1) obtain c' where "G c w (g w) c'" "sections I G P (k w) c'" by auto
    with Atomic.IH [OF rangeI] Atomic.prems(2)
    show "\<exists>c'. G c w (g w) c' \<and> sections I G Q (bind_task (k w) h) c'" by blast
  qed
qed

lemma sections_then_do:
  "sections I G (\<lambda>_. P) t c \<Longrightarrow> (\<And>c. P c \<Longrightarrow> sections I G Q u c) \<Longrightarrow> sections I G Q (then_do t u) c"
  unfolding then_do_def by (rule sections_bind)

lemma sections_try:
  assumes "sections I G P t c" and "\<And>a c. P (Inr a) c \<Longrightarrow> sections I G Q (h a) c"
    and "\<And>e c. P (Inl e) c \<Longrightarrow> Q (Inl e) c"
  shows "sections I G Q (try_task t h) c"
  unfolding try_task_def using assms by (intro sections_bind [OF assms(1)]) (auto split: sum.split)

lemma sections_atomically:
  "(\<And>w. I w \<Longrightarrow> \<exists>c'. G c w (snd (f w)) c' \<and> P (fst (f w)) c') \<Longrightarrow> sections I G P (atomically f) c"
  by (simp add: atomically_def)

lemma sections_mono:
  "sections I G P t c \<Longrightarrow> (\<And>r c. P r c \<Longrightarrow> Q r c) \<Longrightarrow> sections I G Q t c"
proof (induction t arbitrary: c)
  case (Done r)
  then show ?case by simp
next
  case (Atomic g k)
  then show ?case by (simp, meson rangeI)
qed

lemma sections_on_part:
  assumes "\<And>p. IP p \<Longrightarrow> I (get p)"
    and "\<And>c p w' c'. IP p \<Longrightarrow> G c (get p) w' c' \<Longrightarrow> GP c p (put w' p) c'"
  shows "sections I G P t c \<Longrightarrow> sections IP GP P (on_part get put t) c"
proof (induction t arbitrary: c)
  case (Done r)
  then show ?case by simp
next
  case (Atomic g k)
  show ?case
  proof (simp, intro allI impI)
    fix p assume p: "IP p"
    then obtain c' where "G c (get p) (g (get p)) c'" "sections I G P (k (get p)) c'"
      using Atomic.prems assms(1) by auto
    with Atomic.IH [OF rangeI] assms(2) [OF p]
    show "\<exists>c'. GP c p (put (g (get p)) p) c' \<and> sections IP GP P (on_part get put (k (get p))) c'"
      by blast
  qed
qed

subsection \<open>Interference\<close>

primrec survives ::
  "('w \<Rightarrow> 'w \<Rightarrow> bool) \<Rightarrow> ('r \<Rightarrow> 'w \<Rightarrow> bool) \<Rightarrow> ('w, 'r) task \<Rightarrow> 'w \<Rightarrow> bool" where
  "survives R Q (Done r) w \<longleftrightarrow> Q r w"
| "survives R Q (Atomic g k) w \<longleftrightarrow> (\<forall>w'. R w w' \<longrightarrow> survives R Q (k w') (g w'))"

lemma survives_stable:
  assumes "transp R" and "\<And>r w w'. Q r w \<Longrightarrow> R w w' \<Longrightarrow> Q r w'"
    and "survives R Q t w" and "R w w'"
  shows "survives R Q t w'"
  using assms(2-4) by (cases t) (auto dest: transpD [OF assms(1)])

lemma survives_bind:
  assumes "survives R P t w" and "\<And>a w. P a w \<Longrightarrow> survives R Q (h a) w"
  shows "survives R Q (bind_task t h) w"
  using assms(1)
proof (induction t arbitrary: w)
  case (Done a)
  then show ?case using assms(2) by simp
next
  case (Atomic g k)
  then show ?case by auto
qed

lemma survives_mono:
  "survives R P t w \<Longrightarrow> (\<And>r w. P r w \<Longrightarrow> Q r w) \<Longrightarrow> survives R Q t w"
  by (induction t arbitrary: w) auto

lemma survives_vacuous: "(\<And>r w. Q r w) \<Longrightarrow> survives R Q t w"
  by (induction t arbitrary: w) simp_all

lemma survives_atomically:
  "(\<And>w'. R w w' \<Longrightarrow> Q (fst (f w')) (snd (f w'))) \<Longrightarrow> survives R Q (atomically f) w"
  by (simp add: atomically_def)

lemma survives_on_part:
  assumes "\<And>p p'. RP p p' \<Longrightarrow> R (get p) (get p')"
    and "\<And>w p. get (put w p) = w"
  shows "survives R (\<lambda>r w. \<forall>p. get p = w \<longrightarrow> Q r p) t (get p) \<Longrightarrow> survives RP Q (on_part get put t) p"
proof (induction t arbitrary: p)
  case (Done r)
  then show ?case by simp
next
  case (Atomic g k)
  show ?case
  proof (clarsimp)
    fix p' assume "RP p p'"
    then have "R (get p) (get p')" by (rule assms(1))
    with Atomic.prems have "survives R (\<lambda>r w. \<forall>p. get p = w \<longrightarrow> Q r p) (k (get p')) (g (get p'))" by simp
    then have "survives R (\<lambda>r w. \<forall>p. get p = w \<longrightarrow> Q r p) (k (get p')) (get (put (g (get p')) p'))"
      by (simp add: assms(2))
    then show "survives RP Q (on_part get put (k (get p'))) (put (g (get p')) p')"
      by (rule Atomic.IH [OF rangeI])
  qed
qed

text \<open>Without interference the end is the one of \<open>run_alone\<close>.\<close>

lemma survives_alone:
  assumes "survives R Q t w" and "reflp R"
  shows "Q (fst (run_alone t w)) (snd (run_alone t w))"
  using assms(1)
proof (induction t arbitrary: w)
  case (Done r)
  then show ?case by simp
next
  case (Atomic g k)
  then have "survives R Q (k w) (g w)" using assms(2) by (auto dest: reflpD)
  then show ?case using Atomic.IH by auto
qed

text \<open>
  What the sections of a task and the other tasks both keep, holds at its end. The ghost
  state of the sections stays in \<open>J\<close>.
\<close>

lemma survives_sections:
  assumes "sections I G P t c" and "J c" and "A w"
    and "\<And>c w w' c'. J c \<Longrightarrow> A w \<Longrightarrow> G c w w' c' \<Longrightarrow> A w' \<and> J c'"
    and "\<And>w. A w \<Longrightarrow> I w" and "\<And>w w'. A w \<Longrightarrow> R w w' \<Longrightarrow> A w'"
  shows "survives R (\<lambda>r w. A w \<and> (\<exists>c. P r c)) t w"
  using assms(1-3)
proof (induction t arbitrary: c w)
  case (Done r)
  then show ?case by auto
next
  case (Atomic g k)
  show ?case
  proof (simp, intro allI impI)
    fix w' assume "R w w'"
    with Atomic.prems(3) assms(5,6) have A: "A w'" "I w'" by blast+
    with Atomic.prems(1) obtain c' where "G c w' (g w') c'" "sections I G P (k w') c'" by auto
    with A(1) assms(4) Atomic.prems(2) show "survives R (\<lambda>r w. A w \<and> (\<exists>c. P r c)) (k w') (g w')"
      by (intro Atomic.IH [OF rangeI]) blast+
  qed
qed

text \<open>What every result of a task satisfies.\<close>

abbreviation yields :: "('r \<Rightarrow> bool) \<Rightarrow> ('w, 'r) task \<Rightarrow> bool" where
  "yields P t \<equiv> sections (\<lambda>_. True) (\<lambda>_ _ _ _. True) (\<lambda>r _. P r) t ()"

lemma yields_bind: "yields P t \<Longrightarrow> (\<And>a. P a \<Longrightarrow> yields Q (h a)) \<Longrightarrow> yields Q (bind_task t h)"
  by (rule sections_bind [where P = "\<lambda>r _. P r"]) auto

lemma yields_True: "yields (\<lambda>_. True) t"
  by (induction t) auto

lemma yields_then: "yields Q u \<Longrightarrow> yields Q (then_do t u)"
  unfolding then_do_def by (rule yields_bind [OF yields_True])

lemma yields_try:
  "yields P t \<Longrightarrow> (\<And>a. P (Inr a) \<Longrightarrow> yields Q (h a)) \<Longrightarrow> (\<And>e. P (Inl e) \<Longrightarrow> Q (Inl e)) \<Longrightarrow> yields Q (try_task t h)"
  unfolding try_task_def by (erule yields_bind) (auto split: sum.split)

lemma survives_yields:
  "survives R Q t w \<Longrightarrow> yields P t \<Longrightarrow> survives R (\<lambda>r w. Q r w \<and> P r) t w"
proof (induction t arbitrary: w)
  case (Done r)
  then show ?case by simp
next
  case (Atomic g k)
  have "yields P (k w)" for w using Atomic.prems(2) by (auto simp: unit_eq)
  with Atomic.prems(1) show ?case by (simp add: Atomic.IH [OF rangeI])
qed

end
