(* ===== verification/Send_Task.thy ===== *)
theory Send_Task
  imports Send_Bulk Tasks
begin

text \<open>
  The handlers of \<open>api/send.rs\<close> and \<open>api/send_bulk.rs\<close> as tasks: each call of the status
  store, each tier of the rate limiter, each update of the metrics and each message handed
  to the transport is one atomic section, in the order of the source. Without interference
  the tasks are the functions \<open>send_mail\<close> and \<open>send_bulk\<close>.
\<close>

subsection \<open>Sections of the world\<close>

definition store_do :: "('s \<times> metrics \<Rightarrow> 'r \<times> 's \<times> metrics) \<Rightarrow> ('s world, 'r) task" where
  "store_do f = atomically (with_store f)"

definition metrics_do :: "(metrics \<Rightarrow> metrics) \<Rightarrow> ('s world, unit) task" where
  "metrics_do f = atomically (\<lambda>w. ((), on_metrics f w))"

definition limiter_do :: "(rate_limiter \<Rightarrow> 'a \<times> rate_limiter) \<Rightarrow> ('s world, 'a) task" where
  "limiter_do f = atomically (\<lambda>w. case f (wd_limiter w) of (a, rl) \<Rightarrow> (a, w\<lparr>wd_limiter := rl\<rparr>))"

definition transmit :: "message \<Rightarrow> ('s world, unit) task" where
  "transmit msg = atomically (\<lambda>w. ((), w\<lparr>wd_sent := msg # wd_sent w\<rparr>))"

lemma run_alone_sections [simp]:
  "run_alone (store_do f) w = with_store f w"
  "run_alone (metrics_do g) w = ((), on_metrics g w)"
  "run_alone (limiter_do h) w = (case h (wd_limiter w) of (a, rl) \<Rightarrow> (a, w\<lparr>wd_limiter := rl\<rparr>))"
  "run_alone (transmit msg) w = ((), w\<lparr>wd_sent := msg # wd_sent w\<rparr>)"
  by (simp_all add: store_do_def metrics_do_def limiter_do_def transmit_def)

lemma run_alone_try [simp]:
  "run_alone (try_task t h) = (\<lambda>w. then_step (run_alone t w) (\<lambda>a. run_alone (h a)))"
proof
  fix w
  show "run_alone (try_task t h) w = then_step (run_alone t w) (\<lambda>a. run_alone (h a))"
    by (cases "run_alone t w"; cases "fst (run_alone t w)") (simp_all add: try_task_def then_step_def)
qed

subsection \<open>\<open>POST /v1/send\<close>\<close>

definition reject_do ::
  "'s status_ops \<Rightarrow> send_env \<Rightarrow> auth_context \<Rightarrow> app_error \<Rightarrow> ('s world, status_store_error + unit) task" where
  "reject_do ops ev auth status =
     store_do (so_update_status ops (ev_clock ev 0) (ev_request_id ev) (ac_key_id auth)
       \<lparr>su_status = Rejected, su_code = store_code_from_app_error status, su_message = None\<rparr>)"

definition payload_task ::
  "'s status_ops \<Rightarrow> send_env \<Rightarrow> app_config \<Rightarrow> auth_context \<Rightarrow> ('s world, app_error + mail_request) task" where
  "payload_task ops ev cfg auth =
     (let ct = (case ev_content_type ev of Some v \<Rightarrow> v | None \<Rightarrow> []) in
      if \<not> starts_with ct ''application/json''
      then then_do (reject_do ops ev auth UnsupportedMediaType)
             (then_do (metrics_do (inc_request ''4xx'')) (Done (Inl UnsupportedMediaType)))
      else if ev_body_len ev > unat (sv_max_request_body_bytes (cf_server cfg))
      then then_do (reject_do ops ev auth PayloadTooLarge)
             (then_do (metrics_do (inc_request ''4xx'')) (Done (Inl PayloadTooLarge)))
      else (case ev_json ev of
              None \<Rightarrow> then_do (reject_do ops ev auth BadRequest)
                        (then_do (metrics_do (inc_validation_failure ''json_parse''))
                        (then_do (metrics_do (inc_request ''4xx'')) (Done (Inl BadRequest))))
            | Some payload \<Rightarrow> Done (Inr payload)))"

definition tier_task ::
  "'s status_ops \<Rightarrow> send_env \<Rightarrow> auth_context \<Rightarrow> str \<Rightarrow>
     (rate_limiter \<Rightarrow> (rate_limited_error + unit) \<times> rate_limiter) \<Rightarrow> ('s world, app_error + unit) task" where
  "tier_task ops ev auth tier check =
     bind_task (limiter_do check) (\<lambda>r. case r of
       Inl e \<Rightarrow> then_do (metrics_do (inc_rate_limited tier))
                (then_do (metrics_do (inc_request ''4xx''))
                (then_do (reject_do ops ev auth (RateLimited None))
                (Done (Inl (RateLimited (Some (rle_retry_after_secs e)))))))
     | Inr u \<Rightarrow> Done (Inr u))"

definition rates_task ::
  "'s status_ops \<Rightarrow> send_env \<Rightarrow> auth_context \<Rightarrow> ('s world, app_error + unit) task" where
  "rates_task ops ev auth =
     try_task (tier_task ops ev auth ''global'' (check_global (ev_instant ev 0))) (\<lambda>_.
     try_task (tier_task ops ev auth ''ip''
                 (check_ip (ev_instant ev 1) (ev_instant ev 2) (ac_client_ip auth))) (\<lambda>_.
     tier_task ops ev auth ''key''
       (check_key (ev_instant ev 3) (ev_instant ev 4) (ac_key_id auth)
          (ac_key_rate_limit_per_min auth) (ac_key_burst auth))))"

definition build_task ::
  "externals \<Rightarrow> 's status_ops \<Rightarrow> send_env \<Rightarrow> app_config \<Rightarrow> auth_context \<Rightarrow> mail_request \<Rightarrow>
     ('s world, app_error + message) task" where
  "build_task X ops ev cfg auth payload =
     (case validate_mail_request X payload cfg auth of
        Inl e \<Rightarrow> then_do (metrics_do (inc_validation_failure ''request''))
                 (then_do (metrics_do (inc_request ''4xx''))
                 (then_do (reject_do ops ev auth (Validation [])) (Done (Inl e))))
      | Inr validated \<Rightarrow>
          then_do (store_do (so_set_recipient_metadata ops (ev_clock ev 1) (ev_request_id ev)
                    (ac_key_id auth) (recipient_domains_from X (vm_to validated) (vm_cc validated))
                    (of_nat (length (vm_to validated) + length (vm_cc validated)))))
            (case build_message X (ev_finish ev) validated cfg of
               Inr message \<Rightarrow> Done (Inr message)
             | Inl e \<Rightarrow>
                 then_do (store_do (so_update_status ops (ev_clock ev 2) (ev_request_id ev)
                           (ac_key_id auth)
                           \<lparr>su_status = Rejected, su_code = Some Code_InternalError,
                            su_message = Some ''Failed to build mail message.''\<rparr>))
                 (then_do (metrics_do (inc_request ''5xx'')) (Done (Inl e)))))"

definition submit_task ::
  "'s status_ops \<Rightarrow> send_env \<Rightarrow> auth_context \<Rightarrow> message \<Rightarrow> ('s world, app_error + http_reply) task" where
  "submit_task ops ev auth message =
     then_do (store_do (so_update_status ops (ev_clock ev 3) (ev_request_id ev) (ac_key_id auth)
       \<lparr>su_status = SmtpSubmissionStarted, su_code = None, su_message = None\<rparr>))
     (then_do (transmit message)
     (case submit (ev_outcome ev message) of
        Inr _ \<Rightarrow>
          then_do (metrics_do inc_smtp_ok)
          (then_do (metrics_do (inc_request ''2xx''))
          (then_do (store_do (so_update_status ops (ev_clock ev 4) (ev_request_id ev) (ac_key_id auth)
             \<lparr>su_status = SmtpAccepted, su_code = None,
              su_message = Some ''The message was accepted by the configured SMTP server.''\<rparr>))
          (Done (Inr (accepted_reply ev)))))
      | Inl app_err \<Rightarrow>
          then_do (metrics_do inc_smtp_error)
          (then_do (metrics_do (inc_request ''5xx''))
          (then_do (store_do (so_update_status ops (ev_clock ev 4) (ev_request_id ev) (ac_key_id auth)
             \<lparr>su_status = SmtpFailed, su_code = Some (smtp_error_code app_err), su_message = None\<rparr>))
          (Done (Inl app_err))))))"

definition send_task ::
  "externals \<Rightarrow> 's status_ops \<Rightarrow> send_env \<Rightarrow> app_config \<Rightarrow> auth_context \<Rightarrow>
     ('s world, request_error + http_reply) task" where
  "send_task X ops ev cfg auth =
     then_do (store_do (so_put_received ops (new_received (ev_received ev) (ev_request_id ev)
                (ac_key_id auth) (sc_ttl_seconds (cf_status cfg)))))
     (bind_task
       (try_task (payload_task ops ev cfg auth) (\<lambda>payload.
        try_task (rates_task ops ev auth) (\<lambda>_.
        try_task (build_task X ops ev cfg auth payload) (\<lambda>message.
        submit_task ops ev auth message))))
       (\<lambda>r. Done (map_sum (request_err ev) id r)))"

subsection \<open>The task of a send request alone\<close>

lemma payload_task_alone [simp]: "run_alone (payload_task ops ev cfg auth) = check_payload ops ev cfg auth"
  by (rule ext, simp add: payload_task_def check_payload_def reject_do_def reject_def Let_def split: option.split)

lemma tier_task_alone:
  "run_alone (tier_task ops ev auth tier check) w =
     (case check (wd_limiter w) of
        (Inl e, rl) \<Rightarrow> rate_limited ops ev auth tier e (w\<lparr>wd_limiter := rl\<rparr>)
      | (Inr u, rl) \<Rightarrow> (Inr (), w\<lparr>wd_limiter := rl\<rparr>))"
  by (simp add: tier_task_def rate_limited_def reject_do_def reject_def split: prod.split sum.split)

lemma rates_task_alone [simp]: "run_alone (rates_task ops ev auth) = check_rates ops ev auth"
  by (rule ext, auto simp: rates_task_def tier_task_alone check_rates_def then_step_def rate_limited_def
      split: prod.split sum.split)

lemma build_task_alone [simp]:
  "run_alone (build_task X ops ev cfg auth payload) = build_mail X ops ev cfg auth payload"
  by (rule ext, simp add: build_task_def build_mail_def reject_do_def reject_def Let_def split: sum.split)

lemma submit_task_alone [simp]:
  "run_alone (submit_task ops ev auth message) = submit_mail ops ev auth message"
  by (rule ext, simp add: submit_task_def submit_mail_def submission_started_def with_store_def Let_def
      split: sum.split prod.split)

lemma send_task_alone:
  "run_alone (send_task X ops ev cfg auth) w = send_mail X ops ev cfg auth w"
proof -
  have "run_alone (send_task X ops ev cfg auth) w =
      (case send_steps X ops ev cfg auth (put_initial ops ev cfg auth w) of
         (r, w') \<Rightarrow> (map_sum (request_err ev) id r, w'))"
    by (simp add: send_task_def send_steps_def put_initial_def)
  then show ?thesis by (simp add: send_mail_def split: prod.split sum.split)
qed

subsection \<open>\<open>POST /v1/send-bulk\<close>\<close>

definition bulk_update_do ::
  "'s status_ops \<Rightarrow> clock \<Rightarrow> request_id \<Rightarrow> str \<Rightarrow> submission_status \<Rightarrow> error_code option \<Rightarrow>
     str \<Rightarrow> ('s world, status_store_error + unit) task" where
  "bulk_update_do ops clk rid key status code msg =
     store_do (so_update_status ops clk rid key
       \<lparr>su_status = status, su_code = code, su_message = Some msg\<rparr>)"

definition store_rejected_do ::
  "'s status_ops \<Rightarrow> time \<Rightarrow> clock \<Rightarrow> request_id \<Rightarrow> str \<Rightarrow> error_code \<Rightarrow> str \<Rightarrow> u64 \<Rightarrow>
     ('s world, status_store_error + unit) task" where
  "store_rejected_do ops now clk req_id key_id code msg ttl =
     then_do (store_do (so_put_received ops (new_received now req_id key_id ttl)))
       (bulk_update_do ops clk req_id key_id Rejected (Some code) msg)"

definition bulk_tier_task ::
  "'s status_ops \<Rightarrow> bulk_env \<Rightarrow> app_config \<Rightarrow> auth_context \<Rightarrow> nat \<Rightarrow> str \<Rightarrow> str \<Rightarrow>
     (rate_limiter \<Rightarrow> (rate_limited_error + unit) \<times> rate_limiter) \<Rightarrow> ('s world, message_result + unit) task" where
  "bulk_tier_task ops be cfg auth index tier msg check =
     bind_task (limiter_do check) (\<lambda>r. case r of
       Inl e \<Rightarrow> then_do (metrics_do (inc_rate_limited tier))
                (then_do (store_rejected_do ops (be_received be index) (be_clock be index 0)
                   (be_ids be index) (ac_key_id auth) Code_RateLimited msg
                   (sc_ttl_seconds (cf_status cfg)))
                (Done (Inl (rejected_result index (be_ids be index) Code_RateLimited msg))))
     | Inr u \<Rightarrow> Done (Inr u))"

definition bulk_rates_task ::
  "'s status_ops \<Rightarrow> bulk_env \<Rightarrow> app_config \<Rightarrow> auth_context \<Rightarrow> nat \<Rightarrow> ('s world, message_result + unit) task" where
  "bulk_rates_task ops be cfg auth index =
     try_task (bulk_tier_task ops be cfg auth index ''global'' ''Global rate limit exceeded.''
                 (check_global (be_instant be index 0))) (\<lambda>_.
     try_task (bulk_tier_task ops be cfg auth index ''ip'' ''IP rate limit exceeded.''
                 (check_ip (be_instant be index 1) (be_instant be index 2) (ac_client_ip auth))) (\<lambda>_.
     bulk_tier_task ops be cfg auth index ''key'' ''Per-key rate limit exceeded.''
       (check_key (be_instant be index 3) (be_instant be index 4) (ac_key_id auth)
          (ac_key_rate_limit_per_min auth) (ac_key_burst auth))))"

definition bulk_build_task ::
  "externals \<Rightarrow> 's status_ops \<Rightarrow> bulk_env \<Rightarrow> app_config \<Rightarrow> auth_context \<Rightarrow> nat \<Rightarrow>
     mail_request \<Rightarrow> ('s world, message_result + prepared_message) task" where
  "bulk_build_task X ops be cfg auth index raw_msg =
     (let rid = be_ids be index; key = ac_key_id auth in
      case validate_mail_request X raw_msg cfg auth of
        Inl e \<Rightarrow>
          then_do (metrics_do (inc_validation_failure ''request''))
          (then_do (bulk_update_do ops (be_clock be index 1) rid key Rejected (Some (apperr_to_code e))
             ''Request rejected during validation.'')
          (Done (Inl (rejected_result index rid (apperr_to_code e) (app_error_display e)))))
      | Inr validated \<Rightarrow>
          then_do (store_do (so_set_recipient_metadata ops (be_clock be index 2) rid key
            (recipient_domains_from X (vm_to validated) (vm_cc validated))
            (of_nat (length (vm_to validated) + length (vm_cc validated)))))
          (case build_message X (be_finish be) validated cfg of
             Inl e \<Rightarrow>
               then_do (bulk_update_do ops (be_clock be index 3) rid key Rejected
                 (Some Code_InternalError) ''Failed to build mail message.'')
               (Done (Inl (rejected_result index rid Code_InternalError (app_error_display e))))
           | Inr message \<Rightarrow>
               Done (Inr \<lparr>pm_index = index, pm_req_id = rid, pm_key_id = key, pm_message = message,
                          pm_recipient_domain = recipient_domain_of (vm_to validated),
                          pm_effective_mask = effective_mask cfg auth\<rparr>)))"

definition phase1_task ::
  "externals \<Rightarrow> 's status_ops \<Rightarrow> bulk_env \<Rightarrow> app_config \<Rightarrow> auth_context \<Rightarrow> nat \<Rightarrow>
     mail_request \<Rightarrow> ('s world, message_result + prepared_message) task" where
  "phase1_task X ops be cfg auth index raw_msg =
     try_task (bulk_rates_task ops be cfg auth index) (\<lambda>_.
       then_do (store_do (so_put_received ops (new_received (be_received be index) (be_ids be index)
                  (ac_key_id auth) (sc_ttl_seconds (cf_status cfg)))))
         (bulk_build_task X ops be cfg auth index raw_msg))"

fun phase1_loop_task ::
  "externals \<Rightarrow> 's status_ops \<Rightarrow> bulk_env \<Rightarrow> app_config \<Rightarrow> auth_context \<Rightarrow> nat \<Rightarrow>
     mail_request list \<Rightarrow> ('s world, message_result list \<times> prepared_message list) task" where
  "phase1_loop_task X ops be cfg auth index [] = Done ([], [])"
| "phase1_loop_task X ops be cfg auth index (raw_msg # msgs) =
     bind_task (phase1_task X ops be cfg auth index raw_msg) (\<lambda>r.
     bind_task (phase1_loop_task X ops be cfg auth (Suc index) msgs) (\<lambda>(rejected, prepared).
       Done (case r of Inl res \<Rightarrow> (res # rejected, prepared)
             | Inr p \<Rightarrow> (rejected, p # prepared))))"

text \<open>
  Phase 2 in the order of the schedule. The world inside a \<open>bulk_state\<close> is replaced by
  the current one at each event.
\<close>

fun schedule_task ::
  "'s status_ops \<Rightarrow> bulk_env \<Rightarrow> app_config \<Rightarrow> nat \<Rightarrow> bulk_event list \<Rightarrow> 's bulk_state \<Rightarrow>
     ('s world, 's bulk_state option) task" where
  "schedule_task ops be cfg permits [] st = Done (Some st)"
| "schedule_task ops be cfg permits (ev # evs) st =
     Atomic
       (\<lambda>w. case fire ops be cfg permits ev (st\<lparr>bs_world := w\<rparr>) of
              None \<Rightarrow> w | Some st' \<Rightarrow> bs_world st')
       (\<lambda>w. case fire ops be cfg permits ev (st\<lparr>bs_world := w\<rparr>) of
              None \<Rightarrow> Done None | Some st' \<Rightarrow> schedule_task ops be cfg permits evs st')"

definition bulk_task ::
  "externals \<Rightarrow> 's status_ops \<Rightarrow> bulk_env \<Rightarrow> app_config \<Rightarrow> auth_context \<Rightarrow> request_id \<Rightarrow>
     mail_request list \<Rightarrow> bulk_event list \<Rightarrow> ('s world, (app_error + http_reply) option) task" where
  "bulk_task X ops be cfg auth bulk_req_id messages schedule =
     (if messages = [] then Done (Some (Inl BadRequest))
      else if length messages > unat (ml_max_bulk_messages (cf_mail cfg))
      then Done (Some (Inl PayloadTooLarge))
      else
        bind_task (phase1_loop_task X ops be cfg auth 0 messages) (\<lambda>(rejected, prepared).
        bind_task (atomically (\<lambda>w. (w, w))) (\<lambda>w.
        bind_task (schedule_task ops be cfg (bulk_concurrency cfg (length prepared)) schedule
            \<lparr>bs_waiting = prepared, bs_running = [], bs_submitted = [], bs_world = w\<rparr>) (\<lambda>res.
          case res of
            None \<Rightarrow> Done None
          | Some st \<Rightarrow>
              if all_joined st
              then then_do (metrics_do (inc_request ''2xx''))
                     (Done (Some (Inr (bulk_reply bulk_req_id (length messages)
                        (merge_results rejected (bs_submitted st))))))
              else Done None))))"

subsection \<open>The task of a bulk request alone\<close>

lemma bulk_tier_task_alone:
  "run_alone (bulk_tier_task ops be cfg auth index tier msg check) w =
     (case check (wd_limiter w) of
        (Inl e, rl) \<Rightarrow> bulk_rate_limited ops be cfg auth index tier msg (w\<lparr>wd_limiter := rl\<rparr>)
      | (Inr u, rl) \<Rightarrow> (Inr (), w\<lparr>wd_limiter := rl\<rparr>))"
  by (simp add: bulk_tier_task_def bulk_rate_limited_def store_rejected_do_def store_rejected_def
      bulk_update_do_def bulk_update_def split: prod.split sum.split)

lemma bulk_rates_task_alone [simp]:
  "run_alone (bulk_rates_task ops be cfg auth index) = bulk_rates ops be cfg auth index"
  by (rule ext, auto simp: bulk_rates_task_def bulk_tier_task_alone bulk_rates_def then_step_def
      bulk_rate_limited_def split: prod.split sum.split)

lemma bulk_build_task_alone [simp]:
  "run_alone (bulk_build_task X ops be cfg auth index raw_msg) = bulk_build X ops be cfg auth index raw_msg"
  by (rule ext, simp add: bulk_build_task_def bulk_build_def bulk_update_do_def bulk_update_def Let_def
      split: sum.split)

lemma phase1_task_alone [simp]:
  "run_alone (phase1_task X ops be cfg auth index raw_msg) = phase1_prepare X ops be cfg auth index raw_msg"
  by (rule ext, simp add: phase1_task_def phase1_prepare_def)

lemma phase1_loop_task_alone [simp]:
  "run_alone (phase1_loop_task X ops be cfg auth index msgs) w = phase1_loop X ops be cfg auth index msgs w"
  by (induction msgs arbitrary: index w) (simp_all split: prod.split sum.split)

lemma bs_world_self: "st\<lparr>bs_world := bs_world st\<rparr> = st"
  by simp

lemma schedule_task_alone:
  "run_schedule ops be cfg permits evs (st\<lparr>bs_world := w\<rparr>) = None \<Longrightarrow>
     fst (run_alone (schedule_task ops be cfg permits evs st) w) = None"
  "run_schedule ops be cfg permits evs (st\<lparr>bs_world := w\<rparr>) = Some st' \<Longrightarrow>
     \<exists>st''. run_alone (schedule_task ops be cfg permits evs st) w = (Some st'', bs_world st')
       \<and> bs_submitted st'' = bs_submitted st' \<and> all_joined st'' = all_joined st'"
proof (induction evs arbitrary: st w)
  case Nil
  {
    case 1
    then show ?case by simp
  next
    case 2
    then show ?case by (auto simp: all_joined_def)
  }
next
  case (Cons ev evs)
  {
    case 1
    then show ?case using Cons.IH(1) [where st = st1 and w = "bs_world st1" for st1, unfolded bs_world_self]
      by (cases "fire ops be cfg permits ev (st\<lparr>bs_world := w\<rparr>)") auto
  next
    case 2
    then show ?case using Cons.IH(2) [where st = st1 and w = "bs_world st1" for st1, unfolded bs_world_self]
      by (cases "fire ops be cfg permits ev (st\<lparr>bs_world := w\<rparr>)") auto
  }
qed

lemma bulk_task_alone:
  "send_bulk X ops be cfg auth bulk_req_id messages schedule w =
     (case run_alone (bulk_task X ops be cfg auth bulk_req_id messages schedule) w of
        (Some r, w') \<Rightarrow> Some (r, w') | (None, w') \<Rightarrow> None)"
proof (cases "messages = [] \<or> length messages > unat (ml_max_bulk_messages (cf_mail cfg))")
  case True
  then show ?thesis by (auto simp: send_bulk_def bulk_task_def)
next
  case False
  obtain rejected prepared w1 where p1: "phase1_loop X ops be cfg auth 0 messages w = ((rejected, prepared), w1)"
    by (metis prod.exhaust)
  let ?st = "\<lparr>bs_waiting = prepared, bs_running = [], bs_submitted = [], bs_world = w1\<rparr>"
  let ?n = "bulk_concurrency cfg (length prepared)"
  have w1: "?st\<lparr>bs_world := w1\<rparr> = ?st" by simp
  show ?thesis
  proof (cases "run_schedule ops be cfg ?n schedule ?st")
    case None
    then have "run_schedule ops be cfg ?n schedule (?st\<lparr>bs_world := w1\<rparr>) = None" using w1 by simp
    from schedule_task_alone(1) [OF this] have "fst (run_alone (schedule_task ops be cfg ?n schedule ?st) w1) = None" .
    with None False p1 show ?thesis by (simp add: send_bulk_def bulk_task_def split_beta)
  next
    case (Some st')
    then have "run_schedule ops be cfg ?n schedule (?st\<lparr>bs_world := w1\<rparr>) = Some st'" using w1 by simp
    from schedule_task_alone(2) [OF this] obtain st'' where
      "run_alone (schedule_task ops be cfg ?n schedule ?st) w1 = (Some st'', bs_world st')"
      "bs_submitted st'' = bs_submitted st'" "all_joined st'' = all_joined st'" by blast
    with Some False p1 show ?thesis by (simp add: send_bulk_def bulk_task_def)
  qed
qed

end
