(* ===== verification/Server.thy ===== *)
theory Server
  imports Send_Task Api App_State
begin

text \<open>
  The running server: the shared state of \<open>lib.rs\<close> with its current configuration, and the
  tasks that work on it: one for each request of \<open>/v1/send\<close>, \<open>/v1/send-bulk\<close>,
  \<open>/v1/submissions\<close> and \<open>/v1/keys/self\<close>, one for each SIGHUP, and one for each round of
  the cleanup loop of \<open>cli/src/main.rs\<close>. A step starts a task, runs one atomic section of
  one task, or drops the task of a request (the timeout layer and a client that goes away
  drop the future of the handler). Any number of tasks is in flight, in any interleaving.
\<close>

subsection \<open>Shared state\<close>

record 's process =
  pr_config :: app_config
  pr_world :: "'s world"

definition on_world :: "('s world, 'r) task \<Rightarrow> ('s process, 'r) task" where
  "on_world t = on_part pr_world (\<lambda>w p. p\<lparr>pr_world := w\<rparr>) t"

text \<open>\<open>state.config()\<close>: a snapshot of the current configuration.\<close>

definition read_config :: "('s process, app_config) task" where
  "read_config = atomically (\<lambda>p. (pr_config p, p))"

subsection \<open>Tasks\<close>

datatype event =
    Http_Send parts send_env
  | Http_Bulk parts bulk_env request_id "mail_request list" "bulk_event list"
  | Http_Status parts clock str str
  | Http_Key_Self parts
  | Sighup "str \<Rightarrow> str + str"
  | Cleanup clock

datatype outcome =
    Refused response
  | Send_Reply "request_error + http_reply"
  | Bulk_Reply "app_error + http_reply"
  | Bulk_Abandoned
  | Reply reply
  | No_Reply
  | Dropped

record server_env =
  sn_externals :: externals
  sn_features :: features
  sn_toml :: "str \<Rightarrow> str + app_config"
  sn_path :: str
  sn_rfc3339 :: "time \<Rightarrow> str"

text \<open>The extractor reads the configuration, and counts a refusal.\<close>

definition auth_task :: "externals \<Rightarrow> parts \<Rightarrow> ('s process, response + auth_context) task" where
  "auth_task X p =
     bind_task read_config (\<lambda>cfg. on_world (atomically (\<lambda>w.
       case authenticate X cfg p (wd_metrics w) of (r, m) \<Rightarrow> (r, w\<lparr>wd_metrics := m\<rparr>))))"

text \<open>A handler runs after the extractor and takes its own snapshot of the configuration.\<close>

definition authenticated ::
  "externals \<Rightarrow> parts \<Rightarrow> (app_config \<Rightarrow> auth_context \<Rightarrow> ('s process, outcome) task) \<Rightarrow>
     ('s process, outcome) task" where
  "authenticated X p handler =
     bind_task (auth_task X p) (\<lambda>r. case r of
       Inl resp \<Rightarrow> Done (Refused resp)
     | Inr auth \<Rightarrow> bind_task read_config (\<lambda>cfg. handler cfg auth))"

definition status_do ::
  "externals \<Rightarrow> 's status_ops \<Rightarrow> (time \<Rightarrow> str) \<Rightarrow> clock \<Rightarrow> str \<Rightarrow> auth_context \<Rightarrow> str \<Rightarrow>
     ('s world, reply) task" where
  "status_do X ops rfc3339 clk lookup_ulid auth raw_id =
     store_do (get_submission_status X ops rfc3339 clk lookup_ulid auth raw_id)"

text \<open>
  A SIGHUP loads the file, merges it into the current configuration, hands the status
  section to the store, and replaces the configuration.
\<close>

definition sighup_task ::
  "server_env \<Rightarrow> 's status_ops \<Rightarrow> (str \<Rightarrow> str + str) \<Rightarrow> ('s process, unit) task" where
  "sighup_task env ops read_file =
     (case load (sn_externals env) (sn_features env) (sn_toml env) read_file (sn_path env) of
        Inl _ \<Rightarrow> Done ()
      | Inr new_cfg \<Rightarrow>
          bind_task read_config (\<lambda>current.
            then_do (on_world (store_do (\<lambda>x.
                ((), so_reload_config ops (cf_status (merge_reloadable current new_cfg)) x))))
              (atomically (\<lambda>p. ((), p\<lparr>pr_config := merge_reloadable current new_cfg\<rparr>)))))"

definition cleanup_task :: "'s status_ops \<Rightarrow> clock \<Rightarrow> ('s process, unit) task" where
  "cleanup_task ops clk = on_world (store_do (\<lambda>x. ((), so_expire_old_records ops clk x)))"

text \<open>\<open>bulk\<close>: whether the route of \<open>/v1/send-bulk\<close> leads to the handler.\<close>

definition event_task ::
  "server_env \<Rightarrow> 's status_ops \<Rightarrow> bool \<Rightarrow> event \<Rightarrow> ('s process, outcome) task" where
  "event_task env ops bulk e =
     (let X = sn_externals env in
      case e of
        Http_Send p ev \<Rightarrow>
          authenticated X p (\<lambda>cfg auth.
            bind_task (on_world (send_task X ops ev cfg auth)) (\<lambda>r. Done (Send_Reply r)))
      | Http_Bulk p be rid messages schedule \<Rightarrow>
          if bulk
          then authenticated X p (\<lambda>cfg auth.
                 bind_task (on_world (bulk_task X ops be cfg auth rid messages schedule)) (\<lambda>r.
                   Done (case r of Some r \<Rightarrow> Bulk_Reply r | None \<Rightarrow> Bulk_Abandoned)))
          else Done (Reply (404, Empty_Body))
      | Http_Status p clk ulid raw_id \<Rightarrow>
          authenticated X p (\<lambda>cfg auth.
            bind_task (on_world (status_do X ops (sn_rfc3339 env) clk ulid auth raw_id))
              (\<lambda>r. Done (Reply r)))
      | Http_Key_Self p \<Rightarrow> authenticated X p (\<lambda>cfg auth. Done (Reply (get_key_self cfg auth)))
      | Sighup read_file \<Rightarrow> then_do (sighup_task env ops read_file) (Done No_Reply)
      | Cleanup clk \<Rightarrow> then_do (cleanup_task ops clk) (Done No_Reply))"

text \<open>The request ids a task generates, for the records it creates.\<close>

fun event_ids :: "event \<Rightarrow> request_id list" where
  "event_ids (Http_Send p ev) = [ev_request_id ev]"
| "event_ids (Http_Bulk p be rid messages schedule) = map (be_ids be) [0..<length messages]"
| "event_ids (Http_Status p clk ulid raw_id) = []"
| "event_ids (Http_Key_Self p) = []"
| "event_ids (Sighup read_file) = []"
| "event_ids (Cleanup clk) = []"

subsection \<open>The server\<close>

text \<open>
  \<open>srv_issued\<close> are the ids generated so far, of earlier runs too: an id that is generated
  is a new one. \<open>srv_configs\<close> are the configurations that have been in force.
\<close>

record 's server =
  srv_process :: "'s process"
  srv_bulk :: bool
  srv_tasks :: "(event \<times> ('s process, outcome) task) list"
  srv_issued :: "request_id list"
  srv_configs :: "app_config list"

datatype label = Arrive event | Run nat | Drop nat

fun server_step :: "server_env \<Rightarrow> 's status_ops \<Rightarrow> label \<Rightarrow> 's server \<Rightarrow> 's server option" where
  "server_step env ops (Arrive e) s =
     (if distinct (event_ids e) \<and> set (event_ids e) \<inter> set (srv_issued s) = {}
      then Some (s\<lparr>srv_tasks := srv_tasks s @ [(e, event_task env ops (srv_bulk s) e)],
                   srv_issued := event_ids e @ srv_issued s\<rparr>)
      else None)"
| "server_step env ops (Run n) s =
     (if n < length (srv_tasks s)
      then (case srv_tasks s ! n of
              (e, Atomic g k) \<Rightarrow>
                Some (s\<lparr>srv_process := g (srv_process s),
                        srv_tasks := (srv_tasks s)[n := (e, k (srv_process s))],
                        srv_configs := List.insert (pr_config (g (srv_process s))) (srv_configs s)\<rparr>)
            | (e, Done r) \<Rightarrow> None)
      else None)"
| "server_step env ops (Drop n) s =
     (if n < length (srv_tasks s)
      then (case srv_tasks s ! n of
              (e, Atomic g k) \<Rightarrow> Some (s\<lparr>srv_tasks := (srv_tasks s)[n := (e, Done Dropped)]\<rparr>)
            | (e, Done r) \<Rightarrow> None)
      else None)"

inductive reaches :: "server_env \<Rightarrow> 's status_ops \<Rightarrow> 's server \<Rightarrow> 's server \<Rightarrow> bool"
  for env ops s where
  here: "reaches env ops s s"
| there: "reaches env ops s s' \<Longrightarrow> server_step env ops l s' = Some s'' \<Longrightarrow> reaches env ops s s''"

text \<open>A server as it starts to serve, over a store with the records of earlier runs.\<close>

definition server_start :: "'s app_state \<Rightarrow> request_id list \<Rightarrow> 's server" where
  "server_start st issued =
     \<lparr>srv_process = \<lparr>pr_config = as_config st,
        pr_world = \<lparr>wd_store = as_store st, wd_limiter = as_limiter st,
                    wd_metrics = as_metrics st, wd_sent = []\<rparr>\<rparr>,
      srv_bulk = ml_allow_bulk_send (cf_mail (as_config st)),
      srv_tasks = [], srv_issued = issued, srv_configs = [as_config st]\<rparr>"

lemma reaches_trans: "reaches env ops s' s'' \<Longrightarrow> reaches env ops s s' \<Longrightarrow> reaches env ops s s''"
  by (induction rule: reaches.induct) (auto intro: reaches.intros)

text \<open>One task can run to its end without interference.\<close>

lemma reaches_alone:
  assumes "n < length (srv_tasks s)" and "srv_tasks s ! n = (e, t)"
  shows "\<exists>s'. reaches env ops s s' \<and> srv_process s' = snd (run_alone t (srv_process s))
    \<and> srv_tasks s' = (srv_tasks s)[n := (e, Done (fst (run_alone t (srv_process s))))]"
  using assms
proof (induction t arbitrary: s)
  case (Done r)
  then have "(srv_tasks s)[n := (e, Done r)] = srv_tasks s" using list_update_id by metis
  then show ?case by (intro exI [of _ s]) (simp add: reaches.here)
next
  case (Atomic g k)
  let ?s = "s\<lparr>srv_process := g (srv_process s), srv_tasks := (srv_tasks s)[n := (e, k (srv_process s))],
    srv_configs := List.insert (pr_config (g (srv_process s))) (srv_configs s)\<rparr>"
  have "server_step env ops (Run n) s = Some ?s" using Atomic.prems by simp
  then have "reaches env ops s ?s" by (rule reaches.there [OF reaches.here])
  moreover obtain s' where "reaches env ops ?s s'"
    "srv_process s' = snd (run_alone (k (srv_process s)) (srv_process ?s))"
    "srv_tasks s' = (srv_tasks ?s)[n := (e, Done (fst (run_alone (k (srv_process s)) (srv_process ?s))))]"
    using Atomic.IH [OF rangeI, of ?s "srv_process s"] Atomic.prems by auto
  ultimately show ?case by (intro exI [of _ s']) (auto intro: reaches_trans)
qed

text \<open>An event that arrives can be served without interference.\<close>

lemma arrives_alone:
  assumes "distinct (event_ids e)" and "set (event_ids e) \<inter> set (srv_issued s) = {}"
  obtains s' where "reaches env ops s s'"
    "srv_process s' = snd (run_alone (event_task env ops (srv_bulk s) e) (srv_process s))"
    "srv_tasks s' = srv_tasks s @ [(e, Done (fst (run_alone (event_task env ops (srv_bulk s) e) (srv_process s))))]"
proof -
  let ?t = "event_task env ops (srv_bulk s) e"
  let ?s = "s\<lparr>srv_tasks := srv_tasks s @ [(e, ?t)], srv_issued := event_ids e @ srv_issued s\<rparr>"
  have "server_step env ops (Arrive e) s = Some ?s" using assms by simp
  then have "reaches env ops s ?s" by (rule reaches.there [OF reaches.here])
  moreover obtain s' where "reaches env ops ?s s'" "srv_process s' = snd (run_alone ?t (srv_process s))"
    "srv_tasks s' = srv_tasks s @ [(e, Done (fst (run_alone ?t (srv_process s))))]"
    using reaches_alone [of "length (srv_tasks s)" ?s e ?t env ops] by auto
  ultimately show thesis by (intro that [of s']) (auto intro: reaches_trans)
qed

subsection \<open>Tasks alone\<close>

lemma on_world_alone [simp]:
  "run_alone (on_world t) p = (case run_alone t (pr_world p) of (r, w) \<Rightarrow> (r, p\<lparr>pr_world := w\<rparr>))"
  unfolding on_world_def by (rule run_alone_on_part) simp_all

lemma read_config_alone [simp]: "run_alone read_config p = (pr_config p, p)"
  by (simp add: read_config_def)

lemma auth_task_alone [simp]:
  "run_alone (auth_task X parts) p =
     (case authenticate X (pr_config p) parts (wd_metrics (pr_world p)) of
        (r, m) \<Rightarrow> (r, p\<lparr>pr_world := (pr_world p)\<lparr>wd_metrics := m\<rparr>\<rparr>))"
  by (simp add: auth_task_def split: prod.split)

text \<open>The SIGHUP task without interference is \<open>on_sighup\<close>.\<close>

lemma sighup_task_alone:
  assumes "p = srv_process (server_start st [])"
  shows "snd (run_alone (sighup_task env ops read_file) p)
    = srv_process (server_start (on_sighup (sn_externals env) (sn_features env) (sn_toml env)
        read_file (sn_path env) ops st) [])"
  using assms
  by (simp add: sighup_task_def on_sighup_def reload_config_def server_start_def with_store_def
      Let_def split: sum.split prod.split)

end
