(* ===== verification/Server_Mail.thy ===== *)
theory Server_Mail
  imports Server Send_Props
begin

text \<open>
  What the server keeps under any interleaving, whatever the store: the sections of the
  configuration that need a restart, and that every message handed to the transport comes
  from an authenticated request and a validation under configurations that were in force.
\<close>

subsection \<open>The configuration\<close>

definition same_fixed :: "app_config \<Rightarrow> app_config \<Rightarrow> bool" where
  "same_fixed a b \<longleftrightarrow>
     cf_server a = cf_server b \<and> cf_smtp a = cf_smtp b \<and> cf_rate_limit a = cf_rate_limit b
     \<and> sc_enabled (cf_status a) = sc_enabled (cf_status b) \<and> sc_store (cf_status a) = sc_store (cf_status b)
     \<and> sc_db_path (cf_status a) = sc_db_path (cf_status b)
     \<and> sc_redis_url (cf_status a) = sc_redis_url (cf_status b)"

lemma same_fixed_merge: "same_fixed a b \<Longrightarrow> same_fixed (merge_reloadable a new) b"
  by (simp add: same_fixed_def merge_reloadable_def)

text \<open>
  What a reload keeps holds of every configuration: \<open>V\<close> is kept by the merge with any
  file that loads.
\<close>

definition reload_closed :: "server_env \<Rightarrow> (app_config \<Rightarrow> bool) \<Rightarrow> bool" where
  "reload_closed env V \<longleftrightarrow>
     (\<forall>cur new read_file. V cur
        \<longrightarrow> load (sn_externals env) (sn_features env) (sn_toml env) read_file (sn_path env) = Inr new
        \<longrightarrow> V (merge_reloadable cur new))"

lemma reload_closedD:
  "reload_closed env V \<Longrightarrow> V cur \<Longrightarrow>
     load (sn_externals env) (sn_features env) (sn_toml env) read_file (sn_path env) = Inr new \<Longrightarrow>
     V (merge_reloadable cur new)"
  unfolding reload_closed_def by blast

lemma reload_closed_fixed: "reload_closed env (\<lambda>cfg. same_fixed cfg c)"
  by (simp add: reload_closed_def same_fixed_merge)

abbreviation keeps_config :: "(app_config \<Rightarrow> bool) \<Rightarrow> ('r \<Rightarrow> bool) \<Rightarrow> ('s process, 'r) task \<Rightarrow> bool" where
  "keeps_config V P t \<equiv>
     sections (\<lambda>p. V (pr_config p)) (\<lambda>_ p p' _. V (pr_config p')) (\<lambda>r _. P r) t ()"

lemma keeps_config_on_world: "keeps_config V (\<lambda>_. True) (on_world t)"
proof -
  have "sections (\<lambda>_. True) (\<lambda>_ _ _ _. True) (\<lambda>_ _. True) t c'" for c' :: unit
    by (induction t) auto
  then show ?thesis
    unfolding on_world_def by (rule sections_on_part [rotated 2]) auto
qed

lemma keeps_config_bind:
  "keeps_config V P t \<Longrightarrow> (\<And>a. P a \<Longrightarrow> keeps_config V Q (h a)) \<Longrightarrow> keeps_config V Q (bind_task t h)"
  by (rule sections_bind [where P = "\<lambda>r _. P r"]) auto

lemma keeps_config_read: "keeps_config V V read_config"
  unfolding read_config_def by (rule sections_atomically) simp

lemma keeps_config_authenticated:
  "(\<And>cfg auth. keeps_config V (\<lambda>_. True) (h cfg auth)) \<Longrightarrow> keeps_config V (\<lambda>_. True) (authenticated X p h)"
  unfolding authenticated_def auth_task_def
  by (rule keeps_config_bind [where P = "\<lambda>_. True"])
     (auto intro!: keeps_config_bind [OF keeps_config_read] keeps_config_on_world split: sum.split)

lemma keeps_config_set:
  "V cfg \<Longrightarrow> keeps_config V (\<lambda>_. True) (atomically (\<lambda>p. ((), p\<lparr>pr_config := cfg\<rparr>)))"
  by (rule sections_atomically) simp

lemma keeps_config_sighup:
  assumes "reload_closed env V"
  shows "keeps_config V (\<lambda>_. True) (sighup_task env ops read_file)"
proof (cases "load (sn_externals env) (sn_features env) (sn_toml env) read_file (sn_path env)")
  case (Inl e)
  then show ?thesis by (simp add: sighup_task_def)
next
  case (Inr new)
  show ?thesis
    unfolding sighup_task_def Inr sum.case then_do_def
    by (intro keeps_config_bind [OF keeps_config_read] keeps_config_bind [OF keeps_config_on_world]
        keeps_config_set reload_closedD [OF assms _ Inr])
qed

lemma keeps_config_event:
  assumes "reload_closed env V"
  shows "keeps_config V (\<lambda>_. True) (event_task env ops bulk e)"
proof -
  note bind = keeps_config_bind [OF keeps_config_on_world]
  show ?thesis
    by (cases e)
       (auto simp: event_task_def Let_def then_do_def cleanup_task_def
         intro!: keeps_config_authenticated bind keeps_config_bind [OF keeps_config_sighup [OF assms]])
qed

subsection \<open>Steps of the server\<close>

text \<open>
  An invariant of the process and a property of the tasks that the sections keep hold in
  every reachable state.
\<close>

lemma server_step_cases:
  assumes "server_step env ops l s = Some s'"
  obtains (arrive) e where "l = Arrive e" "distinct (event_ids e)"
      "set (event_ids e) \<inter> set (srv_issued s) = {}"
      "s' = s\<lparr>srv_tasks := srv_tasks s @ [(e, event_task env ops (srv_bulk s) e)],
              srv_issued := event_ids e @ srv_issued s\<rparr>"
    | (run) n e g k where "l = Run n" "n < length (srv_tasks s)" "srv_tasks s ! n = (e, Atomic g k)"
      "s' = s\<lparr>srv_process := g (srv_process s),
              srv_tasks := (srv_tasks s)[n := (e, k (srv_process s))],
              srv_configs := List.insert (pr_config (g (srv_process s))) (srv_configs s)\<rparr>"
    | (drop) n e g k where "l = Drop n" "n < length (srv_tasks s)" "srv_tasks s ! n = (e, Atomic g k)"
      "s' = s\<lparr>srv_tasks := (srv_tasks s)[n := (e, Done Dropped)]\<rparr>"
  using assms by (cases l) (auto split: if_splits prod.splits task.splits)

lemma in_set_updateD: "x \<in> set (xs[n := y]) \<Longrightarrow> x = y \<or> x \<in> set xs"
  using set_update_subset_insert by fastforce

text \<open>The events of a run are kept: a task that ends or is dropped keeps its event.\<close>

lemma step_events:
  "server_step env ops l s = Some s' \<Longrightarrow>
     fst ` set (srv_tasks s') = fst ` set (srv_tasks s) \<union> (case l of Arrive e \<Rightarrow> {e} | _ \<Rightarrow> {})"
proof (erule server_step_cases)
  fix n e g k and u :: "('a process, outcome) task"
  assume n: "n < length (srv_tasks s)" "srv_tasks s ! n = (e, Atomic g k)"
  have upd: "fst ` set ((srv_tasks s)[n := (e, u)]) = fst ` set (srv_tasks s)" for u
  proof -
    have "map fst ((srv_tasks s)[n := (e, u)]) = map fst (srv_tasks s)"
      using n by (metis fst_conv list_update_id map_update nth_map)
    then show ?thesis by (metis list.set_map)
  qed
  {
    assume "l = Run n" "s' = s\<lparr>srv_process := g (srv_process s),
      srv_tasks := (srv_tasks s)[n := (e, k (srv_process s))],
      srv_configs := List.insert (pr_config (g (srv_process s))) (srv_configs s)\<rparr>"
    then show ?thesis using upd by simp
  next
    assume "l = Drop n" "s' = s\<lparr>srv_tasks := (srv_tasks s)[n := (e, Done Dropped)]\<rparr>"
    then show ?thesis using upd by simp
  }
qed auto

lemma reaches_events: "reaches env ops s s' \<Longrightarrow> fst ` set (srv_tasks s) \<subseteq> fst ` set (srv_tasks s')"
proof (induction rule: reaches.induct)
  case (there s' l s'')
  then show ?case using step_events [OF there.hyps(2)] by auto
qed simp

text \<open>The configurations of a run are kept as well.\<close>

lemma server_step_configs:
  "server_step env ops l s = Some s' \<Longrightarrow> set (srv_configs s) \<subseteq> set (srv_configs s')"
  by (erule server_step_cases) auto

lemma reaches_configs: "reaches env ops s s' \<Longrightarrow> set (srv_configs s) \<subseteq> set (srv_configs s')"
proof (induction rule: reaches.induct)
  case (there s' l s'')
  then show ?case using server_step_configs [OF there.hyps(2)] by blast
qed simp

lemma reaches_config_in:
  "reaches env ops s s' \<Longrightarrow> pr_config (srv_process s) \<in> set (srv_configs s) \<Longrightarrow>
     pr_config (srv_process s') \<in> set (srv_configs s')"
proof (induction rule: reaches.induct)
  case (there s' l s'')
  from there.hyps(2) show ?case by (cases rule: server_step_cases) (use there.IH there.prems in simp_all)
qed simp

lemma server_config_invariant:
  assumes "reaches env ops s0 s" and "srv_tasks s0 = []" and "srv_configs s0 = [pr_config (srv_process s0)]"
    and closed: "reload_closed env V" and "V (pr_config (srv_process s0))"
  shows "V (pr_config (srv_process s)) \<and> (\<forall>c \<in> set (srv_configs s). V c)
    \<and> (\<forall>et \<in> set (srv_tasks s). keeps_config V (\<lambda>_. True) (snd et))"
  using assms(1)
proof (induction rule: reaches.induct)
  case here
  then show ?case using assms(2,3,5) by simp
next
  case (there s' l s'')
  note now = conjunct1 [OF there.IH] and past = bspec [OF conjunct1 [OF conjunct2 [OF there.IH]]]
    and tasks = bspec [OF conjunct2 [OF conjunct2 [OF there.IH]]]
  from there.hyps(2) show ?case
  proof (cases rule: server_step_cases)
    case (arrive e)
    have "keeps_config V (\<lambda>_. True) (event_task env ops (srv_bulk s') e)"
      by (rule keeps_config_event [OF closed])
    then show ?thesis using now past tasks by (simp add: arrive(4) ball_Un)
  next
    case (run n e g k)
    have "(e, Atomic g k) \<in> set (srv_tasks s')" using run(2,3) by (metis nth_mem)
    from tasks [OF this] now have new: "V (pr_config (g (srv_process s')))"
      "keeps_config V (\<lambda>_. True) (k (srv_process s'))" by simp_all
    have "keeps_config V (\<lambda>_. True) (snd et)"
      if "et \<in> set ((srv_tasks s')[n := (e, k (srv_process s'))])" for et
      using in_set_updateD [OF that] new(2) tasks [of et] by (elim disjE) simp_all
    with new(1) past show ?thesis by (simp add: run(4))
  next
    case (drop n e g k)
    have "keeps_config V (\<lambda>_. True) (snd et)"
      if "et \<in> set ((srv_tasks s')[n := (e, Done Dropped)])" for et
      using in_set_updateD [OF that] tasks [of et] by (elim disjE) simp_all
    with now past show ?thesis by (simp add: drop(4))
  qed
qed

lemma server_config_fixed:
  assumes "reaches env ops s0 s" and "srv_tasks s0 = []" and "srv_configs s0 = [pr_config (srv_process s0)]"
  shows "same_fixed (pr_config (srv_process s)) (pr_config (srv_process s0))"
  by (rule conjunct1 [OF server_config_invariant [OF assms reload_closed_fixed]]) (simp add: same_fixed_def)

lemma server_bulk_fixed: "reaches env ops s0 s \<Longrightarrow> srv_bulk s = srv_bulk s0"
proof (induction rule: reaches.induct)
  case (there s' l s'')
  have "srv_bulk s'' = srv_bulk s'" using there.hyps(2) by (cases rule: server_step_cases) simp_all
  with there.IH show ?case by simp
qed simp

subsection \<open>The origin of a message\<close>

text \<open>
  What an event carries of a message: the head of the request, a mail request of its body,
  and the answer of the mail library to its messages.
\<close>

fun carries :: "event \<Rightarrow> parts \<Rightarrow> mail_request \<Rightarrow> (message \<Rightarrow> bool) \<Rightarrow> bool" where
  "carries (Http_Send p ev) p' payload finish \<longleftrightarrow>
     p' = p \<and> ev_json ev = Some payload \<and> finish = ev_finish ev"
| "carries (Http_Bulk p be rid messages schedule) p' payload finish \<longleftrightarrow>
     p' = p \<and> payload \<in> set messages \<and> finish = be_finish be"
| "carries e p' payload finish \<longleftrightarrow> False"

text \<open>
  A message is \<open>authorised\<close> by an event and by configurations in \<open>H\<close> when the head of the
  event's own request authenticates under one of them and a mail request of its body, which
  validates for that key under one of them, builds it.
\<close>

definition authorised :: "externals \<Rightarrow> event \<Rightarrow> app_config set \<Rightarrow> message \<Rightarrow> bool" where
  "authorised X e H msg \<longleftrightarrow>
     (\<exists>c1\<in>H. \<exists>c2\<in>H. \<exists>p m auth payload v finish.
        carries e p payload finish
        \<and> fst (authenticate X c1 p m) = Inr auth
        \<and> validate_mail_request X payload c2 auth = Inr v
        \<and> build_message X finish v c2 = Inr msg)"

lemma authorised_mono: "authorised X e H msg \<Longrightarrow> H \<subseteq> H' \<Longrightarrow> authorised X e H' msg"
  unfolding authorised_def by blast

definition sends_authorised ::
  "externals \<Rightarrow> event \<Rightarrow> app_config set \<Rightarrow> 's world \<Rightarrow> 's world \<Rightarrow> app_config set \<Rightarrow> bool" where
  "sends_authorised X e H w w' H' \<longleftrightarrow>
     H' = H \<and> (wd_sent w' = wd_sent w \<or> (\<exists>msg. wd_sent w' = msg # wd_sent w \<and> authorised X e H msg))"

definition mail_task :: "externals \<Rightarrow> event \<Rightarrow> app_config set \<Rightarrow> ('r \<Rightarrow> bool) \<Rightarrow> ('s world, 'r) task \<Rightarrow> bool" where
  "mail_task X e H P t \<longleftrightarrow> sections (\<lambda>_. True) (sends_authorised X e) (\<lambda>r H'. H' = H \<and> P r) t H"

lemma mail_task_Done [simp]: "mail_task X e H P (Done r) = P r"
  by (simp add: mail_task_def)

lemma mail_task_Atomic:
  "mail_task X e H P (Atomic g k) \<longleftrightarrow> (\<forall>w. sends_authorised X e H w (g w) H \<and> mail_task X e H P (k w))"
  by (auto simp: mail_task_def sends_authorised_def)

lemma mail_task_bind:
  "mail_task X e H P t \<Longrightarrow> (\<And>a. P a \<Longrightarrow> mail_task X e H Q (h a)) \<Longrightarrow> mail_task X e H Q (bind_task t h)"
  unfolding mail_task_def by (rule sections_bind [where P = "\<lambda>r H'. H' = H \<and> P r"]) auto

lemma mail_task_then:
  "mail_task X e H (\<lambda>_. True) t \<Longrightarrow> mail_task X e H Q u \<Longrightarrow> mail_task X e H Q (then_do t u)"
  unfolding then_do_def by (rule mail_task_bind)

lemma mail_task_try:
  "mail_task X e H P t \<Longrightarrow> (\<And>a. P (Inr a) \<Longrightarrow> mail_task X e H Q (h a)) \<Longrightarrow> (\<And>e. Q (Inl e)) \<Longrightarrow>
     mail_task X e H Q (try_task t h)"
  unfolding try_task_def by (rule mail_task_bind [where P = P]) (auto split: sum.split)

lemma mail_task_sections [simp]:
  "mail_task X e H (\<lambda>_. True) (store_do f)"
  "mail_task X e H (\<lambda>_. True) (metrics_do g)"
  "mail_task X e H (\<lambda>_. True) (limiter_do h)"
  by (auto simp: store_do_def metrics_do_def limiter_do_def atomically_def mail_task_Atomic
      sends_authorised_def split: prod.split)

lemma mail_task_transmit: "authorised X e H msg \<Longrightarrow> mail_task X e H (\<lambda>_. True) (transmit msg)"
  by (auto simp: transmit_def atomically_def mail_task_Atomic sends_authorised_def)

text \<open>The snapshot \<open>cfg\<close> lets the context \<open>auth\<close>, which the head \<open>p\<close> got, send under \<open>H\<close>.\<close>

definition may_send :: "externals \<Rightarrow> parts \<Rightarrow> app_config set \<Rightarrow> app_config \<Rightarrow> auth_context \<Rightarrow> bool" where
  "may_send X p H cfg auth \<longleftrightarrow> cfg \<in> H \<and> (\<exists>c1\<in>H. \<exists>m. fst (authenticate X c1 p m) = Inr auth)"

lemma may_send_authorised:
  "may_send X p H cfg auth \<Longrightarrow> carries e p payload finish \<Longrightarrow> validate_mail_request X payload cfg auth = Inr v \<Longrightarrow>
     build_message X finish v cfg = Inr msg \<Longrightarrow> authorised X e H msg"
  unfolding may_send_def authorised_def by blast

lemma mail_send_task:
  assumes "may_send X p H cfg auth"
  shows "mail_task X (Http_Send p ev) H (\<lambda>_. True) (send_task X ops ev cfg auth)"
proof -
  let ?e = "Http_Send p ev"
  have pay: "mail_task X ?e H (\<lambda>r. \<forall>payload. r = Inr payload \<longrightarrow> ev_json ev = Some payload) (payload_task ops ev cfg auth)"
    unfolding payload_task_def Let_def reject_do_def
    by (auto intro!: mail_task_then split: option.split)
  have tier: "mail_task X ?e H (\<lambda>_. True) (tier_task ops ev auth tier check)" for tier check
    unfolding tier_task_def reject_do_def
    by (rule mail_task_bind [where P = "\<lambda>_. True"]) (auto intro!: mail_task_then split: sum.split)
  have rates: "mail_task X ?e H (\<lambda>_. True) (rates_task ops ev auth)"
    unfolding rates_task_def by (rule mail_task_try [OF tier mail_task_try [OF tier tier]]) simp_all
  have build: "mail_task X ?e H (\<lambda>r. \<forall>msg. r = Inr msg \<longrightarrow> authorised X ?e H msg) (build_task X ops ev cfg auth payload)" if "ev_json ev = Some payload" for payload
    unfolding build_task_def reject_do_def
    by (auto intro!: mail_task_then may_send_authorised [OF assms, of ?e payload "ev_finish ev"] simp: that split: sum.split)
  have submit: "mail_task X ?e H (\<lambda>_. True) (submit_task ops ev auth msg)" if "authorised X ?e H msg" for msg
    unfolding submit_task_def
    by (auto intro!: mail_task_then mail_task_transmit that split: sum.split)
  have steps: "mail_task X ?e H (\<lambda>_. True) (try_task (payload_task ops ev cfg auth) (\<lambda>payload.
      try_task (rates_task ops ev auth) (\<lambda>_.
      try_task (build_task X ops ev cfg auth payload) (\<lambda>message. submit_task ops ev auth message))))"
    by (rule mail_task_try [OF pay mail_task_try [OF rates mail_task_try [OF build]]])
       (auto intro!: submit)
  show ?thesis
    unfolding send_task_def
    by (intro mail_task_then mail_task_bind [OF steps]) simp_all
qed

lemma fire_sent:
  assumes "fire ops be cfg permits ev st = Some st'"
  shows "wd_sent (bs_world st') = wd_sent (bs_world st)
    \<or> (\<exists>p \<in> set (bs_waiting st). wd_sent (bs_world st') = pm_message p # wd_sent (bs_world st))"
    and "set (bs_waiting st') \<subseteq> set (bs_waiting st)"
proof -
  have upd: "wd_sent (bulk_update ops clk rid key status code msg w) = wd_sent w"
    for clk rid key status code msg w by (simp add: bulk_update_def)
  then have "wd_sent (phase2_begin ops be p w) = pm_message p # wd_sent w"
    "wd_sent (phase2_end ops be cfg p w) = wd_sent w" for p w
    by (simp_all add: phase2_begin_def phase2_end_def Let_def split: sum.split)
  then show "wd_sent (bs_world st') = wd_sent (bs_world st)
    \<or> (\<exists>p \<in> set (bs_waiting st). wd_sent (bs_world st') = pm_message p # wd_sent (bs_world st))"
    using assms find_SomeD by (fastforce simp: fire_def split: bulk_event.splits option.splits if_splits)
  show "set (bs_waiting st') \<subseteq> set (bs_waiting st)"
    using assms set_remove1_subset by (fastforce simp: fire_def split: bulk_event.splits option.splits if_splits)
qed

lemma mail_schedule_task:
  assumes "\<forall>p \<in> set (bs_waiting st). authorised X e H (pm_message p)"
  shows "mail_task X e H (\<lambda>_. True) (schedule_task ops be cfg permits evs st)"
  using assms
proof (induction evs arbitrary: st)
  case Nil
  then show ?case by simp
next
  case (Cons ev evs)
  show ?case
  proof (simp add: mail_task_Atomic, intro allI)
    fix w
    show "sends_authorised X e H w (case fire ops be cfg permits ev (st\<lparr>bs_world := w\<rparr>) of
              None \<Rightarrow> w | Some st' \<Rightarrow> bs_world st') H
        \<and> mail_task X e H (\<lambda>_. True) (case fire ops be cfg permits ev (st\<lparr>bs_world := w\<rparr>) of
              None \<Rightarrow> Done None | Some st' \<Rightarrow> schedule_task ops be cfg permits evs st')"
    proof (cases "fire ops be cfg permits ev (st\<lparr>bs_world := w\<rparr>)")
      case None
      then show ?thesis by (simp add: sends_authorised_def)
    next
      case (Some st')
      have "\<forall>p \<in> set (bs_waiting st'). authorised X e H (pm_message p)"
        using fire_sent(2) [OF Some] Cons.prems by auto
      with fire_sent(1) [OF Some] Cons.prems Cons.IH [of st'] Some show ?thesis
        by (auto simp: sends_authorised_def)
    qed
  qed
qed

lemma mail_bulk_task:
  assumes "may_send X p H cfg auth"
  shows "mail_task X (Http_Bulk p be rid messages schedule) H (\<lambda>_. True) (bulk_task X ops be cfg auth rid messages schedule)"
proof -
  let ?e = "Http_Bulk p be rid messages schedule"
  have tier: "mail_task X ?e H (\<lambda>_. True) (bulk_tier_task ops be cfg auth i tier msg check)" for i tier msg check
    unfolding bulk_tier_task_def store_rejected_do_def bulk_update_do_def
    by (rule mail_task_bind [where P = "\<lambda>_. True"]) (auto intro!: mail_task_then split: sum.split)
  have rates: "mail_task X ?e H (\<lambda>_. True) (bulk_rates_task ops be cfg auth i)" for i
    unfolding bulk_rates_task_def by (rule mail_task_try [OF tier mail_task_try [OF tier tier]]) simp_all
  have build: "mail_task X ?e H (\<lambda>r. \<forall>p. r = Inr p \<longrightarrow> authorised X ?e H (pm_message p))
      (bulk_build_task X ops be cfg auth i raw)" if "raw \<in> set messages" for i raw
    unfolding bulk_build_task_def bulk_update_do_def Let_def
    by (auto intro!: mail_task_then may_send_authorised [OF assms, of ?e raw "be_finish be"] simp: that split: sum.split)
  have one: "mail_task X ?e H (\<lambda>r. \<forall>p. r = Inr p \<longrightarrow> authorised X ?e H (pm_message p))
      (phase1_task X ops be cfg auth i raw)" if "raw \<in> set messages" for i raw
    unfolding phase1_task_def by (rule mail_task_try [OF rates mail_task_then [OF _ build [OF that]]]) simp_all
  have loop: "mail_task X ?e H (\<lambda>(rej, prep). \<forall>p \<in> set prep. authorised X ?e H (pm_message p))
      (phase1_loop_task X ops be cfg auth i msgs)" if "set msgs \<subseteq> set messages" for i msgs
    using that
  proof (induction msgs arbitrary: i)
    case Nil
    then show ?case by simp
  next
    case (Cons raw msgs)
    show ?case
      by (simp, intro mail_task_bind [OF one] mail_task_bind [OF Cons.IH])
         (use Cons.prems in \<open>auto split: sum.split\<close>)
  qed
  show ?thesis
    unfolding bulk_task_def
    by (auto intro!: mail_task_bind [OF loop [OF subset_refl]] mail_task_bind [where t = "atomically f" and P = "\<lambda>_. True" for f]
        mail_task_bind [OF mail_schedule_task] mail_task_then
        simp: atomically_def mail_task_Atomic sends_authorised_def split: option.split)
qed

subsection \<open>The origin of the messages of the server\<close>

text \<open>On the process the ghost state collects the configurations a task has read.\<close>

definition process_sends ::
  "externals \<Rightarrow> event \<Rightarrow> app_config set \<Rightarrow> 's process \<Rightarrow> 's process \<Rightarrow> app_config set \<Rightarrow> bool" where
  "process_sends X e H p p' H' \<longleftrightarrow>
     H \<subseteq> H' \<and> H' \<subseteq> insert (pr_config p) H
     \<and> (wd_sent (pr_world p') = wd_sent (pr_world p)
        \<or> (\<exists>msg. wd_sent (pr_world p') = msg # wd_sent (pr_world p) \<and> authorised X e H' msg))"

abbreviation process_mail ::
  "externals \<Rightarrow> event \<Rightarrow> ('r \<Rightarrow> app_config set \<Rightarrow> bool) \<Rightarrow> ('s process, 'r) task \<Rightarrow> app_config set \<Rightarrow> bool" where
  "process_mail X e P t H \<equiv> sections (\<lambda>_. True) (process_sends X e) P t H"

lemma process_mail_on_world:
  "mail_task X e H (\<lambda>_. True) t \<Longrightarrow> process_mail X e (\<lambda>_ H'. H' = H) (on_world t) H"
  unfolding on_world_def mail_task_def
  by (rule sections_on_part [where I = "\<lambda>_. True" and G = "sends_authorised X e"])
     (auto simp: sends_authorised_def process_sends_def)

lemma process_mail_read: "process_mail X e (\<lambda>cfg H'. H' = insert cfg H) read_config H"
  unfolding read_config_def by (rule sections_atomically) (auto simp: process_sends_def)

lemma process_mail_set_config:
  "process_mail X e (\<lambda>_ _. True) (atomically (\<lambda>p. ((), p\<lparr>pr_config := c\<rparr>))) H"
  by (rule sections_atomically) (auto simp: process_sends_def)

lemma process_mail_auth:
  "process_mail X e (\<lambda>r H'. \<forall>auth. r = Inr auth \<longrightarrow> (\<exists>c1\<in>H'. \<exists>m. fst (authenticate X c1 parts m) = Inr auth))
     (auth_task X parts) H"
  unfolding auth_task_def
proof (rule sections_bind [OF process_mail_read])
  fix cfg and H' :: "app_config set"
  assume H': "H' = insert cfg H"
  show "process_mail X e (\<lambda>r H'. \<forall>auth. r = Inr auth \<longrightarrow> (\<exists>c1\<in>H'. \<exists>m. fst (authenticate X c1 parts m) = Inr auth))
     (on_world (atomically (\<lambda>w. case authenticate X cfg parts (wd_metrics w) of (r, m) \<Rightarrow> (r, w\<lparr>wd_metrics := m\<rparr>)))) H'"
    unfolding on_world_def atomically_def
    by (auto simp: process_sends_def H' split: prod.split intro!: exI [of _ H'])
       (metis fst_conv)
qed

lemma process_mail_authenticated:
  assumes "\<And>cfg auth H. may_send X parts H cfg auth \<Longrightarrow> process_mail X e (\<lambda>_ _. True) (h cfg auth) H"
  shows "process_mail X e (\<lambda>_ _. True) (authenticated X parts h) H"
  unfolding authenticated_def
proof (rule sections_bind [OF process_mail_auth])
  fix r :: "response + auth_context" and H :: "app_config set"
  assume r: "\<forall>auth. r = Inr auth \<longrightarrow> (\<exists>c1\<in>H. \<exists>m. fst (authenticate X c1 parts m) = Inr auth)"
  show "process_mail X e (\<lambda>_ _. True) (case r of Inl resp \<Rightarrow> Done (Refused resp)
      | Inr auth \<Rightarrow> bind_task read_config (\<lambda>cfg. h cfg auth)) H"
  proof (cases r)
    case (Inr auth)
    with r have "may_send X parts (insert cfg H) cfg auth" for cfg by (auto simp: may_send_def)
    then show ?thesis using Inr by (auto intro!: sections_bind [OF process_mail_read] assms)
  qed simp
qed

lemma mail_task_trivial: "mail_task X e H (\<lambda>_. True) (status_do X ops fmt clk ulid auth raw)"
  unfolding status_do_def by simp

lemma process_mail_event:
  "process_mail (sn_externals env) e (\<lambda>_ _. True) (event_task env ops bulk e) H"
proof -
  let ?X = "sn_externals env"
  have lift: "process_mail ?X e (\<lambda>_ _. True) (bind_task (on_world t) (\<lambda>r. Done (f r))) H"
    if "mail_task ?X e H (\<lambda>_. True) t" for e t H and f :: "_ \<Rightarrow> outcome"
    by (rule sections_bind [OF process_mail_on_world [OF that]]) simp
  have sighup: "process_mail ?X e (\<lambda>_ _. True) (sighup_task env ops read_file) H" for e read_file
    unfolding sighup_task_def then_do_def
    by (auto intro!: sections_bind [OF process_mail_read] sections_bind [OF process_mail_on_world]
        process_mail_set_config split: sum.split)
  have cleanup: "process_mail ?X e (\<lambda>_ _. True) (cleanup_task ops clk) H" for e clk
    unfolding cleanup_task_def by (rule sections_mono [OF process_mail_on_world]) simp_all
  show ?thesis
  proof (cases e)
    case (Http_Send p ev)
    then show ?thesis
      by (simp add: event_task_def Let_def) (intro process_mail_authenticated lift mail_send_task)
  next
    case (Http_Bulk p be rid messages schedule)
    have "process_mail ?X (Http_Bulk p be rid messages schedule) (\<lambda>_ _. True) (authenticated ?X p (\<lambda>cfg auth.
        bind_task (on_world (bulk_task ?X ops be cfg auth rid messages schedule)) (\<lambda>r.
          Done (case r of Some r \<Rightarrow> Bulk_Reply r | None \<Rightarrow> Bulk_Abandoned)))) H"
      by (intro process_mail_authenticated lift mail_bulk_task)
    then show ?thesis unfolding Http_Bulk by (simp add: event_task_def Let_def)
  next
    case (Http_Status p clk ulid raw)
    then show ?thesis
      by (simp add: event_task_def Let_def) (intro process_mail_authenticated lift mail_task_trivial)
  next
    case (Http_Key_Self p)
    then show ?thesis
      by (simp add: event_task_def Let_def) (intro process_mail_authenticated, simp)
  next
    case (Sighup read_file)
    then show ?thesis
      by (simp add: event_task_def Let_def then_do_def) (rule sections_bind [OF sighup], simp)
  next
    case (Cleanup clk)
    then show ?thesis
      by (simp add: event_task_def Let_def then_do_def) (rule sections_bind [OF cleanup], simp)
  qed
qed

lemma server_mail_authorised:
  assumes "reaches env ops s0 s" and "srv_tasks s0 = []" and "wd_sent (pr_world (srv_process s0)) = []"
    and "srv_configs s0 = [pr_config (srv_process s0)]"
  shows "pr_config (srv_process s) \<in> set (srv_configs s)
    \<and> (\<forall>msg \<in> set (wd_sent (pr_world (srv_process s))). \<exists>e \<in> fst ` set (srv_tasks s).
         authorised (sn_externals env) e (set (srv_configs s)) msg)
    \<and> (\<forall>(e, t) \<in> set (srv_tasks s). \<exists>H \<subseteq> set (srv_configs s). process_mail (sn_externals env) e (\<lambda>_ _. True) t H)"
  using assms(1)
proof (induction rule: reaches.induct)
  case here
  then show ?case using assms(2-4) by simp
next
  case (there s' l s'')
  let ?X = "sn_externals env" and ?C = "set (srv_configs s')" and ?C' = "set (srv_configs s'')"
  have grow: "fst ` set (srv_tasks s') \<subseteq> fst ` set (srv_tasks s'')" "?C \<subseteq> ?C'"
    using step_events [OF there.hyps(2)] server_step_configs [OF there.hyps(2)] by auto
  note sent = bspec [OF conjunct1 [OF conjunct2 [OF there.IH]]]
    and tasks = bspec [OF conjunct2 [OF conjunct2 [OF there.IH]]]
  have old: "\<exists>e \<in> fst ` set (srv_tasks s''). authorised ?X e ?C' msg"
    if "msg \<in> set (wd_sent (pr_world (srv_process s')))" for msg
    using sent [OF that] grow(1) authorised_mono [OF _ grow(2)] by (meson subsetD)
  have task: "\<exists>H \<subseteq> ?C'. process_mail ?X e (\<lambda>_ _. True) t H" if "(e, t) \<in> set (srv_tasks s')" for e t
    using tasks [OF that] grow(2) by auto
  from there.hyps(2) show ?case
  proof (cases rule: server_step_cases)
    case (arrive e)
    have "process_mail ?X e (\<lambda>_ _. True) (event_task env ops (srv_bulk s') e) {}" by (rule process_mail_event)
    then show ?thesis using conjunct1 [OF there.IH] old task unfolding arrive(4) by auto
  next
    case (run n e g k)
    let ?p = "srv_process s'"
    have e: "(e, Atomic g k) \<in> set (srv_tasks s')" using run by (metis nth_mem)
    from tasks [OF this] obtain H where "H \<subseteq> ?C" "process_mail ?X e (\<lambda>_ _. True) (Atomic g k) H"
      by auto
    then obtain H' where H: "H \<subseteq> ?C" "process_sends ?X e H ?p (g ?p) H'"
      "process_mail ?X e (\<lambda>_ _. True) (k ?p) H'" by auto
    have H': "H' \<subseteq> ?C'" using H(1,2) conjunct1 [OF there.IH] grow(2) by (auto simp: process_sends_def)
    have e': "e \<in> fst ` set (srv_tasks s'')" using e grow(1) by force
    have "\<exists>e \<in> fst ` set (srv_tasks s''). authorised ?X e ?C' msg"
      if "msg \<in> set (wd_sent (pr_world (g ?p)))" for msg
    proof (cases "msg \<in> set (wd_sent (pr_world ?p))")
      case True
      then show ?thesis by (rule old)
    next
      case False
      with that H(2) have "authorised ?X e H' msg" by (auto simp: process_sends_def)
      with e' show ?thesis using authorised_mono [OF _ H'] by blast
    qed
    moreover have "\<exists>H \<subseteq> ?C'. process_mail ?X e' (\<lambda>_ _. True) t H"
      if "(e', t) \<in> set (srv_tasks s'')" for e' t
    proof -
      from that have "e' = e \<and> t = k ?p \<or> (e', t) \<in> set (srv_tasks s')"
        using in_set_updateD [of "(e', t)"] by (fastforce simp: run)
      then show ?thesis using task [of e' t] H(3) H' by (elim disjE) auto
    qed
    ultimately show ?thesis unfolding run(4) by auto
  next
    case (drop n e g k)
    have "\<exists>H \<subseteq> ?C'. process_mail ?X e' (\<lambda>_ _. True) t H" if "(e', t) \<in> set (srv_tasks s'')" for e' t
    proof -
      from that have "t = Done Dropped \<or> (e', t) \<in> set (srv_tasks s')"
        using in_set_updateD [of "(e', t)"] by (fastforce simp: drop)
      then show ?thesis using task by (elim disjE) (auto intro: exI [of _ "{}"])
    qed
    with conjunct1 [OF there.IH] old show ?thesis unfolding drop(4) by auto
  qed
qed

end
