(* ===== verification/Server_Store.thy ===== *)
theory Server_Store
  imports Server_Mail
begin

text \<open>
  The status store under the tasks of the server, for any backend with the contract of
  \<open>Status_Contract\<close>: each section makes at most one call, a task creates records only for
  the ids it generated, each of them once, and writes only to them. So a record of one
  request is never changed by another task, a terminal status is final under any
  interleaving, and the record of a finished request matches its answer or is gone.
\<close>

context status_store
begin

subsection \<open>The calls of a task\<close>

text \<open>
  The ghost state are the ids that a task has generated and not yet used to create a
  record; \<open>W\<close> are all its ids.
\<close>

definition store_step ::
  "request_id set \<Rightarrow> request_id set \<Rightarrow> 's world \<Rightarrow> 's world \<Rightarrow> request_id set \<Rightarrow> bool" where
  "store_step W C w w' C' \<longleftrightarrow>
     C' \<subseteq> C
     \<and> (wd_store w' = wd_store w
        \<or> (\<exists>op m. valid op \<and> (\<forall>i. creates op i \<longrightarrow> i \<in> C - C') \<and> (\<forall>i k. writes op i k \<longrightarrow> i \<in> W)
             \<and> wd_store w' = fst (apply_op ops op (wd_store w, m))))"

definition store_task ::
  "request_id set \<Rightarrow> request_id set \<Rightarrow> ('r \<Rightarrow> request_id set \<Rightarrow> bool) \<Rightarrow> ('s world, 'r) task \<Rightarrow> bool" where
  "store_task W C P t \<longleftrightarrow> sections (\<lambda>_. True) (store_step W) P t C"

lemma store_task_Done [simp]: "store_task W C P (Done r) = P r C"
  by (simp add: store_task_def)

lemma store_task_bind:
  "store_task W C P t \<Longrightarrow> (\<And>a C. P a C \<Longrightarrow> store_task W C Q (h a)) \<Longrightarrow> store_task W C Q (bind_task t h)"
  unfolding store_task_def by (rule sections_bind)

lemma store_task_then:
  "store_task W C (\<lambda>_ C'. C' = D) t \<Longrightarrow> store_task W D Q u \<Longrightarrow> store_task W C Q (then_do t u)"
  unfolding then_do_def by (rule store_task_bind [where P = "\<lambda>_ C'. C' = D"]) simp_all

lemma store_task_try:
  "store_task W C P t \<Longrightarrow> (\<And>a C. P (Inr a) C \<Longrightarrow> store_task W C Q (h a)) \<Longrightarrow>
     (\<And>e C. P (Inl e) C \<Longrightarrow> Q (Inl e) C) \<Longrightarrow> store_task W C Q (try_task t h)"
  unfolding store_task_def by (rule sections_try)

lemma store_task_quiet [simp]:
  "store_task W C (\<lambda>_ C'. C' = C) (metrics_do g)"
  "store_task W C (\<lambda>_ C'. C' = C) (limiter_do h)"
  "store_task W C (\<lambda>_ C'. C' = C) (transmit msg)"
  unfolding store_task_def metrics_do_def limiter_do_def transmit_def
  by (auto intro!: sections_atomically simp: store_step_def split: prod.split)

text \<open>A call of the store, as the step of the automaton it is.\<close>

lemma store_task_call:
  assumes "\<And>x. fst (snd (f x)) = fst (apply_op ops op x)" and "valid op"
    and "\<And>i. creates op i \<Longrightarrow> i \<in> C - C'" and "C' \<subseteq> C" and "\<And>i k. writes op i k \<Longrightarrow> i \<in> W"
  shows "store_task W C (\<lambda>_ D. D = C') (store_do f)"
proof -
  have "wd_store (snd (with_store f w)) = fst (apply_op ops op (wd_store w, wd_metrics w))" for w
    using assms(1) [of "(wd_store w, wd_metrics w)"]
    by (cases "f (wd_store w, wd_metrics w)") (simp add: with_store_def)
  then show ?thesis
    unfolding store_task_def store_do_def using assms(2-5)
    by (intro sections_atomically exI [of _ C']) (auto simp: store_step_def)
qed

lemma store_task_update:
  "valid (Update_Status clk i k u) \<Longrightarrow> i \<in> W \<Longrightarrow> store_task W C (\<lambda>_ D. D = C) (store_do (so_update_status ops clk i k u))"
  by (rule store_task_call [where op = "Update_Status clk i k u"]) simp_all

lemma store_task_metadata:
  "valid (Set_Metadata clk i k ds n) \<Longrightarrow> i \<in> W \<Longrightarrow>
     store_task W C (\<lambda>_ D. D = C) (store_do (so_set_recipient_metadata ops clk i k ds n))"
  by (rule store_task_call [where op = "Set_Metadata clk i k ds n"]) simp_all

lemma store_task_put:
  "valid (Put_Received r) \<Longrightarrow> sr_request_id r \<in> C \<Longrightarrow>
     store_task W C (\<lambda>_ D. D = C - {sr_request_id r}) (store_do (so_put_received ops r))"
  by (rule store_task_call [where op = "Put_Received r"]) auto

subsection \<open>Valid events\<close>

definition calls_valid :: "request_id \<Rightarrow> time \<Rightarrow> (nat \<Rightarrow> clock) \<Rightarrow> bool" where
  "calls_valid i now clks \<longleftrightarrow>
     (\<forall>key ttl. valid (Put_Received (new_received now i key ttl)))
     \<and> (\<forall>n key u. valid (Update_Status (clks n) i key u))
     \<and> (\<forall>n key ds c. valid (Set_Metadata (clks n) i key ds c))"

definition event_valid :: "event \<Rightarrow> bool" where
  "event_valid e \<longleftrightarrow>
     (case e of
        Http_Send p ev \<Rightarrow> calls_valid (ev_request_id ev) (ev_received ev) (ev_clock ev)
      | Http_Bulk p be rid messages schedule \<Rightarrow>
          (\<forall>n < length messages. \<forall>m. calls_valid (be_ids be n) (be_received be m) (be_clock be m))
      | Http_Status p clk ulid raw \<Rightarrow> (\<forall>i k. valid (Get_Status clk i k))
      | Http_Key_Self p \<Rightarrow> True
      | Sighup read_file \<Rightarrow> (\<forall>c. valid (Reload c))
      | Cleanup clk \<Rightarrow> valid (Expire_Old clk))"

subsection \<open>The send task\<close>

lemma store_send_task:
  assumes v: "calls_valid (ev_request_id ev) (ev_received ev) (ev_clock ev)"
  shows "store_task {ev_request_id ev} {ev_request_id ev} (\<lambda>_ _. True) (send_task X ops ev cfg auth)"
proof -
  let ?W = "{ev_request_id ev}"
  have put: "store_task ?W ?W (\<lambda>_ D. D = {}) (store_do (so_put_received ops (new_received (ev_received ev)
      (ev_request_id ev) key ttl)))" for key ttl
    using store_task_put [of "new_received (ev_received ev) (ev_request_id ev) key ttl" ?W ?W] v
    by (simp add: calls_valid_def new_received_def)
  have upd: "store_task ?W {} (\<lambda>_ D. D = {}) (store_do (so_update_status ops (ev_clock ev n) (ev_request_id ev) key u))" for n key u
    using v by (intro store_task_update) (simp_all add: calls_valid_def)
  have meta: "store_task ?W {} (\<lambda>_ D. D = {}) (store_do (so_set_recipient_metadata ops (ev_clock ev n) (ev_request_id ev) key ds c))" for n key ds c
    using v by (intro store_task_metadata) (simp_all add: calls_valid_def)
  note intros = store_task_then [where D = "{}"] upd meta store_task_quiet
  have pay: "store_task ?W {} (\<lambda>_ D. D = {}) (payload_task ops ev cfg auth)"
    unfolding payload_task_def Let_def reject_do_def by (auto intro!: intros split: option.split)
  have tier: "store_task ?W {} (\<lambda>_ D. D = {}) (tier_task ops ev auth tier check)" for tier check
    unfolding tier_task_def reject_do_def
    by (rule store_task_bind [OF store_task_quiet(2)]) (auto intro!: intros split: sum.split)
  have rates: "store_task ?W {} (\<lambda>_ D. D = {}) (rates_task ops ev auth)"
    unfolding rates_task_def
    by (rule store_task_try [OF tier], hypsubst, rule store_task_try [OF tier], hypsubst, rule tier) simp_all
  have build: "store_task ?W {} (\<lambda>_ D. D = {}) (build_task X ops ev cfg auth payload)" for payload
    unfolding build_task_def reject_do_def by (auto intro!: intros split: sum.split)
  have submit: "store_task ?W {} (\<lambda>_ D. D = {}) (submit_task ops ev auth msg)" for msg
    unfolding submit_task_def by (auto intro!: intros split: sum.split)
  have steps: "store_task ?W {} (\<lambda>_ D. D = {}) (try_task (payload_task ops ev cfg auth) (\<lambda>payload.
      try_task (rates_task ops ev auth) (\<lambda>_.
      try_task (build_task X ops ev cfg auth payload) (\<lambda>message. submit_task ops ev auth message))))"
    by (rule store_task_try [OF pay], hypsubst, rule store_task_try [OF rates], hypsubst,
        rule store_task_try [OF build], hypsubst, rule submit) simp_all
  show ?thesis
    unfolding send_task_def
    by (rule store_task_then [OF put], rule store_task_bind [OF steps]) simp
qed

subsection \<open>The bulk task\<close>

definition bulk_valid :: "request_id set \<Rightarrow> bulk_env \<Rightarrow> bool" where
  "bulk_valid W be \<longleftrightarrow> (\<forall>i\<in>W. \<forall>m. calls_valid i (be_received be m) (be_clock be m))"

lemma store_bulk_update:
  "bulk_valid W be \<Longrightarrow> i \<in> W \<Longrightarrow>
     store_task W C (\<lambda>_ D. D = C) (bulk_update_do ops (be_clock be m n) i key status code msg)"
  unfolding bulk_update_do_def by (intro store_task_update) (simp_all add: bulk_valid_def calls_valid_def)

lemma store_bulk_put:
  "bulk_valid W be \<Longrightarrow> C \<subseteq> W \<Longrightarrow> i \<in> C \<Longrightarrow>
     store_task W C (\<lambda>_ D. D = C - {i}) (store_do (so_put_received ops (new_received (be_received be m) i key ttl)))"
  using store_task_put [of "new_received (be_received be m) i key ttl" C W]
  by (auto simp: bulk_valid_def calls_valid_def new_received_def)

lemma store_phase1_task:
  assumes v: "bulk_valid W be" and C: "C \<subseteq> W" "be_ids be index \<in> C"
  shows "store_task W C (\<lambda>r D. D = C - {be_ids be index} \<and> (\<forall>p. r = Inr p \<longrightarrow> pm_req_id p \<in> W))
    (phase1_task X ops be cfg auth index raw)"
proof -
  let ?i = "be_ids be index"
  have i: "?i \<in> W" using C by auto
  note put = store_bulk_put [OF v C]
  note upd = store_bulk_update [OF v i]
  have meta: "store_task W D (\<lambda>_ D'. D' = D) (store_do (so_set_recipient_metadata ops (be_clock be m n) ?i key ds c))" for D m n key ds c
    using v i by (intro store_task_metadata) (simp_all add: bulk_valid_def calls_valid_def)
  define P where "P = (\<lambda>r :: message_result + unit. \<lambda>D. D = (case r of Inl _ \<Rightarrow> C - {?i} | Inr _ \<Rightarrow> C))"
  have tier: "store_task W C P (bulk_tier_task ops be cfg auth index tier msg check)" for tier msg check
    unfolding bulk_tier_task_def store_rejected_do_def
    by (rule store_task_bind [OF store_task_quiet(2)])
       (auto intro!: store_task_then [OF store_task_quiet(1)] store_task_then [OF store_task_then [OF put upd]]
         simp: P_def split: sum.split)
  have rates: "store_task W C P (bulk_rates_task ops be cfg auth index)"
    unfolding bulk_rates_task_def
    by (rule store_task_try [OF tier] store_task_try [OF tier, rotated 2], simp add: P_def,
        rule store_task_try [OF tier], simp add: P_def, rule tier [unfolded P_def]) (simp_all add: P_def)
  have build: "store_task W D (\<lambda>r D'. D' = D \<and> (\<forall>p. r = Inr p \<longrightarrow> pm_req_id p \<in> W))
      (bulk_build_task X ops be cfg auth index raw)" for D
    unfolding bulk_build_task_def Let_def
    by (auto intro!: store_task_then [where D = D] upd meta i split: sum.split)
  show ?thesis
    unfolding phase1_task_def
    by (rule store_task_try [OF rates]) (auto simp: P_def intro!: store_task_then [OF put] build)
qed

lemma store_phase1_loop:
  assumes "bulk_valid W be" and "C \<subseteq> W" and "be_ids be ` {index..<index + length messages} \<subseteq> C"
    and "inj_on (be_ids be) {index..<index + length messages}"
  shows "store_task W C (\<lambda>(rej, prep) _. pm_req_id ` set prep \<subseteq> W)
    (phase1_loop_task X ops be cfg auth index messages)"
  using assms(2-4)
proof (induction messages arbitrary: index C)
  case Nil
  then show ?case by simp
next
  case (Cons raw messages)
  let ?C = "C - {be_ids be index}"
  have range: "{index..<index + length (raw # messages)} = insert index {Suc index..<Suc index + length messages}"
    by auto
  have "be_ids be index \<notin> be_ids be ` {Suc index..<Suc index + length messages}"
    using Cons.prems(3) unfolding range by (subst (asm) inj_on_insert) auto
  moreover from this Cons.prems(2) have "be_ids be ` {Suc index..<Suc index + length messages} \<subseteq> ?C"
    unfolding range by blast
  ultimately have rest: "store_task W ?C (\<lambda>(rej, prep) _. pm_req_id ` set prep \<subseteq> W)
      (phase1_loop_task X ops be cfg auth (Suc index) messages)"
    using Cons.prems unfolding range by (intro Cons.IH) auto
  have "store_task W C (\<lambda>r D. D = ?C \<and> (\<forall>p. r = Inr p \<longrightarrow> pm_req_id p \<in> W))
      (phase1_task X ops be cfg auth index raw)"
    using Cons.prems unfolding range by (intro store_phase1_task assms(1)) auto
  then show ?case
    by (simp, elim store_task_bind) (auto intro!: store_task_bind [OF rest] split: sum.split)
qed

lemma fire_store:
  assumes "fire ops be cfg permits ev st = Some st'" and "bulk_valid W be"
    and "pm_req_id ` (set (bs_waiting st) \<union> set (bs_running st)) \<subseteq> W"
  shows "store_step W C (bs_world st) (bs_world st') C
    \<and> pm_req_id ` (set (bs_waiting st') \<union> set (bs_running st')) \<subseteq> W"
proof -
  have upd: "store_step W C w (bulk_update ops (be_clock be m n) i key status code msg w') C"
    if "i \<in> W" "wd_store w' = wd_store w" for i key status code msg m n w w'
  proof -
    let ?op = "Update_Status (be_clock be m n) i key \<lparr>su_status = status, su_code = code, su_message = Some msg\<rparr>"
    have "valid ?op" using that assms(2) by (simp add: bulk_valid_def calls_valid_def)
    moreover have "wd_store (bulk_update ops (be_clock be m n) i key status code msg w')
        = fst (apply_op ops ?op (wd_store w, wd_metrics w'))"
      using that(2) by (simp add: bulk_update_def with_store_def split: prod.split)
    ultimately show ?thesis
      unfolding store_step_def using that(1)
      by (intro conjI disjI2 exI [of _ ?op] exI [of _ "wd_metrics w'"]) simp_all
  qed
  have frame: "store_step W C w (w'\<lparr>wd_metrics := m\<rparr>) C = store_step W C w w' C"
    "store_step W C w (w'\<lparr>wd_sent := q\<rparr>) C = store_step W C w w' C" for w w' m q
    by (simp_all add: store_step_def)
  have "store_step W C w (phase2_begin ops be p w) C" "store_step W C w (phase2_end ops be cfg p w) C"
    if "pm_req_id p \<in> W" for p w
    using that upd by (simp_all add: phase2_begin_def phase2_end_def Let_def frame split: sum.split)
  then show ?thesis
    using assms(1,3) set_remove1_subset
    by (fastforce simp: fire_def dest: find_SomeD split: bulk_event.splits option.splits if_splits)
qed

lemma store_schedule_task:
  assumes "bulk_valid W be" and "pm_req_id ` (set (bs_waiting st) \<union> set (bs_running st)) \<subseteq> W"
  shows "store_task W C (\<lambda>_ _. True) (schedule_task ops be cfg permits evs st)"
  using assms(2)
proof (induction evs arbitrary: st)
  case Nil
  then show ?case by simp
next
  case (Cons ev evs)
  show ?case
    unfolding store_task_def
  proof (simp, intro allI exI [of _ C])
    fix w
    show "store_step W C w (case fire ops be cfg permits ev (st\<lparr>bs_world := w\<rparr>) of
              None \<Rightarrow> w | Some st' \<Rightarrow> bs_world st') C
        \<and> sections (\<lambda>_. True) (store_step W) (\<lambda>_ _. True) (case fire ops be cfg permits ev (st\<lparr>bs_world := w\<rparr>) of
              None \<Rightarrow> Done None | Some st' \<Rightarrow> schedule_task ops be cfg permits evs st') C"
    proof (cases "fire ops be cfg permits ev (st\<lparr>bs_world := w\<rparr>)")
      case None
      then show ?thesis by (simp add: store_step_def)
    next
      case (Some st')
      from fire_store [OF Some assms(1), of C] Cons.prems
      have f: "store_step W C w (bs_world st') C"
        "pm_req_id ` (set (bs_waiting st') \<union> set (bs_running st')) \<subseteq> W" by auto
      from Cons.IH [OF f(2)] f(1) Some show ?thesis by (simp add: store_task_def)
    qed
  qed
qed

lemma store_bulk_task:
  assumes "bulk_valid W be" and "W = be_ids be ` {..<length messages}"
    and "inj_on (be_ids be) {..<length messages}"
  shows "store_task W W (\<lambda>_ _. True) (bulk_task X ops be cfg auth rid messages schedule)"
proof -
  have loop: "store_task W W (\<lambda>(rej, prep) _. pm_req_id ` set prep \<subseteq> W)
      (phase1_loop_task X ops be cfg auth 0 messages)"
    using assms by (intro store_phase1_loop) (simp_all add: atLeast0LessThan)
  have snap: "store_task W C (\<lambda>_ D. D = C) (atomically (\<lambda>w. (w, w)))" for C
    unfolding store_task_def by (rule sections_atomically) (simp add: store_step_def)
  have last: "store_task W C (\<lambda>_ _. True) (then_do (metrics_do g) (Done r))" for C g r
    by (rule store_task_then [OF store_task_quiet(1)]) simp
  show ?thesis
    unfolding bulk_task_def
    by (auto intro!: store_task_bind [OF loop] store_task_bind [OF snap]
        store_task_bind [OF store_schedule_task [OF assms(1)]] last split: option.split)
qed

subsection \<open>The tasks of the server\<close>

abbreviation process_store ::
  "request_id set \<Rightarrow> ('r \<Rightarrow> request_id set \<Rightarrow> bool) \<Rightarrow> ('s process, 'r) task \<Rightarrow> request_id set \<Rightarrow> bool" where
  "process_store W P t C \<equiv>
     sections (\<lambda>_. True) (\<lambda>C p p' C'. store_step W C (pr_world p) (pr_world p') C') P t C"

lemma process_store_on_world:
  "store_task W C P t \<Longrightarrow> process_store W P (on_world t) C"
  unfolding on_world_def store_task_def
  by (rule sections_on_part [where I = "\<lambda>_. True" and G = "store_step W"]) simp_all

lemma process_store_quiet:
  "(\<And>p. wd_store (pr_world (snd (f p))) = wd_store (pr_world p)) \<Longrightarrow>
     process_store W (\<lambda>_ C'. C' = C) (atomically f) C"
  by (rule sections_atomically) (simp add: store_step_def)

lemma process_store_authenticated:
  assumes "\<And>cfg auth. process_store W (\<lambda>_ _. True) (h cfg auth) C"
  shows "process_store W (\<lambda>_ _. True) (authenticated X parts h) C"
proof -
  have read: "process_store W (\<lambda>_ C'. C' = C) read_config C"
    unfolding read_config_def by (rule process_store_quiet) simp
  have auth: "process_store W (\<lambda>_ C'. C' = C) (auth_task X parts) C"
    unfolding auth_task_def
    by (rule sections_bind [OF read], rule process_store_on_world)
       (auto simp: store_task_def store_step_def split: prod.split intro!: sections_atomically)
  show ?thesis
    unfolding authenticated_def
    by (rule sections_bind [OF auth]) (auto intro!: sections_bind [OF read] assms split: sum.split)
qed

lemma store_status_do:
  assumes "\<And>i k. valid (Get_Status clk i k)"
  shows "store_task W C (\<lambda>_ _. True) (status_do X ops fmt clk ulid auth raw)"
  unfolding status_do_def
proof (cases "request_id_from_str X raw")
  case (Inl e)
  then show "store_task W C (\<lambda>_ _. True) (store_do (get_submission_status X ops fmt clk ulid auth raw))"
    unfolding store_task_def store_do_def
    by (intro sections_atomically exI [of _ C]) (simp add: store_step_def get_submission_status_def with_store_def)
next
  case (Inr i)
  have "fst (snd (get_submission_status X ops fmt clk ulid auth raw x))
      = fst (apply_op ops (Get_Status clk i (ac_key_id auth)) x)" for x
    by (simp add: get_submission_status_def Inr split: prod.split sum.split option.split)
  then have "store_task W C (\<lambda>_ D. D = C) (store_do (get_submission_status X ops fmt clk ulid auth raw))"
    using assms by (intro store_task_call [where op = "Get_Status clk i (ac_key_id auth)"]) simp_all
  then show "store_task W C (\<lambda>_ _. True) (store_do (get_submission_status X ops fmt clk ulid auth raw))"
    unfolding store_task_def by (rule sections_mono) simp
qed

lemma process_store_event:
  assumes "event_valid e" and "distinct (event_ids e)"
  shows "process_store (set (event_ids e)) (\<lambda>_ _. True) (event_task env ops bulk e) (set (event_ids e))"
proof -
  have lift: "process_store W (\<lambda>_ _. True) (bind_task (on_world t) (\<lambda>r. Done (f r))) C"
    if "store_task W C (\<lambda>_ _. True) t" for W C t and f :: "_ \<Rightarrow> outcome"
    by (rule sections_bind [OF process_store_on_world [OF that]]) simp
  show ?thesis
  proof (cases e)
    case (Http_Send p ev)
    with assms show ?thesis
      by (simp add: event_task_def Let_def event_valid_def)
         (intro process_store_authenticated lift store_send_task)
  next
    case (Http_Bulk p be rid messages schedule)
    let ?W = "be_ids be ` {..<length messages}"
    have W: "set (event_ids e) = ?W" using Http_Bulk by (simp add: atLeast0LessThan)
    have "bulk_valid ?W be" using assms(1) Http_Bulk by (auto simp: event_valid_def bulk_valid_def)
    moreover have "inj_on (be_ids be) {..<length messages}"
      using assms(2) Http_Bulk by (simp add: distinct_map atLeast0LessThan)
    ultimately have "process_store ?W (\<lambda>_ _. True) (authenticated (sn_externals env) p (\<lambda>cfg auth.
        bind_task (on_world (bulk_task (sn_externals env) ops be cfg auth rid messages schedule)) (\<lambda>r.
          Done (case r of Some r \<Rightarrow> Bulk_Reply r | None \<Rightarrow> Bulk_Abandoned)))) ?W"
      by (intro process_store_authenticated lift store_bulk_task) simp_all
    then show ?thesis unfolding W using Http_Bulk by (simp add: event_task_def Let_def)
  next
    case (Http_Status p clk ulid raw)
    with assms show ?thesis
      by (simp add: event_task_def Let_def event_valid_def)
         (intro process_store_authenticated lift store_status_do, simp)
  next
    case (Http_Key_Self p)
    then show ?thesis
      by (simp add: event_task_def Let_def) (intro process_store_authenticated, simp)
  next
    case (Sighup read_file)
    have reload: "store_task {} {} (\<lambda>_ D. D = {}) (store_do (\<lambda>x. ((), so_reload_config ops c x)))" for c
      using assms(1) Sighup by (intro store_task_call [where op = "Reload c"]) (simp_all add: event_valid_def)
    have read: "process_store {} (\<lambda>_ C'. C' = {}) read_config {}"
      unfolding read_config_def by (rule process_store_quiet) simp
    have "process_store {} (\<lambda>_ _. True) (sighup_task env ops read_file) {}"
      unfolding sighup_task_def then_do_def
      by (auto intro!: sections_bind [OF read] sections_bind [OF process_store_on_world [OF reload]]
          sections_mono [OF process_store_quiet] split: sum.split)
    with Sighup show ?thesis
      by (simp add: event_task_def Let_def then_do_def) (erule sections_bind, simp)
  next
    case (Cleanup clk)
    have "store_task {} {} (\<lambda>_ D. D = {}) (store_do (\<lambda>x. ((), so_expire_old_records ops clk x)))"
      using assms(1) Cleanup by (intro store_task_call [where op = "Expire_Old clk"]) (simp_all add: event_valid_def)
    with Cleanup show ?thesis
      by (simp add: event_task_def Let_def then_do_def cleanup_task_def)
         (rule sections_bind [OF process_store_on_world], assumption, simp)
  qed
qed

subsection \<open>The invariant of the server\<close>

text \<open>One section of a task whose unused ids have no record.\<close>

lemma store_step_effect:
  assumes "store_step W C w w' C'" and "ok (wd_store w)" and "C \<subseteq> W"
    and "\<And>i. i \<in> C \<Longrightarrow> view (wd_store w) i = None"
  shows "ok (wd_store w')"
    and "i \<in> C' \<Longrightarrow> view (wd_store w') i = None"
    and "i \<notin> C \<Longrightarrow> evolves (view (wd_store w) i) (view (wd_store w') i)"
    and "i \<notin> W \<Longrightarrow> view (wd_store w') i \<in> {view (wd_store w) i, None}"
proof -
  have "ok (wd_store w')
    \<and> (i \<in> C' \<longrightarrow> view (wd_store w') i = None)
    \<and> (i \<notin> C \<longrightarrow> evolves (view (wd_store w) i) (view (wd_store w') i))
    \<and> (i \<notin> W \<longrightarrow> view (wd_store w') i \<in> {view (wd_store w) i, None})" for i
  proof (cases "wd_store w' = wd_store w")
    case True
    then show ?thesis using assms by (auto simp: store_step_def)
  next
    case False
    with assms(1) obtain op m where op: "valid op" "\<And>i. creates op i \<Longrightarrow> i \<in> C - C'"
      "\<And>i k. writes op i k \<Longrightarrow> i \<in> W" "wd_store w' = fst (apply_op ops op (wd_store w, m))" "C' \<subseteq> C"
      unfolding store_step_def by blast
    let ?x = "(wd_store w, m)"
    have ok: "ok (fst ?x)" using assms(2) by simp
    have ev: "evolves (view (wd_store w) i) (view (wd_store w') i)" if "\<not> creates op i" for i
      using evolves_step [OF ok op(1) that] op(4) by simp
    have keep: "view (wd_store w') i \<in> {Some r, None}"
      if "view (wd_store w) i = Some r" "\<not> creates op i" "i \<notin> W" for i r
    proof -
      have "\<not> writes op i (sr_key_id r)" using op(3) that(3) by blast
      with foreign_step [OF ok op(1) that(2), of r] that(1) op(4) show ?thesis by simp
    qed
    have new: "\<not> creates op i" if "i \<notin> C \<or> i \<in> C' \<or> i \<notin> W" for i
      using that op(2) assms(3,4) by auto
    have none: "view (wd_store w') i = None" if "view (wd_store w) i = None" "\<not> creates op i" for i
      using ev [OF that(2)] that(1) by (cases "view (wd_store w') i") (auto simp: evolves_Some_iff)
    show ?thesis
    proof (intro conjI impI allI)
      show "ok (wd_store w')" using ok_step [OF ok op(1)] op(4) by simp
    next
      assume "i \<in> C'"
      then show "view (wd_store w') i = None" using none new op(5) assms(4) by blast
    next
      assume "i \<notin> C"
      then show "evolves (view (wd_store w) i) (view (wd_store w') i)" using ev [OF new, of i] by simp
    next
      assume i: "i \<notin> W"
      then show "view (wd_store w') i \<in> {view (wd_store w) i, None}"
        using none [OF _ new, of i] keep [OF _ new, of i] by (cases "view (wd_store w) i") simp_all
    qed
  qed
  then show "ok (wd_store w')"
    and "i \<in> C' \<Longrightarrow> view (wd_store w') i = None"
    and "i \<notin> C \<Longrightarrow> evolves (view (wd_store w) i) (view (wd_store w') i)"
    and "i \<notin> W \<Longrightarrow> view (wd_store w') i \<in> {view (wd_store w) i, None}"
    by blast+
qed

abbreviation server_view :: "'s server \<Rightarrow> request_id \<Rightarrow> status_record option" where
  "server_view s i \<equiv> view (wd_store (pr_world (srv_process s))) i"

text \<open>
  No task will create a record for an id in \<open>D\<close>, the ids that have had their record.
\<close>

definition task_ok :: "request_id set \<Rightarrow> 's server \<Rightarrow> event \<times> ('s process, outcome) task \<Rightarrow> bool" where
  "task_ok D s et \<longleftrightarrow>
     set (event_ids (fst et)) \<subseteq> set (srv_issued s)
     \<and> (\<exists>C \<subseteq> set (event_ids (fst et)) - D.
          process_store (set (event_ids (fst et))) (\<lambda>_ _. True) (snd et) C \<and> (\<forall>i\<in>C. server_view s i = None))"

definition server_ok :: "request_id set \<Rightarrow> 's server \<Rightarrow> bool" where
  "server_ok D s \<longleftrightarrow>
     ok (wd_store (pr_world (srv_process s))) \<and> D \<subseteq> set (srv_issued s)
     \<and> (\<forall>i. server_view s i \<noteq> None \<longrightarrow> i \<in> set (srv_issued s))
     \<and> (\<forall>n < length (srv_tasks s). task_ok D s (srv_tasks s ! n))
     \<and> (\<forall>n m. n < length (srv_tasks s) \<longrightarrow> m < length (srv_tasks s) \<longrightarrow> n \<noteq> m \<longrightarrow>
          set (event_ids (fst (srv_tasks s ! n))) \<inter> set (event_ids (fst (srv_tasks s ! m))) = {})"

text \<open>A task that arrives has new ids.\<close>

lemma server_ok_arrive:
  assumes "server_ok D s" and "event_valid e" and "distinct (event_ids e)"
    and "set (event_ids e) \<inter> set (srv_issued s) = {}"
    and arrive: "s' = s\<lparr>srv_tasks := srv_tasks s @ [(e, event_task env ops (srv_bulk s) e)],
              srv_issued := event_ids e @ srv_issued s\<rparr>"
  shows "server_ok D s'"
proof -
  let ?t = "event_task env ops (srv_bulk s) e" and ?n = "length (srv_tasks s)"
  note proc = process_store_event [OF assms(2,3), of env "srv_bulk s"]
  have view: "server_view s' j = server_view s j" for j by (simp add: arrive)
  have tasks: "srv_tasks s' = srv_tasks s @ [(e, ?t)]"
    and issued: "set (srv_issued s') = set (event_ids e) \<union> set (srv_issued s)"
    and process: "srv_process s' = srv_process s"
    by (simp_all add: arrive)
  have "\<forall>j \<in> set (event_ids e). server_view s' j = None"
    using assms(1,4) unfolding server_ok_def view by blast
  moreover have "set (event_ids e) \<subseteq> set (event_ids e) - D"
    using assms(1,4) unfolding server_ok_def by blast
  ultimately have new: "task_ok D s' (e, ?t)"
    using proc unfolding task_ok_def issued fst_conv snd_conv
    by (intro conjI exI [of _ "set (event_ids e)"]) simp_all
  have old: "task_ok D s' (srv_tasks s ! m)" if "m < ?n" for m
    using assms(1) that by (auto simp: server_ok_def task_ok_def view issued)
  have apart: "set (event_ids (fst (srv_tasks s ! m))) \<inter> set (event_ids e) = {}" if "m < ?n" for m
  proof -
    have "task_ok D s (srv_tasks s ! m)" using assms(1) that by (simp add: server_ok_def)
    then have "set (event_ids (fst (srv_tasks s ! m))) \<subseteq> set (srv_issued s)" by (simp add: task_ok_def)
    with assms(4) show ?thesis by blast
  qed
  have "task_ok D s' (srv_tasks s' ! m)" if "m < Suc ?n" for m
    using new old that by (cases "m = ?n") (simp_all add: tasks nth_append)
  moreover have "set (event_ids (fst (srv_tasks s' ! m))) \<inter> set (event_ids (fst (srv_tasks s' ! m'))) = {}"
    if "m < Suc ?n" "m' < Suc ?n" "m \<noteq> m'" for m m'
    using that apart [of m] apart [of m'] assms(1)
    by (cases "m = ?n"; cases "m' = ?n") (auto simp: tasks nth_append server_ok_def)
  ultimately show ?thesis
    using assms(1) by (auto simp: server_ok_def view issued tasks process)
qed

text \<open>One section of a task in flight: what it does to the store, and what the task may still create.\<close>

lemma section_effect:
  assumes "server_ok D s" and "n < length (srv_tasks s)" and "srv_tasks s ! n = (e, Atomic g k)"
    and p: "p = srv_process s"
  obtains C' where "C' \<subseteq> set (event_ids e) - D"
    and "process_store (set (event_ids e)) (\<lambda>_ _. True) (k p) C'"
    and "ok (wd_store (pr_world (g p)))"
    and "\<And>i. i \<in> C' \<Longrightarrow> view (wd_store (pr_world (g p))) i = None"
    and "\<And>i. i \<in> D \<Longrightarrow> evolves (server_view s i) (view (wd_store (pr_world (g p))) i)"
    and "\<And>i. i \<notin> set (event_ids e) \<Longrightarrow> view (wd_store (pr_world (g p))) i \<in> {server_view s i, None}"
proof -
  let ?W = "set (event_ids e)"
  have "task_ok D s (srv_tasks s ! n)" using assms(1,2) by (simp add: server_ok_def)
  then have "task_ok D s (e, Atomic g k)" using assms(3) by simp
  then obtain C where C: "C \<subseteq> ?W" "C \<inter> D = {}" "process_store ?W (\<lambda>_ _. True) (Atomic g k) C"
    "\<forall>i\<in>C. server_view s i = None" unfolding task_ok_def fst_conv snd_conv by blast
  then obtain C' where C': "store_step ?W C (pr_world p) (pr_world (g p)) C'"
    "process_store ?W (\<lambda>_ _. True) (k p) C'"
    unfolding sections.simps by blast
  have ok: "ok (wd_store (pr_world p))" using assms(1) by (simp add: server_ok_def p)
  have unused: "view (wd_store (pr_world p)) i = None" if "i \<in> C" for i using C(4) that by (simp add: p)
  note eff = store_step_effect [OF C'(1) ok C(1) unused]
  show thesis
  proof (rule that [OF _ C'(2) eff(1,2)])
    show "C' \<subseteq> ?W - D" using C'(1) C(1,2) unfolding store_step_def by blast
    show "evolves (server_view s i) (view (wd_store (pr_world (g p))) i)" if "i \<in> D" for i
      using eff(3) [of i] C(2) that by (auto simp: p)
    show "view (wd_store (pr_world (g p))) i \<in> {server_view s i, None}" if "i \<notin> ?W" for i
      using eff(4) [OF _ that] by (simp add: p)
  qed
qed

lemma server_ok_run:
  assumes "server_ok D s" and n: "n < length (srv_tasks s)" "srv_tasks s ! n = (e, Atomic g k)"
    and run: "s' = s\<lparr>srv_process := g (srv_process s), srv_tasks := (srv_tasks s)[n := (e, k (srv_process s))],
      srv_configs := cs\<rparr>"
  shows "server_ok D s'"
    and "i \<in> D \<Longrightarrow> evolves (server_view s i) (server_view s' i)"
    and "i \<notin> set (event_ids e) \<Longrightarrow> server_view s' i \<in> {server_view s i, None}"
proof -
  let ?p = "srv_process s" and ?W = "set (event_ids e)"
  obtain C' where C': "C' \<subseteq> ?W - D" "process_store ?W (\<lambda>_ _. True) (k ?p) C'"
    and ok: "ok (wd_store (pr_world (g ?p)))"
    and unused: "\<And>i. i \<in> C' \<Longrightarrow> view (wd_store (pr_world (g ?p))) i = None"
    and ev: "\<And>i. i \<in> D \<Longrightarrow> evolves (server_view s i) (view (wd_store (pr_world (g ?p))) i)"
    and frame: "\<And>i. i \<notin> ?W \<Longrightarrow> view (wd_store (pr_world (g ?p))) i \<in> {server_view s i, None}"
    by (rule section_effect [OF assms(1) n refl]) blast
  have view': "server_view s' i = view (wd_store (pr_world (g ?p))) i"
    and issued': "srv_issued s' = srv_issued s"
    and tasks: "srv_tasks s' = (srv_tasks s)[n := (e, k ?p)]" for i by (simp_all add: run)
  show "i \<in> D \<Longrightarrow> evolves (server_view s i) (server_view s' i)" using ev by (simp add: view')
  show "i \<notin> ?W \<Longrightarrow> server_view s' i \<in> {server_view s i, None}" using frame by (simp add: view')
  have old: "task_ok D s (srv_tasks s ! m)" if "m < length (srv_tasks s)" for m
    using assms(1) that by (simp add: server_ok_def)
  have W: "?W \<subseteq> set (srv_issued s)" using old [OF n(1)] n(2) by (simp add: task_ok_def)
  have own: "task_ok D s' (e, k ?p)"
    using C' W unused unfolding task_ok_def issued' fst_conv snd_conv view' by blast
  have others: "task_ok D s' (srv_tasks s ! m)" if m: "m < length (srv_tasks s)" "m \<noteq> n" for m
  proof -
    have apart: "set (event_ids (fst (srv_tasks s ! m))) \<inter> ?W = {}"
      using assms(1) m n by (simp add: server_ok_def) (metis fst_conv)
    from old [OF m(1)] obtain E where E: "E \<subseteq> set (event_ids (fst (srv_tasks s ! m))) - D"
      "\<forall>i\<in>E. server_view s i = None"
      "process_store (set (event_ids (fst (srv_tasks s ! m)))) (\<lambda>_ _. True) (snd (srv_tasks s ! m)) E"
      "set (event_ids (fst (srv_tasks s ! m))) \<subseteq> set (srv_issued s)" unfolding task_ok_def by blast
    have "server_view s' i = None" if "i \<in> E" for i
    proof -
      have "i \<notin> ?W" "server_view s i = None" using that E(1,2) apart by auto
      then show ?thesis using frame [of i] by (simp add: view')
    qed
    with E show ?thesis unfolding task_ok_def issued' by blast
  qed
  have "i \<in> set (srv_issued s')" if "server_view s' i \<noteq> None" for i
    using frame [of i] that W assms(1) by (cases "i \<in> ?W") (auto simp: view' issued' server_ok_def)
  moreover have "task_ok D s' (srv_tasks s' ! m)" if "m < length (srv_tasks s')" for m
    using own others [of m] that n(1) by (cases "m = n") (simp_all add: tasks)
  moreover have "fst (srv_tasks s' ! m) = fst (srv_tasks s ! m)" if "m < length (srv_tasks s)" for m
    using n that by (cases "m = n") (simp_all add: tasks)
  moreover have "ok (wd_store (pr_world (srv_process s')))" using ok by (simp add: run)
  moreover have "length (srv_tasks s') = length (srv_tasks s)" by (simp add: tasks)
  ultimately show "server_ok D s'" using assms(1) issued' unfolding server_ok_def by simp
qed

lemma server_ok_drop:
  assumes "server_ok D s" and n: "n < length (srv_tasks s)" "srv_tasks s ! n = (e, t)"
    and drop: "s' = s\<lparr>srv_tasks := (srv_tasks s)[n := (e, Done Dropped)]\<rparr>"
  shows "server_ok D s'"
proof -
  have "task_ok D s (srv_tasks s ! n)" using assms(1) n(1) by (simp add: server_ok_def)
  then have "set (event_ids e) \<subseteq> set (srv_issued s)" using n(2) by (simp add: task_ok_def)
  then have own: "task_ok D s' (e, Done Dropped)"
    unfolding task_ok_def by (intro conjI exI [of _ "{}"]) (simp_all add: drop)
  have same: "task_ok D s' t = task_ok D s t" for t by (simp add: task_ok_def drop)
  have "fst (srv_tasks s' ! m) = fst (srv_tasks s ! m)" if "m < length (srv_tasks s)" for m
    using n that by (cases "m = n") (simp_all add: drop)
  moreover have "task_ok D s' (srv_tasks s' ! m)" if "m < length (srv_tasks s')" for m
  proof (cases "m = n")
    case True
    with own n(1) show ?thesis by (simp add: drop)
  next
    case False
    with that assms(1) have "task_ok D s (srv_tasks s' ! m)" by (simp add: drop server_ok_def)
    then show ?thesis by (simp only: same)
  qed
  ultimately show ?thesis using assms(1) unfolding server_ok_def by (simp add: drop)
qed

text \<open>What a step changes in the store: only the running task's own records, and those not
  against the life cycle.\<close>

lemma server_ok_step:
  assumes "server_ok D s" and "server_step env ops l s = Some s'"
    and "\<And>e. l = Arrive e \<Longrightarrow> event_valid e"
  shows "server_ok D s'"
    and "i \<in> D \<Longrightarrow> evolves (server_view s i) (server_view s' i)"
    and "(\<And>n. l = Run n \<Longrightarrow> i \<notin> set (event_ids (fst (srv_tasks s ! n)))) \<Longrightarrow>
           server_view s' i \<in> {server_view s i, None}"
proof -
  have "server_ok D s'
    \<and> (i \<in> D \<longrightarrow> evolves (server_view s i) (server_view s' i))
    \<and> ((\<forall>n. l = Run n \<longrightarrow> i \<notin> set (event_ids (fst (srv_tasks s ! n)))) \<longrightarrow>
           server_view s' i \<in> {server_view s i, None})" for i
    using assms(2)
  proof (cases rule: server_step_cases)
    case (arrive e)
    with server_ok_arrive [OF assms(1) assms(3) [OF arrive(1)] arrive(2-4)] show ?thesis by simp
  next
    case (run n e g k)
    note r = server_ok_run [OF assms(1) run(2-4)]
    from r(1) r(2) [of i] r(3) [of i] run(1,3) show ?thesis by simp
  next
    case (drop n e g k)
    with server_ok_drop [OF assms(1) drop(2-4)] show ?thesis by simp
  qed
  from this [of i] show "server_ok D s'"
    and "i \<in> D \<Longrightarrow> evolves (server_view s i) (server_view s' i)"
    and "(\<And>n. l = Run n \<Longrightarrow> i \<notin> set (event_ids (fst (srv_tasks s ! n)))) \<Longrightarrow>
           server_view s' i \<in> {server_view s i, None}"
    by simp_all
qed

end

end
