(* ===== verification/Server_Record.thy ===== *)
theory Server_Record
  imports Server_Store
begin

text \<open>
  Runs of the server over a store: records keep to their life cycle across any run, and
  the record of a send request agrees with its answer while any other tasks run.
\<close>

subsection \<open>Runs\<close>

context status_store
begin

definition all_valid :: "'s server \<Rightarrow> bool" where
  "all_valid s \<longleftrightarrow> (\<forall>e \<in> fst ` set (srv_tasks s). event_valid e)"

lemma server_run:
  assumes "reaches env ops s s'" and "server_ok D s" and "all_valid s'"
  shows "server_ok D s' \<and> (\<forall>i\<in>D. evolves (server_view s i) (server_view s' i))"
  using assms(1,3)
proof (induction rule: reaches.induct)
  case here
  then show ?case using assms(2) by simp
next
  case (there s' l s'')
  have sub: "fst ` set (srv_tasks s'') = fst ` set (srv_tasks s') \<union> (case l of Arrive e \<Rightarrow> {e} | _ \<Rightarrow> {})"
    by (rule step_events [OF there.hyps(2)])
  then have "all_valid s'" and new: "\<And>e. l = Arrive e \<Longrightarrow> event_valid e"
    using there.prems by (auto simp: all_valid_def)
  with there.IH have IH: "server_ok D s'" "\<And>i. i \<in> D \<Longrightarrow> evolves (server_view s i) (server_view s' i)"
    by blast+
  have "server_ok D s''" using server_ok_step(1) [OF IH(1) there.hyps(2) new] .
  moreover have "evolves (server_view s i) (server_view s'' i)" if "i \<in> D" for i
    using IH(2) [OF that] server_ok_step(2) [OF IH(1) there.hyps(2) new that] by (rule evolves_trans)
  ultimately show ?case by blast
qed

lemma server_ok_seen:
  assumes "server_ok D s" and "server_view s i \<noteq> None"
  shows "server_ok (insert i D) s"
proof -
  have "task_ok (insert i D) s t" if "task_ok D s t" for t
  proof -
    from that obtain C where C: "C \<subseteq> set (event_ids (fst t)) - D" "\<forall>j\<in>C. server_view s j = None"
      "process_store (set (event_ids (fst t))) (\<lambda>_ _. True) (snd t) C"
      "set (event_ids (fst t)) \<subseteq> set (srv_issued s)" unfolding task_ok_def by blast
    from C(2) assms(2) have "i \<notin> C" by auto
    with C(1) have "C \<subseteq> set (event_ids (fst t)) - insert i D" by auto
    with C(2-4) show ?thesis unfolding task_ok_def by (intro conjI exI [of _ C])
  qed
  with assms show ?thesis unfolding server_ok_def by simp
qed

text \<open>A record that a server has keeps to its life cycle in everything that follows.\<close>

lemma server_record_evolves:
  assumes "reaches env ops s s'" and "server_ok D s" and "all_valid s'" and "server_view s i = Some r"
  shows "evolves (Some r) (server_view s' i)"
  using server_run [OF assms(1) server_ok_seen [OF assms(2), of i] assms(3)] assms(4) by (metis insertI1 option.simps(3))

lemma server_terminal_final:
  assumes "reaches env ops s s'" and "server_ok D s" and "all_valid s'"
    and "server_view s i = Some r" and "is_terminal (sr_status r)"
  shows "case server_view s' i of None \<Rightarrow> True | Some r' \<Rightarrow> same_identity r r' \<and> same_outcome r r'"
  using server_record_evolves [OF assms(1-4)] assms(5)
  by (auto simp: evolves_Some_iff split: option.split)

lemma server_ok_start:
  assumes "ok (as_store st)" and "\<And>i. view (as_store st) i \<noteq> None \<Longrightarrow> i \<in> set issued"
  shows "server_ok {} (server_start st issued)"
  using assms by (simp add: server_ok_def server_start_def)

end

subsection \<open>The record of a request under interference\<close>

text \<open>\<open>late ev r\<close>: the clock of the handler has reached the expiry of the record.\<close>

definition late :: "send_env \<Rightarrow> status_record \<Rightarrow> bool" where
  "late ev r \<longleftrightarrow> (\<exists>n m. sr_expires_at r \<le> ev_clock ev n m)"

context tracking_store
begin

text \<open>What other tasks may do to the world, as far as the record of \<open>i\<close> goes.\<close>

definition others :: "request_id \<Rightarrow> 'a world \<Rightarrow> 'a world \<Rightarrow> bool" where
  "others i w w' \<longleftrightarrow> ok (wd_store w') \<and> view (wd_store w') i \<in> {view (wd_store w) i, None}"

text \<open>
  The record of the request, if it has not been evicted, belongs to the key and has the
  given status and code, unless it has expired in the meantime.
\<close>

definition record_is ::
  "send_env \<Rightarrow> str \<Rightarrow> submission_status \<Rightarrow> error_code option \<Rightarrow> 'a world \<Rightarrow> bool" where
  "record_is ev k st co w \<longleftrightarrow>
     ok (wd_store w)
     \<and> (case view (wd_store w) (ev_request_id ev) of
          None \<Rightarrow> True
        | Some r \<Rightarrow> sr_key_id r = k \<and> (sr_status r = st \<and> sr_code r = co \<or> late ev r))"

lemma record_is_others: "record_is ev k st co w \<Longrightarrow> others (ev_request_id ev) w w' \<Longrightarrow> record_is ev k st co w'"
  by (auto simp: record_is_def others_def)

lemma record_is_frames [simp]:
  "record_is ev k st co (w\<lparr>wd_metrics := m\<rparr>) = record_is ev k st co w"
  "record_is ev k st co (w\<lparr>wd_limiter := l\<rparr>) = record_is ev k st co w"
  "record_is ev k st co (w\<lparr>wd_sent := q\<rparr>) = record_is ev k st co w"
  by (simp_all add: record_is_def)

text \<open>The store has no record of \<open>i\<close>, which nobody else creates.\<close>

definition absent :: "request_id \<Rightarrow> 'a world \<Rightarrow> bool" where
  "absent i w \<longleftrightarrow> ok (wd_store w) \<and> view (wd_store w) i = None"

lemma absent_others: "absent i w \<Longrightarrow> others i w w' \<Longrightarrow> absent i w'"
  by (auto simp: absent_def others_def)

lemma transp_others: "transp (others i)"
  by (rule transpI) (auto simp: others_def)

text \<open>A call for the own record: it applies, or the record is gone or late.\<close>

lemma record_is_call:
  assumes "record_is ev k st co w" and "valid op" and "\<And>i. \<not> creates op i"
    and "\<And>r. view (wd_store w) (ev_request_id ev) = Some r \<Longrightarrow> sr_key_id r = k \<Longrightarrow> sr_status r = st \<Longrightarrow>
      sr_code r = co \<Longrightarrow> \<not> late ev r \<Longrightarrow>
      \<exists>r'. view (fst (apply_op ops op (wd_store w, wd_metrics w))) (ev_request_id ev) = Some r'
        \<and> same_identity r r' \<and> sr_status r' = st' \<and> sr_code r' = co'"
    and "wd_store w' = fst (apply_op ops op (wd_store w, wd_metrics w))"
  shows "record_is ev k st' co' w'"
proof -
  let ?x = "(wd_store w, wd_metrics w)" and ?i = "ev_request_id ev"
  have ok: "ok (fst ?x)" using assms(1) by (simp add: record_is_def)
  have ev: "evolves (view (wd_store w) ?i) (view (wd_store w') ?i)"
    using evolves_step [OF ok assms(2,3)] assms(5) by simp
  have ok': "ok (wd_store w')" using ok_step [OF ok assms(2)] assms(5) by simp
  show ?thesis
  proof (cases "view (wd_store w') ?i")
    case None
    with ok' show ?thesis by (simp add: record_is_def)
  next
    case (Some r')
    with ev obtain r where r: "view (wd_store w) ?i = Some r" "same_identity r r'"
      by (auto simp: evolves_Some_iff)
    with assms(1) have k: "sr_key_id r = k" "sr_status r = st \<and> sr_code r = co \<or> late ev r"
      by (auto simp: record_is_def)
    show ?thesis
    proof (cases "late ev r")
      case True
      with Some ok' r(2) k(1) show ?thesis by (simp add: record_is_def same_identity_def late_def)
    next
      case False
      with assms(4) [OF r(1) k(1)] k(2) Some assms(5) ok' k(1) show ?thesis
        by (auto simp: record_is_def same_identity_def)
    qed
  qed
qed

lemma record_is_update:
  assumes "record_is ev k st co w" and "\<not> is_terminal st"
    and "valid (Update_Status (ev_clock ev n) (ev_request_id ev) k u)"
  shows "record_is ev k (su_status u) (su_code u)
    (store_call (so_update_status ops (ev_clock ev n) (ev_request_id ev) k u) w)"
proof (rule record_is_call [OF assms(1,3)])
  fix r
  assume r: "view (wd_store w) (ev_request_id ev) = Some r" "sr_key_id r = k" "sr_status r = st" "\<not> late ev r"
  have "ok (fst (wd_store w, wd_metrics w))" using assms(1) by (simp add: record_is_def)
  from update_applies [OF this, of "ev_request_id ev" r "ev_clock ev n" u] r assms(2,3)
  show "\<exists>r'. view (fst (apply_op ops (Update_Status (ev_clock ev n) (ev_request_id ev) k u)
        (wd_store w, wd_metrics w))) (ev_request_id ev) = Some r'
      \<and> same_identity r r' \<and> sr_status r' = su_status u \<and> sr_code r' = su_code u"
    by (auto simp: late_def not_le simp del: apply_op.simps)
qed (simp_all add: store_after_call del: apply_op.simps)

lemma record_is_metadata:
  assumes "record_is ev k st co w"
    and "valid (Set_Metadata (ev_clock ev n) (ev_request_id ev) k ds c)"
  shows "record_is ev k st co
    (store_call (so_set_recipient_metadata ops (ev_clock ev n) (ev_request_id ev) k ds c) w)"
proof (rule record_is_call [OF assms(1,2)])
  fix r
  assume r: "view (wd_store w) (ev_request_id ev) = Some r" "sr_key_id r = k" "sr_status r = st" "sr_code r = co"
  have "ok (fst (wd_store w, wd_metrics w))" using assms(1) by (simp add: record_is_def)
  from metadata_keeps [OF this, of "ev_request_id ev" r "ev_clock ev n" ds c] r assms(2)
  show "\<exists>r'. view (fst (apply_op ops (Set_Metadata (ev_clock ev n) (ev_request_id ev) k ds c)
        (wd_store w, wd_metrics w))) (ev_request_id ev) = Some r'
      \<and> same_identity r r' \<and> sr_status r' = st \<and> sr_code r' = co"
    by (auto simp: same_outcome_def simp del: apply_op.simps)
qed (simp_all add: store_after_call del: apply_op.simps)

lemma record_is_put:
  assumes "ok (wd_store w)" and "view (wd_store w) (ev_request_id ev) = None"
    and "valid (Put_Received (new_received (ev_received ev) (ev_request_id ev) k ttl))"
  shows "record_is ev k Received None
    (store_call (so_put_received ops (new_received (ev_received ev) (ev_request_id ev) k ttl)) w)"
proof -
  let ?x = "(wd_store w, wd_metrics w)"
  let ?r = "new_received (ev_received ev) (ev_request_id ev) k ttl"
  have "view (fst (apply_op ops (Put_Received ?r) ?x)) (sr_request_id ?r) = Some ?r"
    using assms by (intro put_fresh) (simp_all only: fst_conv, simp_all add: new_received_def)
  then show ?thesis
    using ok_step [of ?x "Put_Received ?r"] assms(1,3)
    by (simp add: record_is_def store_after_call new_received_def del: apply_op.simps)
qed

subsection \<open>The send task under interference\<close>

text \<open>\<open>leads ev A t B\<close>: from \<open>A\<close>, whatever the other tasks do, \<open>t\<close> ends in \<open>B\<close>.\<close>

definition leads ::
  "send_env \<Rightarrow> ('a world \<Rightarrow> bool) \<Rightarrow> ('a world, 'r) task \<Rightarrow> ('r \<Rightarrow> 'a world \<Rightarrow> bool) \<Rightarrow> bool" where
  "leads ev A t B \<longleftrightarrow> (\<forall>w. A w \<longrightarrow> survives (others (ev_request_id ev)) B t w)"

lemma leads_Done: "(\<And>w. A w \<Longrightarrow> B r w) \<Longrightarrow> leads ev A (Done r) B"
  by (simp add: leads_def)

lemma leads_bind: "leads ev A t P \<Longrightarrow> (\<And>a. leads ev (P a) (h a) B) \<Longrightarrow> leads ev A (bind_task t h) B"
  unfolding leads_def by (blast intro: survives_bind)

lemma leads_then: "leads ev A t (\<lambda>_. P) \<Longrightarrow> leads ev P u B \<Longrightarrow> leads ev A (then_do t u) B"
  unfolding then_do_def by (rule leads_bind)

lemma leads_try:
  "leads ev A t P \<Longrightarrow> (\<And>a. leads ev (P (Inr a)) (h a) B) \<Longrightarrow> (\<And>e w. P (Inl e) w \<Longrightarrow> B (Inl e) w) \<Longrightarrow>
     leads ev A (try_task t h) B"
  unfolding try_task_def by (erule leads_bind) (auto intro: leads_Done split: sum.split)

abbreviation received :: "send_env \<Rightarrow> str \<Rightarrow> 'a world \<Rightarrow> bool" where
  "received ev k \<equiv> record_is ev k Received None"

lemma leads_quiet:
  "leads ev (record_is ev k st co) (metrics_do g) (\<lambda>_. record_is ev k st co)"
  "leads ev (record_is ev k st co) (limiter_do h) (\<lambda>_. record_is ev k st co)"
  "leads ev (record_is ev k st co) (transmit msg) (\<lambda>_. record_is ev k st co)"
  unfolding leads_def metrics_do_def limiter_do_def transmit_def
  by (auto intro!: survives_atomically dest: record_is_others split: prod.split)

lemma leads_put:
  assumes "calls_valid (ev_request_id ev) (ev_received ev) (ev_clock ev)"
  shows "leads ev (absent (ev_request_id ev))
    (store_do (so_put_received ops (new_received (ev_received ev) (ev_request_id ev) k ttl)))
    (\<lambda>_. record_is ev k Received None)"
  unfolding leads_def store_do_def using assms
  by (auto intro!: survives_atomically record_is_put simp: calls_valid_def others_def absent_def)

lemma leads_update:
  assumes "\<not> is_terminal st" and "valid (Update_Status (ev_clock ev n) (ev_request_id ev) k u)"
  shows "leads ev (record_is ev k st co) (store_do (so_update_status ops (ev_clock ev n) (ev_request_id ev) k u))
    (\<lambda>_. record_is ev k (su_status u) (su_code u))"
  unfolding leads_def store_do_def
  using record_is_update [OF record_is_others assms] by (auto intro!: survives_atomically)

lemma leads_metadata:
  assumes "valid (Set_Metadata (ev_clock ev n) (ev_request_id ev) k ds c)"
  shows "leads ev (record_is ev k st co)
    (store_do (so_set_recipient_metadata ops (ev_clock ev n) (ev_request_id ev) k ds c))
    (\<lambda>_. record_is ev k st co)"
  unfolding leads_def store_do_def
  using record_is_metadata [OF record_is_others assms] by (auto intro!: survives_atomically)

text \<open>After a step: the record of its error, or still the one of a received request.\<close>

definition so_far :: "send_env \<Rightarrow> str \<Rightarrow> app_error + 'r \<Rightarrow> 'a world \<Rightarrow> bool" where
  "so_far ev k r w \<longleftrightarrow>
     (case r of
        Inl e \<Rightarrow> record_is ev k (final_status (Inl e :: app_error + unit)) (final_code (Inl e :: app_error + unit)) w
      | Inr _ \<Rightarrow> received ev k w)"

definition matches :: "send_env \<Rightarrow> str \<Rightarrow> app_error + 'r \<Rightarrow> 'a world \<Rightarrow> bool" where
  "matches ev k r w \<longleftrightarrow> record_is ev k (final_status r) (final_code r) w"

lemma so_far_simps [simp]:
  "so_far ev k (Inr a) w = received ev k w"
  "so_far ev k (Inl e) w = record_is ev k (final_status (Inl e :: app_error + unit)) (final_code (Inl e :: app_error + unit)) w"
  by (simp_all add: so_far_def)

lemma so_far_matches: "so_far ev k (Inl e) w \<Longrightarrow> matches ev k (Inl e) w"
  by (simp add: matches_def final_status_def final_code_def)

lemma leads_reject:
  assumes "calls_valid (ev_request_id ev) (ev_received ev) (ev_clock ev)"
    and "app_error_code e = c" and "c \<noteq> Code_InternalError"
  shows "leads ev (received ev (ac_key_id auth)) (reject_do ops ev auth e)
    (\<lambda>_. record_is ev (ac_key_id auth) Rejected (Some c))"
  unfolding reject_do_def
  using leads_update [of Received ev 0 "ac_key_id auth" "\<lparr>su_status = Rejected,
      su_code = store_code_from_app_error e, su_message = None\<rparr>" None] assms
  by (simp add: store_code_from_app_error_def calls_valid_def)

lemma leads_reject_then:
  assumes "calls_valid (ev_request_id ev) (ev_received ev) (ev_clock ev)"
    and "leads ev (record_is ev (ac_key_id auth) Rejected (Some (app_error_code e))) u B"
    and "app_error_code e \<noteq> Code_InternalError"
  shows "leads ev (received ev (ac_key_id auth)) (then_do (reject_do ops ev auth e) u) B"
  using leads_then [OF leads_reject [OF assms(1) refl assms(3)] assms(2)] .

lemma leads_metrics_then:
  "leads ev (record_is ev k st co) u B \<Longrightarrow> leads ev (record_is ev k st co) (then_do (metrics_do g) u) B"
  by (rule leads_then [OF leads_quiet(1)])

lemma leads_after:
  "leads ev (received ev k) t B \<Longrightarrow> leads ev (so_far ev k (Inr a)) t B"
  by (simp add: leads_def)

lemma leads_payload:
  assumes v: "calls_valid (ev_request_id ev) (ev_received ev) (ev_clock ev)"
  shows "leads ev (received ev (ac_key_id auth)) (payload_task ops ev cfg auth) (so_far ev (ac_key_id auth))"
  unfolding payload_task_def Let_def
  by (auto intro!: leads_reject_then [OF v] leads_metrics_then leads_Done
      simp: final_status_def final_code_def split: option.split)

lemma leads_tier:
  assumes v: "calls_valid (ev_request_id ev) (ev_received ev) (ev_clock ev)"
  shows "leads ev (received ev (ac_key_id auth)) (tier_task ops ev auth tier check) (so_far ev (ac_key_id auth))"
  unfolding tier_task_def
  by (rule leads_bind [OF leads_quiet(2)])
     (auto intro!: leads_metrics_then leads_reject_then [OF v] leads_Done
       simp: final_status_def final_code_def split: sum.split)

lemma leads_rates:
  assumes v: "calls_valid (ev_request_id ev) (ev_received ev) (ev_clock ev)"
  shows "leads ev (received ev (ac_key_id auth)) (rates_task ops ev auth) (so_far ev (ac_key_id auth))"
proof -
  show ?thesis
    unfolding rates_task_def
    by (intro leads_try [OF leads_tier [OF v]] leads_try [OF leads_after [OF leads_tier [OF v]]]
        leads_after [OF leads_tier [OF v]]) simp_all
qed

lemma leads_build:
  assumes v: "calls_valid (ev_request_id ev) (ev_received ev) (ev_clock ev)"
  shows "leads ev (received ev (ac_key_id auth)) (build_task X ops ev cfg auth payload) (so_far ev (ac_key_id auth))"
proof (cases "validate_mail_request X payload cfg auth")
  case (Inl e)
  have "client_fault e" using faults_only_validate [of X payload cfg auth] Inl by (simp add: faults_only_def)
  then have "record_is ev (ac_key_id auth) Rejected (Some Code_ValidationFailed) w
      \<Longrightarrow> so_far ev (ac_key_id auth) (Inl e :: app_error + message) w" for w
    by (auto simp: client_fault_def final_status_def final_code_def)
  then show ?thesis
    unfolding build_task_def Inl sum.case
    by (intro leads_metrics_then leads_reject_then [OF v] leads_Done) simp_all
next
  case (Inr validated)
  have meta: "leads ev (received ev k) (store_do (so_set_recipient_metadata ops (ev_clock ev n) (ev_request_id ev) k ds c))
      (\<lambda>_. received ev k)" for k n ds c
    using v by (intro leads_metadata) (simp add: calls_valid_def)
  show ?thesis
  proof (cases "build_message X (ev_finish ev) validated cfg")
    case (Inr message)
    then show ?thesis
      unfolding build_task_def \<open>validate_mail_request X payload cfg auth = Inr validated\<close> sum.case
      by (auto intro!: leads_then [OF meta] leads_Done)
  next
    case (Inl e)
    then have "e = Internal" by (rule build_message_Inl)
    then show ?thesis
      using leads_update [of Received ev 2 "ac_key_id auth" "\<lparr>su_status = Rejected,
          su_code = Some Code_InternalError, su_message = Some ''Failed to build mail message.''\<rparr>" None] v
      unfolding build_task_def \<open>validate_mail_request X payload cfg auth = Inr validated\<close> Inl sum.case
      by (intro leads_then [OF meta] leads_then [OF _ leads_then [OF leads_quiet(1) leads_Done]])
         (simp_all add: final_status_def final_code_def calls_valid_def)
  qed
qed

lemma leads_submit:
  assumes v: "calls_valid (ev_request_id ev) (ev_received ev) (ev_clock ev)"
  shows "leads ev (received ev (ac_key_id auth)) (submit_task ops ev auth message) (matches ev (ac_key_id auth))"
proof -
  let ?k = "ac_key_id auth"
  have start: "leads ev (received ev ?k) (store_do (so_update_status ops (ev_clock ev 3) (ev_request_id ev) ?k
      \<lparr>su_status = SmtpSubmissionStarted, su_code = None, su_message = None\<rparr>))
      (\<lambda>_. record_is ev ?k SmtpSubmissionStarted None)"
    using leads_update [of Received ev 3 ?k "\<lparr>su_status = SmtpSubmissionStarted, su_code = None,
        su_message = None\<rparr>" None] v by (simp add: calls_valid_def)
  have last: "leads ev (record_is ev ?k SmtpSubmissionStarted None)
      (store_do (so_update_status ops (ev_clock ev 4) (ev_request_id ev) ?k u))
      (\<lambda>_. record_is ev ?k (su_status u) (su_code u))" for u
    using v by (intro leads_update) (simp_all add: calls_valid_def)
  show ?thesis
  proof (cases "submit (ev_outcome ev message)")
    case (Inr u)
    then show ?thesis
      unfolding submit_task_def Inr sum.case
      by (intro leads_then [OF start] leads_then [OF leads_quiet(3)] leads_then [OF leads_quiet(1)]
          leads_then [OF last] leads_Done)
         (simp add: matches_def final_status_def final_code_def)
  next
    case (Inl e)
    from submit_Inl [OF this] show ?thesis
      unfolding submit_task_def Inl sum.case
      by (intro leads_then [OF start] leads_then [OF leads_quiet(3)] leads_then [OF leads_quiet(1)]
          leads_then [OF last] leads_Done)
         (auto simp: matches_def final_status_def final_code_def smtp_error_code_def)
  qed
qed

lemma leads_send_task:
  assumes v: "calls_valid (ev_request_id ev) (ev_received ev) (ev_clock ev)"
  shows "leads ev (absent (ev_request_id ev))
    (send_task X ops ev cfg auth) (\<lambda>r. matches ev (ac_key_id auth) (map_sum re_source id r))"
proof -
  let ?k = "ac_key_id auth"
  have steps: "leads ev (received ev ?k) (try_task (payload_task ops ev cfg auth) (\<lambda>payload.
      try_task (rates_task ops ev auth) (\<lambda>_.
      try_task (build_task X ops ev cfg auth payload) (\<lambda>message. submit_task ops ev auth message))))
      (matches ev ?k)"
    by (rule leads_try [OF leads_payload [OF v]], rule leads_try [OF leads_after [OF leads_rates [OF v]]],
        rule leads_try [OF leads_after [OF leads_build [OF v]]], rule leads_after [OF leads_submit [OF v]])
       (erule so_far_matches)+
  have "map_sum re_source id (map_sum (request_err ev) id r) = r" for r :: "app_error + http_reply"
    by (cases r) (simp_all add: request_err_def)
  then show ?thesis
    unfolding send_task_def by (intro leads_then [OF leads_put [OF v]] leads_bind [OF steps] leads_Done) simp
qed

subsection \<open>The answers of the server\<close>

definition process_others :: "app_config set \<Rightarrow> request_id \<Rightarrow> 'a process \<Rightarrow> 'a process \<Rightarrow> bool" where
  "process_others V i p p' \<longleftrightarrow> others i (pr_world p) (pr_world p') \<and> pr_config p' \<in> V"

abbreviation fresh :: "request_id \<Rightarrow> 'a process \<Rightarrow> bool" where
  "fresh i p \<equiv> absent i (pr_world p)"

lemma transp_process_others: "transp (process_others V i)"
  using transp_others [of i] by (auto simp: process_others_def transp_def)

lemma fresh_stable: "fresh i p \<Longrightarrow> process_others V i p p' \<Longrightarrow> fresh i p'"
  unfolding process_others_def by (blast intro: absent_others)

lemma survives_on_world:
  assumes "survives (others i) P t (pr_world p)"
  shows "survives (process_others V i) (\<lambda>r p'. P r (pr_world p')) (on_world t) p"
  unfolding on_world_def
  by (rule survives_on_part [where R = "others i"], simp_all add: process_others_def)
     (rule survives_mono [OF assms], simp)

lemma survives_read_config:
  "fresh i p \<Longrightarrow> survives (process_others V i) (\<lambda>cfg p'. fresh i p' \<and> cfg \<in> V) read_config p"
  unfolding read_config_def by (rule survives_atomically) (auto simp: fresh_stable process_others_def intro: absent_others)

lemma survives_auth:
  assumes "fresh i p"
  shows "survives (process_others V i)
    (\<lambda>r p'. fresh i p' \<and> (\<forall>auth. r = Inr auth \<longrightarrow> (\<exists>c\<in>V. \<exists>m. fst (authenticate X c parts m) = Inr auth)))
    (auth_task X parts) p"
  unfolding auth_task_def
proof (rule survives_bind [OF survives_read_config [OF assms]])
  fix cfg and p' :: "'a process"
  assume p': "fresh i p' \<and> cfg \<in> V"
  show "survives (process_others V i)
    (\<lambda>r p'. fresh i p' \<and> (\<forall>auth. r = Inr auth \<longrightarrow> (\<exists>c\<in>V. \<exists>m. fst (authenticate X c parts m) = Inr auth)))
    (on_world (atomically (\<lambda>w. case authenticate X cfg parts (wd_metrics w) of (r, m) \<Rightarrow> (r, w\<lparr>wd_metrics := m\<rparr>)))) p'"
    unfolding on_world_def atomically_def
    using fresh_stable [OF conjunct1 [OF p']] p' by (auto simp: absent_def split: prod.split) (metis fst_conv)+
qed

text \<open>A handler behind the extractor runs for the key that was authenticated.\<close>

lemma survives_authenticated:
  assumes "fresh i p" and "\<And>resp p. Q (Refused resp) p"
    and "\<And>cfg auth c m p. c \<in> V \<Longrightarrow> fresh i p \<Longrightarrow> fst (authenticate X c parts m) = Inr auth \<Longrightarrow>
      survives (process_others V i) Q (handler cfg auth) p"
  shows "survives (process_others V i) Q (authenticated X parts handler) p"
  unfolding authenticated_def
proof (rule survives_bind [OF survives_auth [OF assms(1)]])
  fix r :: "response + auth_context" and p' :: "'a process"
  assume r: "fresh i p' \<and> (\<forall>auth. r = Inr auth \<longrightarrow> (\<exists>c\<in>V. \<exists>m. fst (authenticate X c parts m) = Inr auth))"
  show "survives (process_others V i) Q (case r of Inl resp \<Rightarrow> Done (Refused resp)
      | Inr auth \<Rightarrow> bind_task read_config (\<lambda>cfg. handler cfg auth)) p'"
  proof (cases r)
    case (Inr auth)
    with r obtain c m where auth: "c \<in> V" "fst (authenticate X c parts m) = Inr auth" by blast
    have "survives (process_others V i) Q (bind_task read_config (\<lambda>cfg. handler cfg auth)) p'"
      by (rule survives_bind [OF survives_read_config]) (use r in blast, rule assms(3) [OF auth(1) _ auth(2)], blast)
    with Inr show ?thesis by simp
  qed (simp add: assms(2))
qed

text \<open>
  \<open>A e i o p\<close>: what the outcome \<open>o\<close> of the event \<open>e\<close> says about the record of its id \<open>i\<close>.
  The other tasks, and the reloads among them, keep the configuration in \<open>V\<close>.
  \<open>tracks\<close>: a task that starts ends in \<open>A\<close> whatever the other tasks do, which then keep it.
\<close>

definition tracks ::
  "app_config set \<Rightarrow> server_env \<Rightarrow> (event \<Rightarrow> request_id \<Rightarrow> outcome \<Rightarrow> 'a process \<Rightarrow> bool) \<Rightarrow> bool" where
  "tracks V env A \<longleftrightarrow>
     (\<forall>e i p. A e i Dropped p)
     \<and> (\<forall>e i o' p p'. A e i o' p \<longrightarrow> process_others V i p p' \<longrightarrow> A e i o' p')
     \<and> (\<forall>e i bulk p. event_valid e \<longrightarrow> distinct (event_ids e) \<longrightarrow> i \<in> set (event_ids e) \<longrightarrow> fresh i p \<longrightarrow>
          survives (process_others V i) (A e i) (event_task env ops bulk e) p)"

definition answers_ok ::
  "app_config set \<Rightarrow> (event \<Rightarrow> request_id \<Rightarrow> outcome \<Rightarrow> 'a process \<Rightarrow> bool) \<Rightarrow> 'a server \<Rightarrow> bool" where
  "answers_ok V A s \<longleftrightarrow>
     (\<forall>n < length (srv_tasks s). \<forall>i \<in> set (event_ids (fst (srv_tasks s ! n))).
        survives (process_others V i) (A (fst (srv_tasks s ! n)) i) (snd (srv_tasks s ! n)) (srv_process s))"

text \<open>A task that does not run keeps its promise.\<close>

lemma answers_ok_keep:
  assumes "answers_ok V A s" and "tracks V env A" and "server_ok D s" and "server_step env ops l s = Some s'"
    and "\<And>e. l = Arrive e \<Longrightarrow> event_valid e"
    and "n < length (srv_tasks s)" and "i \<in> set (event_ids (fst (srv_tasks s ! n)))"
    and "\<And>m. l = Run m \<Longrightarrow> i \<notin> set (event_ids (fst (srv_tasks s ! m)))"
    and in_V: "pr_config (srv_process s') \<in> V"
  shows "survives (process_others V i) (A (fst (srv_tasks s ! n)) i) (snd (srv_tasks s ! n)) (srv_process s')"
proof (rule survives_stable [OF transp_process_others])
  show "survives (process_others V i) (A (fst (srv_tasks s ! n)) i) (snd (srv_tasks s ! n)) (srv_process s)"
    using assms(1,6,7) by (simp add: answers_ok_def)
  have "ok (wd_store (pr_world (srv_process s')))" using server_ok_step(1) [OF assms(3-5)] by (simp add: server_ok_def)
  then show "process_others V i (srv_process s) (srv_process s')"
    using server_ok_step(3) [OF assms(3,4), of i] assms(5,8) in_V by (simp add: process_others_def others_def)
qed (use assms(2) in \<open>simp add: tracks_def\<close>)

lemma answers_ok_step:
  assumes "answers_ok V A s" and "tracks V env A" and "server_ok D s" and "server_step env ops l s = Some s'"
    and "\<And>e. l = Arrive e \<Longrightarrow> event_valid e"
    and in_V: "pr_config (srv_process s) \<in> V" "pr_config (srv_process s') \<in> V"
  shows "answers_ok V A s'"
  unfolding answers_ok_def
proof (intro allI impI ballI)
  fix n i
  assume n: "n < length (srv_tasks s')" and i: "i \<in> set (event_ids (fst (srv_tasks s' ! n)))"
  have keep: "survives (process_others V i) (A (fst (srv_tasks s ! n)) i) (snd (srv_tasks s ! n)) (srv_process s')"
    if "n < length (srv_tasks s)" "i \<in> set (event_ids (fst (srv_tasks s ! n)))"
      "\<And>m. l = Run m \<Longrightarrow> i \<notin> set (event_ids (fst (srv_tasks s ! m)))"
    using answers_ok_keep [OF assms(1-5) that in_V(2)] .
  from assms(4) show "survives (process_others V i) (A (fst (srv_tasks s' ! n)) i) (snd (srv_tasks s' ! n)) (srv_process s')"
  proof (cases rule: server_step_cases)
    case (arrive e')
    show ?thesis
    proof (cases "n = length (srv_tasks s)")
      case True
      with i arrive have i': "i \<in> set (event_ids e')" by simp
      then have "fresh i (srv_process s)"
        using arrive(3) assms(3) by (auto simp: absent_def server_ok_def)
      moreover have "distinct (event_ids e')" using assms(4) arrive(1) by (simp split: if_splits)
      ultimately show ?thesis
        using assms(2) assms(5) [OF arrive(1)] i' True arrive by (simp add: tracks_def)
    next
      case False
      with n arrive have "n < length (srv_tasks s)" by simp
      with keep i arrive show ?thesis by (simp add: nth_append)
    qed
  next
    case (run m e' g k)
    show ?thesis
    proof (cases "n = m")
      case True
      have "survives (process_others V i) (A e' i) (Atomic g k) (srv_process s)"
        using assms(1) run True i by (force simp: answers_ok_def)
      moreover have "process_others V i (srv_process s) (srv_process s)"
        using assms(3) in_V(1) by (simp add: process_others_def others_def server_ok_def)
      ultimately show ?thesis using run True by simp
    next
      case False
      then have t: "srv_tasks s' ! n = srv_tasks s ! n" and n': "n < length (srv_tasks s)"
        using run n by simp_all
      have "set (event_ids (fst (srv_tasks s ! m))) \<inter> set (event_ids (fst (srv_tasks s ! n))) = {}"
        using assms(3) run(2) n' False by (simp add: server_ok_def)
      then have "i \<notin> set (event_ids (fst (srv_tasks s ! m)))" using i t by auto
      with keep [OF n'] i t run(1) show ?thesis by simp
    qed
  next
    case (drop m e' g k)
    then have "length (srv_tasks s') = length (srv_tasks s)" by simp
    with keep [OF _ _] i n drop assms(2) show ?thesis
      by (cases "n = m") (auto simp: tracks_def)
  qed
qed

lemma answers_run:
  assumes "reaches env ops s s'" and "server_ok D s" and "all_valid s'" and "tracks V env A" and "answers_ok V A s"
    and "pr_config (srv_process s) \<in> set (srv_configs s)" and "set (srv_configs s') \<subseteq> V"
  shows "answers_ok V A s'"
  using assms(1,3,7)
proof (induction rule: reaches.induct)
  case here
  then show ?case using assms(5) by simp
next
  case (there s' l s'')
  have sub: "fst ` set (srv_tasks s'') = fst ` set (srv_tasks s') \<union> (case l of Arrive e \<Rightarrow> {e} | _ \<Rightarrow> {})"
    by (rule step_events [OF there.hyps(2)])
  then have v: "all_valid s'" and new: "\<And>e. l = Arrive e \<Longrightarrow> event_valid e"
    using there.prems by (auto simp: all_valid_def)
  have V: "set (srv_configs s') \<subseteq> V" using server_step_configs [OF there.hyps(2)] there.prems(2) by blast
  have "pr_config (srv_process s') \<in> V" "pr_config (srv_process s'') \<in> V"
    using reaches_config_in [OF there.hyps(1) assms(6)] V
      reaches_config_in [OF reaches.there [OF there.hyps] assms(6)] there.prems(2) by blast+
  moreover have "server_ok D s'" using server_run [OF there.hyps(1) assms(2) v] by blast
  ultimately show ?case using answers_ok_step [OF there.IH [OF v V] assms(4) _ there.hyps(2) new] by blast
qed

lemma answered:
  assumes "reaches env ops s s'" and "server_ok D s" and "all_valid s'" and "srv_tasks s = []"
    and "pr_config (srv_process s) \<in> set (srv_configs s)"
    and "tracks (set (srv_configs s')) env A" and "(e, Done o') \<in> set (srv_tasks s')" and "i \<in> set (event_ids e)"
  shows "A e i o' (srv_process s')"
proof -
  have "answers_ok (set (srv_configs s')) A s'"
    using answers_run [OF assms(1-3,6) _ assms(5)] assms(4) by (simp add: answers_ok_def)
  moreover from assms(7) obtain n where "n < length (srv_tasks s')" "srv_tasks s' ! n = (e, Done o')"
    by (auto simp: in_set_conv_nth)
  ultimately show ?thesis using assms(8) unfolding answers_ok_def by fastforce
qed

subsection \<open>The answers to send requests\<close>

text \<open>An answer of the handler agrees with the record of the authenticated key.\<close>

definition send_answer_ok :: "app_config set \<Rightarrow> externals \<Rightarrow> event \<Rightarrow> request_id \<Rightarrow> outcome \<Rightarrow> 'a process \<Rightarrow> bool" where
  "send_answer_ok V X e i o' p \<longleftrightarrow>
     (\<forall>parts ev r. e = Http_Send parts ev \<longrightarrow> ev_request_id ev = i \<longrightarrow> o' = Send_Reply r \<longrightarrow>
        (\<exists>c\<in>V. \<exists>m auth. fst (authenticate X c parts m) = Inr auth
           \<and> matches ev (ac_key_id auth) (map_sum re_source id r) (pr_world p)))"

lemma send_answer_stable:
  "send_answer_ok V X e i o' p \<Longrightarrow> process_others V i p p' \<Longrightarrow> send_answer_ok V X e i o' p'"
  unfolding send_answer_ok_def process_others_def matches_def by (blast intro: record_is_others)

lemma survives_send_event:
  assumes "calls_valid (ev_request_id ev) (ev_received ev) (ev_clock ev)" and "fresh (ev_request_id ev) p"
  shows "survives (process_others V (ev_request_id ev))
    (send_answer_ok V (sn_externals env) (Http_Send parts ev) (ev_request_id ev))
    (event_task env ops bulk (Http_Send parts ev)) p"
  unfolding event_task_def Let_def event.case
proof (rule survives_authenticated [OF assms(2)])
  fix cfg auth c m and p :: "'a process"
  assume p: "fresh (ev_request_id ev) p" and auth: "c \<in> V" "fst (authenticate (sn_externals env) c parts m) = Inr auth"
  have "survives (others (ev_request_id ev)) (\<lambda>r. matches ev (ac_key_id auth) (map_sum re_source id r))
      (send_task (sn_externals env) ops ev cfg auth) (pr_world p)"
    using leads_send_task [OF assms(1)] p by (simp add: leads_def)
  from survives_on_world [OF this]
  show "survives (process_others V (ev_request_id ev))
      (send_answer_ok V (sn_externals env) (Http_Send parts ev) (ev_request_id ev))
      (bind_task (on_world (send_task (sn_externals env) ops ev cfg auth)) (\<lambda>r. Done (Send_Reply r))) p"
    by (rule survives_bind) (use auth in \<open>auto simp: send_answer_ok_def\<close>)
qed (simp add: send_answer_ok_def)

lemma tracks_send: "tracks V env (send_answer_ok V (sn_externals env))"
  unfolding tracks_def
proof (intro conjI allI impI)
  fix e i bulk p
  assume e: "event_valid e" "i \<in> set (event_ids e)" "fresh i p"
  show "survives (process_others V i) (send_answer_ok V (sn_externals env) e i) (event_task env ops bulk e) p"
  proof (cases "\<exists>parts ev. e = Http_Send parts ev")
    case True
    then obtain parts ev where "e = Http_Send parts ev" by blast
    with e survives_send_event [of ev p V env parts bulk] show ?thesis by (simp add: event_valid_def)
  next
    case False
    then show ?thesis by (intro survives_vacuous) (simp add: send_answer_ok_def)
  qed
qed (simp add: send_answer_ok_def, erule send_answer_stable)

text \<open>A request that has been answered: its record agrees with the answer, or is gone or late.\<close>

lemma server_answer_recorded:
  assumes "reaches env ops s s'" and "server_ok D s" and "all_valid s'" and "srv_tasks s = []"
    and "pr_config (srv_process s) \<in> set (srv_configs s)"
    and "(Http_Send p ev, Done (Send_Reply res)) \<in> set (srv_tasks s')"
    and "server_view s' (ev_request_id ev) = Some r" and "\<not> late ev r"
  shows "\<exists>c \<in> set (srv_configs s'). \<exists>m auth. fst (authenticate (sn_externals env) c p m) = Inr auth \<and> sr_key_id r = ac_key_id auth
    \<and> sr_status r = final_status (map_sum re_source id res) \<and> sr_code r = final_code (map_sum re_source id res)"
proof -
  have "send_answer_ok (set (srv_configs s')) (sn_externals env) (Http_Send p ev) (ev_request_id ev) (Send_Reply res) (srv_process s')"
    by (rule answered [OF assms(1-5) tracks_send assms(6)]) simp
  with assms(7,8) show ?thesis by (auto simp: send_answer_ok_def matches_def record_is_def)
qed

end

end
