(* ===== verification/Server_Final.thy ===== *)
theory Server_Final
  imports Server_Record Status_Memory_Props
begin

text \<open>
  A record in a terminal state is never changed again, not even the time of its last
  change. No store gives that alone: a call of \<open>set_recipient_metadata\<close> changes the time
  and the recipients of a terminal record too. But no handler makes this call for a
  record once it has updated the record's status, and no other task makes it at all.
\<close>

subsection \<open>The contract\<close>

fun describes :: "store_op \<Rightarrow> request_id \<Rightarrow> bool" where
  "describes (Set_Metadata clk j k ds n) i \<longleftrightarrow> i = j"
| "describes op i \<longleftrightarrow> False"

fun updates :: "store_op \<Rightarrow> request_id \<Rightarrow> bool" where
  "updates (Update_Status clk j k u) i \<longleftrightarrow> i = j"
| "updates op i \<longleftrightarrow> False"

text \<open>The calls that create a record create one that is not terminal.\<close>

fun opens :: "store_op \<Rightarrow> bool" where
  "opens (Put_Received r) \<longleftrightarrow> \<not> is_terminal (sr_status r)"
| "opens op \<longleftrightarrow> True"

locale freezing_store = tracking_store +
  assumes keeps_terminal:
      "ok (fst x) \<Longrightarrow> valid op \<Longrightarrow> view (fst x) i = Some r \<Longrightarrow> is_terminal (sr_status r) \<Longrightarrow>
         \<not> describes op i \<Longrightarrow> view (fst (apply_op ops op x)) i \<in> {Some r, None}"
    and keeps_status:
      "ok (fst x) \<Longrightarrow> valid op \<Longrightarrow> view (fst x) i = Some r \<Longrightarrow> \<not> updates op i \<Longrightarrow>
         view (fst (apply_op ops op x)) i = Some r' \<Longrightarrow> sr_status r' = sr_status r"
begin

subsection \<open>The tasks\<close>

definition open_at :: "request_id \<Rightarrow> 'a world \<Rightarrow> bool" where
  "open_at i w \<longleftrightarrow> (\<forall>r. view (wd_store w) i = Some r \<longrightarrow> \<not> is_terminal (sr_status r))"

text \<open>
  The ghost state says whether the task may still describe the record of \<open>i\<close>, which it
  may not once it has updated it.
\<close>

definition freezing_step :: "request_id \<Rightarrow> bool \<Rightarrow> 'a world \<Rightarrow> 'a world \<Rightarrow> bool \<Rightarrow> bool" where
  "freezing_step i b w w' b' \<longleftrightarrow>
     (b' \<longrightarrow> b)
     \<and> (wd_store w' = wd_store w
        \<or> (\<exists>op m. valid op \<and> opens op \<and> (describes op i \<longrightarrow> b) \<and> (updates op i \<longrightarrow> \<not> b')
             \<and> wd_store w' = fst (apply_op ops op (wd_store w, m))))"

text \<open>What such a step does to the record.\<close>

lemma freezing_step_effect:
  assumes "freezing_step i b w w' b'" and "ok (wd_store w)" and "b \<longrightarrow> open_at i w"
  shows "b' \<longrightarrow> open_at i w'"
    and "view (wd_store w) i = Some r \<Longrightarrow> is_terminal (sr_status r) \<Longrightarrow> view (wd_store w') i \<in> {Some r, None}"
proof -
  have "(b' \<longrightarrow> open_at i w')
    \<and> (view (wd_store w) i = Some r \<longrightarrow> is_terminal (sr_status r) \<longrightarrow> view (wd_store w') i \<in> {Some r, None})" for r
  proof (cases "wd_store w' = wd_store w")
    case True
    with assms(1,3) show ?thesis by (simp add: freezing_step_def open_at_def)
  next
    case False
    with assms(1) obtain op m where op: "valid op" "opens op" "describes op i \<longrightarrow> b" "updates op i \<longrightarrow> \<not> b'"
      "wd_store w' = fst (apply_op ops op (wd_store w, m))" and b: "b' \<longrightarrow> b"
      unfolding freezing_step_def by blast
    let ?x = "(wd_store w, m)"
    have ok: "ok (fst ?x)" using assms(2) by simp
    have "open_at i w'" if b'
    proof (cases "view (wd_store w) i")
      case None
      show ?thesis
      proof (cases "creates op i")
        case True
        then obtain q where q: "op = Put_Received q" "sr_request_id q = i" by (cases op) auto
        have "view (fst (apply_op ops (Put_Received q) ?x)) (sr_request_id q) = Some q"
          by (rule put_fresh [OF ok]) (use op(1) q None in auto)
        with q op(2,5) show ?thesis by (simp add: open_at_def del: apply_op.simps)
      next
        case False
        from evolves_step [OF ok op(1) this] None op(5) show ?thesis
          by (cases "view (wd_store w') i") (simp_all add: open_at_def evolves_Some_iff)
      qed
    next
      case (Some q)
      with that b assms(3) have "\<not> is_terminal (sr_status q)" by (simp add: open_at_def)
      moreover have "sr_status q' = sr_status q" if "view (wd_store w') i = Some q'" for q'
        using keeps_status [OF ok op(1), of i q q'] Some op(4,5) \<open>b'\<close> that by simp
      ultimately show ?thesis by (auto simp: open_at_def)
    qed
    moreover have "view (wd_store w') i \<in> {Some r, None}"
      if "view (wd_store w) i = Some r" "is_terminal (sr_status r)"
      using keeps_terminal [OF ok op(1), of i r] that assms(3) op(3,5) by (auto simp: open_at_def)
    ultimately show ?thesis by blast
  qed
  then show "b' \<longrightarrow> open_at i w'"
    and "view (wd_store w) i = Some r \<Longrightarrow> is_terminal (sr_status r) \<Longrightarrow> view (wd_store w') i \<in> {Some r, None}"
    by blast+
qed

definition freezing_task ::
  "request_id \<Rightarrow> bool \<Rightarrow> ('r \<Rightarrow> bool \<Rightarrow> bool) \<Rightarrow> ('a world, 'r) task \<Rightarrow> bool" where
  "freezing_task i b P t \<longleftrightarrow> sections (\<lambda>_. True) (freezing_step i) P t b"

lemma freezing_Done [simp]: "freezing_task i b P (Done r) = P r b"
  by (simp add: freezing_task_def)

lemma freezing_bind:
  "freezing_task i b P t \<Longrightarrow> (\<And>a b. P a b \<Longrightarrow> freezing_task i b Q (h a)) \<Longrightarrow> freezing_task i b Q (bind_task t h)"
  unfolding freezing_task_def by (rule sections_bind)

lemma freezing_then:
  "freezing_task i b (\<lambda>_ b'. b' = d) t \<Longrightarrow> freezing_task i d Q u \<Longrightarrow> freezing_task i b Q (then_do t u)"
  unfolding then_do_def by (rule freezing_bind [where P = "\<lambda>_ b'. b' = d"]) simp_all

lemma freezing_try:
  "freezing_task i b P t \<Longrightarrow> (\<And>a b. P (Inr a) b \<Longrightarrow> freezing_task i b Q (h a)) \<Longrightarrow>
     (\<And>e b. P (Inl e) b \<Longrightarrow> Q (Inl e) b) \<Longrightarrow> freezing_task i b Q (try_task t h)"
  unfolding freezing_task_def by (rule sections_try)

lemma freezing_quiet [simp]:
  "freezing_task i b (\<lambda>_ b'. b' = b) (metrics_do g)"
  "freezing_task i b (\<lambda>_ b'. b' = b) (limiter_do h)"
  "freezing_task i b (\<lambda>_ b'. b' = b) (transmit msg)"
  unfolding freezing_task_def metrics_do_def limiter_do_def transmit_def
  by (auto intro!: sections_atomically simp: freezing_step_def split: prod.split)

lemma freezing_call:
  assumes "\<And>x. fst (snd (f x)) = fst (apply_op ops op x)" and "valid op" and "opens op"
    and "describes op i \<longrightarrow> b" and "updates op i \<longrightarrow> \<not> b'" and "b' \<longrightarrow> b"
  shows "freezing_task i b (\<lambda>_ d. d = b') (store_do f)"
proof -
  have "wd_store (snd (with_store f w)) = fst (apply_op ops op (wd_store w, wd_metrics w))" for w
    using assms(1) [of "(wd_store w, wd_metrics w)"]
    by (cases "f (wd_store w, wd_metrics w)") (simp add: with_store_def)
  then show ?thesis
    unfolding freezing_task_def store_do_def using assms(2-6)
    by (intro sections_atomically exI [of _ b']) (auto simp: freezing_step_def)
qed

lemma freezing_update:
  "valid (Update_Status clk j k u) \<Longrightarrow> (i = j \<longrightarrow> \<not> b') \<Longrightarrow> (b' \<longrightarrow> b) \<Longrightarrow>
     freezing_task i b (\<lambda>_ d. d = b') (store_do (so_update_status ops clk j k u))"
  by (rule freezing_call [where op = "Update_Status clk j k u"]) simp_all

lemma freezing_metadata:
  "valid (Set_Metadata clk j k ds n) \<Longrightarrow> (i = j \<longrightarrow> b) \<Longrightarrow>
     freezing_task i b (\<lambda>_ d. d = b) (store_do (so_set_recipient_metadata ops clk j k ds n))"
  by (rule freezing_call [where op = "Set_Metadata clk j k ds n"]) simp_all

lemma freezing_put:
  "valid (Put_Received (new_received now j key ttl)) \<Longrightarrow>
     freezing_task i b (\<lambda>_ d. d = b) (store_do (so_put_received ops (new_received now j key ttl)))"
  by (rule freezing_call [where op = "Put_Received (new_received now j key ttl)"])
     (simp_all add: new_received_def)

text \<open>A step that fails has updated the record, one that goes on has not.\<close>

abbreviation still_open :: "'e + 'r \<Rightarrow> bool \<Rightarrow> bool" where
  "still_open r b \<equiv> b = (\<exists>a. r = Inr a)"

lemma freezing_try_open:
  assumes "freezing_task i True still_open t" and "\<And>a. freezing_task i True Q (h a)" and "\<And>e. Q (Inl e) False"
  shows "freezing_task i True Q (try_task t h)"
  by (rule freezing_try [OF assms(1)]) (auto simp: assms(2,3))

lemma freezing_send_task:
  assumes v: "calls_valid (ev_request_id ev) (ev_received ev) (ev_clock ev)"
  shows "freezing_task (ev_request_id ev) True (\<lambda>_ _. True) (send_task X ops ev cfg auth)"
proof -
  let ?i = "ev_request_id ev"
  have put: "freezing_task ?i b (\<lambda>_ d. d = b) (store_do (so_put_received ops (new_received (ev_received ev) ?i key ttl)))"
    for b key ttl using v by (intro freezing_put) (simp add: calls_valid_def)
  have upd: "freezing_task ?i b (\<lambda>_ d. d = False) (store_do (so_update_status ops (ev_clock ev n) ?i key u))"
    for b n key u using v by (intro freezing_update) (simp_all add: calls_valid_def)
  have meta: "freezing_task ?i True (\<lambda>_ d. d = True) (store_do (so_set_recipient_metadata ops (ev_clock ev n) ?i key ds c))"
    for n key ds c using v freezing_metadata [of "ev_clock ev n" ?i key ds c ?i True] by (simp add: calls_valid_def)
  note intros = freezing_then [OF upd] freezing_then [OF meta] freezing_then [OF freezing_quiet(1)]
    freezing_then [OF freezing_quiet(3)]
  have pay: "freezing_task ?i True still_open (payload_task ops ev cfg auth)"
    unfolding payload_task_def Let_def reject_do_def by (auto intro!: intros split: option.split)
  have tier: "freezing_task ?i True still_open (tier_task ops ev auth tier check)" for tier check
    unfolding tier_task_def reject_do_def
    by (rule freezing_bind [OF freezing_quiet(2)]) (auto intro!: intros split: sum.split)
  have rates: "freezing_task ?i True still_open (rates_task ops ev auth)"
    unfolding rates_task_def
    by (rule freezing_try_open [OF tier freezing_try_open [OF tier tier]]) simp_all
  have build: "freezing_task ?i True (\<lambda>_ _. True) (build_task X ops ev cfg auth payload)" for payload
    unfolding build_task_def reject_do_def by (auto intro!: intros split: sum.split)
  have submit: "freezing_task ?i b (\<lambda>_ _. True) (submit_task ops ev auth msg)" for b msg
    unfolding submit_task_def by (auto intro!: intros split: sum.split)
  have steps: "freezing_task ?i True (\<lambda>_ _. True) (try_task (payload_task ops ev cfg auth) (\<lambda>payload.
      try_task (rates_task ops ev auth) (\<lambda>_.
      try_task (build_task X ops ev cfg auth payload) (\<lambda>message. submit_task ops ev auth message))))"
    by (rule freezing_try_open [OF pay freezing_try_open [OF rates freezing_try [OF build submit]]]) simp_all
  show ?thesis
    unfolding send_task_def by (rule freezing_then [OF put], rule freezing_bind [OF steps]) simp
qed

text \<open>Phase 1 of a bulk request: the records of other messages do not count.\<close>

lemma freezing_phase1_task:
  assumes v: "bulk_valid W be" and W: "be_ids be index \<in> W" and b: "be_ids be index = i \<Longrightarrow> b"
  shows "freezing_task i b (\<lambda>r b'. (be_ids be index \<noteq> i \<longrightarrow> b' = b) \<and> (\<forall>p. r = Inr p \<longrightarrow> pm_req_id p \<in> W))
    (phase1_task X ops be cfg auth index raw)"
proof -
  let ?j = "be_ids be index"
  let ?c = "b \<and> i \<noteq> ?j"
  have put: "freezing_task i b (\<lambda>_ d. d = b) (store_do (so_put_received ops (new_received (be_received be index) ?j key ttl)))"
    for key ttl using v W by (intro freezing_put) (simp add: bulk_valid_def calls_valid_def)
  have upd: "freezing_task i b (\<lambda>_ d. d = ?c) (bulk_update_do ops (be_clock be index n) ?j key st c msg)" for n key st c msg
    unfolding bulk_update_do_def using v W
    by (intro freezing_update) (simp_all add: bulk_valid_def calls_valid_def)
  have meta: "freezing_task i b (\<lambda>_ d. d = b) (store_do (so_set_recipient_metadata ops (be_clock be index n) ?j key ds c))"
    for n key ds c using v W b by (intro freezing_metadata) (auto simp: bulk_valid_def calls_valid_def)
  define P where "P = (\<lambda>r :: message_result + unit. \<lambda>d. d = (case r of Inl _ \<Rightarrow> ?c | Inr _ \<Rightarrow> b))"
  have tier: "freezing_task i b P (bulk_tier_task ops be cfg auth index tier msg check)" for tier msg check
    unfolding bulk_tier_task_def store_rejected_do_def
    by (rule freezing_bind [OF freezing_quiet(2)])
       (auto intro!: freezing_then [OF freezing_quiet(1)] freezing_then [OF freezing_then [OF put upd]]
         simp: P_def split: sum.split)
  have rates: "freezing_task i b P (bulk_rates_task ops be cfg auth index)"
    unfolding bulk_rates_task_def
    by (rule freezing_try [OF tier] freezing_try [OF tier, rotated 2], simp add: P_def,
        rule freezing_try [OF tier], simp add: P_def, rule tier [unfolded P_def]) (simp_all add: P_def)
  have build: "freezing_task i b (\<lambda>r b'. (?j \<noteq> i \<longrightarrow> b' = b) \<and> (\<forall>p. r = Inr p \<longrightarrow> pm_req_id p \<in> W))
      (bulk_build_task X ops be cfg auth index raw)"
    unfolding bulk_build_task_def Let_def using W
    by (auto intro!: freezing_then [OF freezing_quiet(1)] freezing_then [OF upd] freezing_then [OF meta]
        split: sum.split)
  show ?thesis
    unfolding phase1_task_def
    by (rule freezing_try [OF rates]) (auto simp: P_def intro!: freezing_then [OF put] build)
qed

lemma freezing_phase1_loop:
  assumes "bulk_valid W be" and "be_ids be ` {index..<index + length messages} \<subseteq> W"
    and "inj_on (be_ids be) {index..<index + length messages}"
    and "i \<in> be_ids be ` {index..<index + length messages} \<Longrightarrow> b"
  shows "freezing_task i b (\<lambda>(rej, prep) _. pm_req_id ` set prep \<subseteq> W)
    (phase1_loop_task X ops be cfg auth index messages)"
  using assms(2-4)
proof (induction messages arbitrary: index b)
  case Nil
  then show ?case by simp
next
  case (Cons raw messages)
  let ?j = "be_ids be index" and ?rest = "{Suc index..<Suc index + length messages}"
  have range: "{index..<index + length (raw # messages)} = insert index ?rest" by auto
  have apart: "?j \<notin> be_ids be ` ?rest"
    using Cons.prems(2) unfolding range by (subst (asm) inj_on_insert) auto
  have rest: "freezing_task i b' (\<lambda>(rej, prep) _. pm_req_id ` set prep \<subseteq> W)
      (phase1_loop_task X ops be cfg auth (Suc index) messages)" if "?j \<noteq> i \<longrightarrow> b' = b" for b'
    using Cons.prems apart that unfolding range by (intro Cons.IH) auto
  have one: "freezing_task i b (\<lambda>r b'. (?j \<noteq> i \<longrightarrow> b' = b) \<and> (\<forall>p. r = Inr p \<longrightarrow> pm_req_id p \<in> W))
      (phase1_task X ops be cfg auth index raw)"
    using Cons.prems unfolding range by (intro freezing_phase1_task assms(1)) auto
  show ?case
    by (simp, rule freezing_bind [OF one], rule freezing_bind [OF rest])
       (auto simp: image_subset_iff split: sum.splits)
qed

text \<open>Phase 2 makes no more descriptions.\<close>

lemma fire_freezing:
  assumes "fire ops be cfg permits ev st = Some st'" and "bulk_valid W be"
    and "pm_req_id ` (set (bs_waiting st) \<union> set (bs_running st)) \<subseteq> W"
  shows "freezing_step i b (bs_world st) (bs_world st') False"
proof -
  have upd: "freezing_step i b w (bulk_update ops (be_clock be m n) j key status code msg w') False"
    if "j \<in> W" "wd_store w' = wd_store w" for j key status code msg m n w w'
  proof -
    let ?op = "Update_Status (be_clock be m n) j key \<lparr>su_status = status, su_code = code, su_message = Some msg\<rparr>"
    have "valid ?op" using that assms(2) by (simp add: bulk_valid_def calls_valid_def)
    moreover have "wd_store (bulk_update ops (be_clock be m n) j key status code msg w')
        = fst (apply_op ops ?op (wd_store w, wd_metrics w'))"
      using that(2) by (simp add: bulk_update_def with_store_def split: prod.split)
    ultimately show ?thesis
      unfolding freezing_step_def
      by (intro conjI disjI2 exI [of _ ?op] exI [of _ "wd_metrics w'"]) simp_all
  qed
  have frame: "freezing_step i b w (w'\<lparr>wd_metrics := m\<rparr>) False = freezing_step i b w w' False"
    "freezing_step i b w (w'\<lparr>wd_sent := q\<rparr>) False = freezing_step i b w w' False" for w w' m q
    by (simp_all add: freezing_step_def)
  have "freezing_step i b w (phase2_begin ops be p w) False" "freezing_step i b w (phase2_end ops be cfg p w) False"
    if "pm_req_id p \<in> W" for p w
    using that upd by (simp_all add: phase2_begin_def phase2_end_def Let_def frame split: sum.split)
  then show ?thesis
    using assms(1,3)
    by (fastforce simp: fire_def dest: find_SomeD split: bulk_event.splits option.splits if_splits)
qed

lemma freezing_schedule_task:
  assumes "bulk_valid W be" and "pm_req_id ` (set (bs_waiting st) \<union> set (bs_running st)) \<subseteq> W"
  shows "freezing_task i b (\<lambda>_ _. True) (schedule_task ops be cfg permits evs st)"
  using assms(2)
proof (induction evs arbitrary: st b)
  case Nil
  then show ?case by simp
next
  case (Cons ev evs)
  show ?case
    unfolding freezing_task_def
  proof (simp, intro allI exI [of _ False])
    fix w
    show "freezing_step i b w (case fire ops be cfg permits ev (st\<lparr>bs_world := w\<rparr>) of
              None \<Rightarrow> w | Some st' \<Rightarrow> bs_world st') False
        \<and> sections (\<lambda>_. True) (freezing_step i) (\<lambda>_ _. True) (case fire ops be cfg permits ev (st\<lparr>bs_world := w\<rparr>) of
              None \<Rightarrow> Done None | Some st' \<Rightarrow> schedule_task ops be cfg permits evs st') False"
    proof (cases "fire ops be cfg permits ev (st\<lparr>bs_world := w\<rparr>)")
      case None
      then show ?thesis by (simp add: freezing_step_def)
    next
      case (Some st')
      have waiting: "pm_req_id ` (set (bs_waiting (st\<lparr>bs_world := w\<rparr>)) \<union> set (bs_running (st\<lparr>bs_world := w\<rparr>))) \<subseteq> W"
        using Cons.prems by simp
      have "freezing_step i b w (bs_world st') False"
        using fire_freezing [OF Some assms(1) waiting] by simp
      moreover have "pm_req_id ` (set (bs_waiting st') \<union> set (bs_running st')) \<subseteq> W"
        using fire_store [OF Some assms(1) waiting] by blast
      ultimately show ?thesis using Cons.IH [of st' False] Some by (simp add: freezing_task_def)
    qed
  qed
qed

lemma freezing_bulk_task:
  assumes "bulk_valid W be" and "W = be_ids be ` {..<length messages}"
    and "inj_on (be_ids be) {..<length messages}"
  shows "freezing_task i True (\<lambda>_ _. True) (bulk_task X ops be cfg auth rid messages schedule)"
proof -
  have loop: "freezing_task i True (\<lambda>(rej, prep) _. pm_req_id ` set prep \<subseteq> W)
      (phase1_loop_task X ops be cfg auth 0 messages)"
    using assms by (intro freezing_phase1_loop) (simp_all add: atLeast0LessThan)
  have snap: "freezing_task i b (\<lambda>_ d. d = b) (atomically (\<lambda>w. (w, w)))" for b
    unfolding freezing_task_def by (rule sections_atomically) (simp add: freezing_step_def)
  have last: "freezing_task i b (\<lambda>_ _. True) (then_do (metrics_do g) (Done r))" for b g r
    by (rule freezing_then [OF freezing_quiet(1)]) simp
  show ?thesis
    unfolding bulk_task_def
    by (auto intro!: freezing_bind [OF loop] freezing_bind [OF snap]
        freezing_bind [OF freezing_schedule_task [OF assms(1)]] last split: option.split)
qed

subsection \<open>The tasks of the server\<close>

abbreviation process_freezing ::
  "request_id \<Rightarrow> ('r \<Rightarrow> bool \<Rightarrow> bool) \<Rightarrow> ('a process, 'r) task \<Rightarrow> bool \<Rightarrow> bool" where
  "process_freezing i P t b \<equiv>
     sections (\<lambda>_. True) (\<lambda>b p p' b'. freezing_step i b (pr_world p) (pr_world p') b') P t b"

lemma process_freezing_on_world:
  "freezing_task i b P t \<Longrightarrow> process_freezing i P (on_world t) b"
  unfolding on_world_def freezing_task_def
  by (rule sections_on_part [where I = "\<lambda>_. True" and G = "freezing_step i"]) simp_all

lemma process_freezing_authenticated:
  assumes "\<And>cfg auth. process_freezing i (\<lambda>_ _. True) (h cfg auth) b"
  shows "process_freezing i (\<lambda>_ _. True) (authenticated X parts h) b"
proof -
  have read: "process_freezing i (\<lambda>_ b'. b' = b) read_config b"
    unfolding read_config_def by (rule sections_atomically) (simp add: freezing_step_def)
  have auth: "process_freezing i (\<lambda>_ b'. b' = b) (auth_task X parts) b"
    unfolding auth_task_def
    by (rule sections_bind [OF read], rule process_freezing_on_world)
       (auto simp: freezing_task_def freezing_step_def split: prod.split intro!: sections_atomically)
  show ?thesis
    unfolding authenticated_def
    by (rule sections_bind [OF auth]) (auto intro!: sections_bind [OF read] assms split: sum.split)
qed

lemma process_freezing_event:
  assumes "event_valid e" and "distinct (event_ids e)" and "i \<in> set (event_ids e)"
  shows "process_freezing i (\<lambda>_ _. True) (event_task env ops bulk e) True"
proof -
  have lift: "process_freezing j (\<lambda>_ _. True) (bind_task (on_world t) (\<lambda>r. Done (f r))) b"
    if "freezing_task j b (\<lambda>_ _. True) t" for j b t and f :: "_ \<Rightarrow> outcome"
    by (rule sections_bind [OF process_freezing_on_world [OF that]]) simp
  show ?thesis
  proof (cases e)
    case (Http_Send p ev)
    with assms show ?thesis
      by (simp add: event_task_def Let_def event_valid_def)
         (intro process_freezing_authenticated lift freezing_send_task)
  next
    case (Http_Bulk p be rid messages schedule)
    let ?W = "be_ids be ` {..<length messages}"
    have "bulk_valid ?W be" using assms(1) Http_Bulk by (auto simp: event_valid_def bulk_valid_def)
    moreover have "inj_on (be_ids be) {..<length messages}"
      using assms(2) Http_Bulk by (simp add: distinct_map atLeast0LessThan)
    ultimately have "process_freezing i (\<lambda>_ _. True) (authenticated (sn_externals env) p (\<lambda>cfg auth.
        bind_task (on_world (bulk_task (sn_externals env) ops be cfg auth rid messages schedule)) (\<lambda>r.
          Done (case r of Some r \<Rightarrow> Bulk_Reply r | None \<Rightarrow> Bulk_Abandoned)))) True"
      by (intro process_freezing_authenticated lift freezing_bulk_task) simp_all
    then show ?thesis using Http_Bulk by (simp add: event_task_def Let_def)
  qed (use assms(3) in simp_all)
qed

subsection \<open>The server\<close>

text \<open>The task whose record \<open>i\<close> is may describe it at most while it is not terminal.\<close>

definition freezing_ok :: "request_id \<Rightarrow> 'a server \<Rightarrow> bool" where
  "freezing_ok i s \<longleftrightarrow>
     (\<forall>n < length (srv_tasks s). i \<in> set (event_ids (fst (srv_tasks s ! n))) \<longrightarrow>
        (\<exists>b. process_freezing i (\<lambda>_ _. True) (snd (srv_tasks s ! n)) b
           \<and> (b \<longrightarrow> open_at i (pr_world (srv_process s)))))"

lemma open_at_others: "open_at i w \<Longrightarrow> view (wd_store w') i \<in> {view (wd_store w) i, None} \<Longrightarrow> open_at i w'"
  by (auto simp: open_at_def)

text \<open>A step of a task whose record \<open>i\<close> is: it keeps a terminal record.\<close>

lemma freezing_run:
  assumes "freezing_ok i s" and "server_ok D s" and n: "n < length (srv_tasks s)" "srv_tasks s ! n = (e, Atomic g k)"
    and "i \<in> set (event_ids e)"
  obtains b' where "process_freezing i (\<lambda>_ _. True) (k (srv_process s)) b'"
    and "b' \<longrightarrow> open_at i (pr_world (g (srv_process s)))"
    and "\<And>r. server_view s i = Some r \<Longrightarrow> is_terminal (sr_status r) \<Longrightarrow>
      view (wd_store (pr_world (g (srv_process s)))) i \<in> {Some r, None}"
proof -
  let ?p = "srv_process s"
  have "i \<in> set (event_ids (fst (srv_tasks s ! n)))" using n(2) assms(5) by simp
  with assms(1) n(1) obtain b where "process_freezing i (\<lambda>_ _. True) (snd (srv_tasks s ! n)) b"
    and b: "b \<longrightarrow> open_at i (pr_world ?p)" unfolding freezing_ok_def by blast
  then have "process_freezing i (\<lambda>_ _. True) (Atomic g k) b" by (simp only: n(2) snd_conv)
  then obtain b' where step: "freezing_step i b (pr_world ?p) (pr_world (g ?p)) b'"
    and rest: "process_freezing i (\<lambda>_ _. True) (k ?p) b'" unfolding sections.simps by blast
  have "ok (wd_store (pr_world ?p))" using assms(2) by (simp add: server_ok_def)
  note eff = freezing_step_effect [OF step this b]
  show thesis by (rule that [OF rest eff])
qed

lemma freezing_ok_step:
  assumes "freezing_ok i s" and "server_ok D s" and "server_step env ops l s = Some s'"
    and "\<And>e. l = Arrive e \<Longrightarrow> event_valid e"
  shows "freezing_ok i s'"
    and "server_view s i = Some r \<Longrightarrow> is_terminal (sr_status r) \<Longrightarrow> server_view s' i \<in> {Some r, None}"
proof -
  have frame: "server_view s' i \<in> {server_view s i, None}"
    if "\<And>n. l = Run n \<Longrightarrow> i \<notin> set (event_ids (fst (srv_tasks s ! n)))"
    by (rule server_ok_step(3) [OF assms(2-4) that])
  have keep: "\<exists>b. process_freezing i (\<lambda>_ _. True) (snd (srv_tasks s ! n)) b
      \<and> (b \<longrightarrow> open_at i (pr_world (srv_process s')))"
    if "n < length (srv_tasks s)" "i \<in> set (event_ids (fst (srv_tasks s ! n)))"
      "server_view s' i \<in> {server_view s i, None}" for n
    using assms(1) that(1,2) open_at_others [OF _ that(3)] unfolding freezing_ok_def by blast
  from assms(3) have "freezing_ok i s'
    \<and> (server_view s i = Some r \<longrightarrow> is_terminal (sr_status r) \<longrightarrow> server_view s' i \<in> {Some r, None})"
  proof (cases rule: server_step_cases)
    case (arrive e)
    have view: "server_view s' i \<in> {server_view s i, None}" by (simp add: arrive)
    have new: "open_at i (pr_world (srv_process s))" if "i \<in> set (event_ids e)"
    proof -
      have "server_view s i = None" using that arrive(3) assms(2) unfolding server_ok_def by blast
      then show ?thesis by (simp add: open_at_def)
    qed
    note event = process_freezing_event [OF assms(4) [OF arrive(1)] arrive(2), of i env "srv_bulk s"]
    have "\<exists>b. process_freezing i (\<lambda>_ _. True) (snd (srv_tasks s' ! n)) b
        \<and> (b \<longrightarrow> open_at i (pr_world (srv_process s')))"
      if n: "n < length (srv_tasks s')" "i \<in> set (event_ids (fst (srv_tasks s' ! n)))" for n
    proof (cases "n = length (srv_tasks s)")
      case True
      with n(2) have i: "i \<in> set (event_ids e)" by (simp add: arrive)
      with event new show ?thesis using True by (intro exI [of _ True]) (simp add: arrive)
    next
      case False
      with n(1) have "n < length (srv_tasks s)" by (simp add: arrive)
      with keep [OF this _ view] n(2) show ?thesis by (simp add: arrive nth_append)
    qed
    with view show ?thesis unfolding freezing_ok_def by auto
  next
    case (run m e g k)
    have p': "srv_process s' = g (srv_process s)" by (simp add: run)
    show ?thesis
    proof (cases "i \<in> set (event_ids e)")
      case True
      obtain b' where b': "process_freezing i (\<lambda>_ _. True) (k (srv_process s)) b'"
        "b' \<longrightarrow> open_at i (pr_world (g (srv_process s)))"
        "\<And>r. server_view s i = Some r \<Longrightarrow> is_terminal (sr_status r) \<Longrightarrow>
          view (wd_store (pr_world (g (srv_process s)))) i \<in> {Some r, None}"
        by (rule freezing_run [OF assms(1,2) run(2,3) True]) blast
      have "\<exists>b. process_freezing i (\<lambda>_ _. True) (snd (srv_tasks s' ! n)) b
          \<and> (b \<longrightarrow> open_at i (pr_world (srv_process s')))"
        if n: "n < length (srv_tasks s')" "i \<in> set (event_ids (fst (srv_tasks s' ! n)))" for n
      proof -
        have "n = m"
        proof (rule ccontr)
          assume ne: "n \<noteq> m"
          with n have n': "n < length (srv_tasks s)" "i \<in> set (event_ids (fst (srv_tasks s ! n)))"
            by (simp_all add: run)
          with assms(2) run(2) ne
          have "set (event_ids (fst (srv_tasks s ! n))) \<inter> set (event_ids (fst (srv_tasks s ! m))) = {}"
            by (simp add: server_ok_def)
          with n'(2) True run(3) show False by auto
        qed
        with b'(1,2) run(2) show ?thesis by (intro exI [of _ b']) (simp add: run)
      qed
      with b'(3) [of r] show ?thesis unfolding freezing_ok_def p' by blast
    next
      case False
      have view: "server_view s' i \<in> {server_view s i, None}" by (rule frame) (use False run in simp)
      have "\<exists>b. process_freezing i (\<lambda>_ _. True) (snd (srv_tasks s' ! n)) b
          \<and> (b \<longrightarrow> open_at i (pr_world (srv_process s')))"
        if n: "n < length (srv_tasks s')" "i \<in> set (event_ids (fst (srv_tasks s' ! n)))" for n
      proof -
        have "n \<noteq> m" using n False run(2) by (auto simp: run(4))
        with n keep [OF _ _ view, of n] show ?thesis by (simp add: run)
      qed
      with view show ?thesis unfolding freezing_ok_def by auto
    qed
  next
    case (drop m e g k)
    have view: "server_view s' i \<in> {server_view s i, None}" by (simp add: drop)
    have "\<exists>b. process_freezing i (\<lambda>_ _. True) (snd (srv_tasks s' ! n)) b
        \<and> (b \<longrightarrow> open_at i (pr_world (srv_process s')))"
      if n: "n < length (srv_tasks s')" "i \<in> set (event_ids (fst (srv_tasks s' ! n)))" for n
    proof (cases "n = m")
      case True
      with drop(2) show ?thesis by (intro exI [of _ False]) (simp add: drop(4))
    next
      case False
      with n keep [OF _ _ view, of n] show ?thesis by (simp add: drop)
    qed
    with view show ?thesis unfolding freezing_ok_def by auto
  qed
  then show "freezing_ok i s'"
    and "server_view s i = Some r \<Longrightarrow> is_terminal (sr_status r) \<Longrightarrow> server_view s' i \<in> {Some r, None}"
    by blast+
qed

text \<open>The induction over a run, from a state in which all tasks are of this kind.\<close>

lemma server_frozen:
  assumes "reaches env ops s s'" and "server_ok D s" and "all_valid s'" and "freezing_ok i s"
  shows "freezing_ok i s'"
    and "server_view s i = Some r \<Longrightarrow> is_terminal (sr_status r) \<Longrightarrow> server_view s' i \<in> {Some r, None}"
proof -
  have "freezing_ok i s'
    \<and> (server_view s i = Some r \<longrightarrow> is_terminal (sr_status r) \<longrightarrow> server_view s' i \<in> {Some r, None})"
    using assms(1,3)
  proof (induction rule: reaches.induct)
    case here
    then show ?case using assms(4) by simp
  next
    case (there s' l s'')
    have sub: "fst ` set (srv_tasks s'') = fst ` set (srv_tasks s') \<union> (case l of Arrive e \<Rightarrow> {e} | _ \<Rightarrow> {})"
      by (rule step_events [OF there.hyps(2)])
    then have v: "all_valid s'" and new: "\<And>e. l = Arrive e \<Longrightarrow> event_valid e"
      using there.prems by (auto simp: all_valid_def)
    have ok: "server_ok D s'" using server_run [OF there.hyps(1) assms(2) v] by blast
    note step = freezing_ok_step [OF conjunct1 [OF there.IH [OF v]] ok there.hyps(2) new]
    have "server_view s'' i \<in> {Some r, None}"
      if r: "server_view s i = Some r" "is_terminal (sr_status r)"
    proof (cases "server_view s' i")
      case (Some q)
      with there.IH [OF v] r have "q = r" by simp
      with step(2) [of r] Some r(2) show ?thesis by simp
    next
      case None
      have "reaches env ops s s''" by (rule reaches.there [OF there.hyps])
      have "server_ok (insert i D) s'"
      proof -
        have "server_view s i \<noteq> None" using r(1) by simp
        from server_run [OF there.hyps(1) server_ok_seen [OF assms(2) this] v] show ?thesis by blast
      qed
      from server_ok_step(2) [OF this there.hyps(2) new, of i] None show ?thesis
        by (cases "server_view s'' i") (simp_all add: evolves_Some_iff)
    qed
    with step(1) show ?case by blast
  qed
  then show "freezing_ok i s'"
    and "server_view s i = Some r \<Longrightarrow> is_terminal (sr_status r) \<Longrightarrow> server_view s' i \<in> {Some r, None}"
    by blast+
qed

end

subsection \<open>The in-memory store\<close>

interpretation memf: freezing_store "memory_ops it" "\<lambda>s. hm_get (ms_records s)" memory_ok "\<lambda>_. True" for it
proof
  fix x :: "memory_store \<times> metrics" and op i r r'
  assume ok: "memory_ok (fst x)" and r: "hm_get (ms_records (fst x)) i = Some r"
  obtain s m where x: "x = (s, m)" by (cases x)
  have wf: "hm_wf (ms_records s)" using ok by (simp add: x memory_ok_def)
  have put: "kept s (fst (snd (memory_put_received it q (s, m)))) i" for q
  proof (cases "i = sr_request_id q")
    case True
    with r show ?thesis by (simp add: x kept_def put_received_records hm_contains_def)
  qed (rule put_received_kept)
  have kept: "kept s (fst (apply_op (memory_ops it) op x)) i"
    if "\<And>clk j k ds n. op \<noteq> Set_Metadata clk j k ds n" "\<And>clk j k u. op \<noteq> Update_Status clk j k u"
  proof (cases op)
    case (Set_Metadata clk j k ds n)
    with that(1) show ?thesis by blast
  next
    case (Update_Status clk j k u)
    with that(2) show ?thesis by blast
  qed (simp_all add: x put get_kept expire_kept [OF wf], simp add: kept_def)
  show "hm_get (ms_records (fst (apply_op (memory_ops it) op x))) i \<in> {Some r, None}"
    if "is_terminal (sr_status r)" "\<not> describes op i"
  proof (cases op)
    case (Set_Metadata clk j k ds n)
    with that r show ?thesis by (simp add: x set_metadata_get)
  next
    case (Update_Status clk j k u)
    with that r show ?thesis by (simp add: x update_status_get)
  qed (use kept r in \<open>simp_all add: kept_def x\<close>)
  show "sr_status r' = sr_status r"
    if "\<not> updates op i" "hm_get (ms_records (fst (apply_op (memory_ops it) op x))) i = Some r'"
  proof (cases op)
    case (Set_Metadata clk j k ds n)
    with that r show ?thesis by (auto simp: x set_metadata_get split: if_splits)
  next
    case (Update_Status clk j k u)
    with that r show ?thesis by (simp add: x update_status_get)
  qed (use kept r that(2) in \<open>simp_all add: kept_def x\<close>)
qed

end
