(* ===== verification/Server_Claims.thy ===== *)
theory Server_Claims
  imports Server_Final Send_Claims Auth_Claims Validation_Claims Api_Claims
begin

text \<open>
  The properties of the running server, for any number of requests, reloads and cleanup
  rounds in any interleaving: whose mail leaves it, which settings a reload cannot change,
  that final records stay final, and that a record agrees with the answer of its request.
\<close>

subsection \<open>Handlers without interference\<close>

text \<open>The tasks of the server are its handlers: run without interference, the task of a send
  request authenticates it under the current configuration, counts a refusal, and gives
  the answer and the effect of the handler; the task of a bulk request gives those of the
  bulk handler, and is abandoned only for a schedule that is none.\<close>

theorem handlers_run_alone:
  "run_alone (event_task env ops bulk (Http_Send p ev)) pr =
     (case authenticate (sn_externals env) (pr_config pr) p (wd_metrics (pr_world pr)) of
        (Inl resp, m) \<Rightarrow> (Refused resp, pr\<lparr>pr_world := (pr_world pr)\<lparr>wd_metrics := m\<rparr>\<rparr>)
      | (Inr auth, m) \<Rightarrow>
          (case send_mail (sn_externals env) ops ev (pr_config pr) auth ((pr_world pr)\<lparr>wd_metrics := m\<rparr>) of
             (r, w) \<Rightarrow> (Send_Reply r, pr\<lparr>pr_world := w\<rparr>)))
   \<and> (case authenticate (sn_externals env) (pr_config pr) p (wd_metrics (pr_world pr)) of
        (Inl resp, m) \<Rightarrow>
          run_alone (event_task env ops True (Http_Bulk p be rid messages schedule)) pr
            = (Refused resp, pr\<lparr>pr_world := (pr_world pr)\<lparr>wd_metrics := m\<rparr>\<rparr>)
      | (Inr auth, m) \<Rightarrow>
          (case send_bulk (sn_externals env) ops be (pr_config pr) auth rid messages schedule
              ((pr_world pr)\<lparr>wd_metrics := m\<rparr>) of
             Some (r, w) \<Rightarrow>
               run_alone (event_task env ops True (Http_Bulk p be rid messages schedule)) pr
                 = (Bulk_Reply r, pr\<lparr>pr_world := w\<rparr>)
           | None \<Rightarrow>
               fst (run_alone (event_task env ops True (Http_Bulk p be rid messages schedule)) pr)
                 = Bulk_Abandoned))"
  by (auto simp: event_task_def authenticated_def Let_def send_task_alone bulk_task_alone
      split: prod.split sum.split option.split)

lemma example_send_alone:
  assumes "sn_externals env = example_externals"
  shows "\<exists>r w. run_alone (event_task env ops bulk (Http_Send example_parts ev))
        \<lparr>pr_config = example_config, pr_world = w0\<rparr>
      = (Send_Reply r, \<lparr>pr_config = example_config, pr_world = w\<rparr>)
    \<and> send_mail example_externals ops ev example_config example_auth w0 = (r, w)"
proof -
  obtain r w where run: "send_mail example_externals ops ev example_config example_auth w0 = (r, w)"
    by (rule prod.exhaust)
  then show ?thesis
    by (simp add: event_task_def authenticated_def Let_def assms example_authenticates send_task_alone)
qed

subsection \<open>A run of the server\<close>

definition example_server_env :: server_env where
  "example_server_env =
     \<lparr>sn_externals = example_externals, sn_features = no_features,
      sn_toml = (\<lambda>_. Inr example_config), sn_path = default_config_path, sn_rfc3339 = (\<lambda>_. [])\<rparr>"

definition example_state :: "memory_store app_state" where
  "example_state =
     \<lparr>as_config = example_config, as_smtp = example_transport,
      as_limiter = limiter_new default_rate_limit_config 0, as_metrics = metrics_new,
      as_store = memory_new default_status_config\<rparr>"

lemma example_server_env_simps [simp]: "sn_externals example_server_env = example_externals"
  by (simp add: example_server_env_def)

lemma example_state_simps [simp]:
  "memory_ok (as_store example_state)" "hm_get (ms_records (as_store example_state)) i = None"
  by (simp_all add: example_state_def) (simp add: memory_new_def)

lemma example_start [simp]:
  "srv_tasks (server_start example_state ids) = []"
  "srv_process (server_start example_state ids) = \<lparr>pr_config = example_config, pr_world = example_world\<rparr>"
  by (simp_all add: server_start_def example_state_def example_world_def)

text \<open>The example request arrives, and is served.\<close>

lemma example_run:
  obtains s r w where
    "reaches example_server_env (memory_ops (\<lambda>xs. xs)) (server_start example_state []) s"
    "send_mail example_externals (memory_ops (\<lambda>xs. xs)) example_env example_config example_auth example_world = (r, w)"
    "srv_process s = \<lparr>pr_config = example_config, pr_world = w\<rparr>"
    "srv_tasks s = [(Http_Send example_parts example_env, Done (Send_Reply r))]"
proof -
  let ?ops = "memory_ops (\<lambda>xs. xs)" and ?e = "Http_Send example_parts example_env"
  let ?s0 = "server_start example_state []"
  obtain r w where run: "run_alone (event_task example_server_env ?ops (srv_bulk ?s0) ?e)
        \<lparr>pr_config = example_config, pr_world = example_world\<rparr>
      = (Send_Reply r, \<lparr>pr_config = example_config, pr_world = w\<rparr>)"
    "send_mail example_externals ?ops example_env example_config example_auth example_world = (r, w)"
    using example_send_alone [of example_server_env ?ops "srv_bulk ?s0" example_env example_world] by auto
  obtain s where "reaches example_server_env ?ops ?s0 s"
    "srv_process s = snd (run_alone (event_task example_server_env ?ops (srv_bulk ?s0) ?e) (srv_process ?s0))"
    "srv_tasks s = srv_tasks ?s0 @ [(?e, Done (fst (run_alone
        (event_task example_server_env ?ops (srv_bulk ?s0) ?e) (srv_process ?s0))))]"
    by (rule arrives_alone [of ?e ?s0]) (simp_all add: server_start_def)
  with run show ?thesis by (intro that [of s r w]) simp_all
qed

lemma example_sent:
  assumes "send_mail example_externals (memory_ops (\<lambda>xs. xs)) example_env example_config example_auth
    example_world = (r, w)"
  obtains msg where "r = Inr (accepted_reply example_env)" "wd_sent w = [msg]"
proof -
  let ?ops = "memory_ops (\<lambda>xs. xs)"
  let ?w = "put_initial ?ops example_env example_config example_auth example_world"
  obtain reply where r: "r = Inr reply"
    using send_mail_accepted_iff [of example_externals ?ops example_env example_config example_auth example_world]
      example_cleared assms by (auto simp: example_env_def)
  obtain res w' where st: "send_steps example_externals ?ops example_env example_config example_auth ?w = (res, w')"
    by (rule prod.exhaust)
  then have "res = Inr reply" "w' = w"
    using assms r by (auto simp: send_mail_def split: sum.splits)
  with send_steps_Inr [of example_externals ?ops example_env example_config example_auth ?w reply w]
    send_steps_sent [OF st] st r
  show ?thesis by (auto simp: example_world_def intro: that)
qed

subsection \<open>Whose mail is sent\<close>

text \<open>C3: Every message the server hands to the transport, in any run, comes from a request of
  that run: the head of this very request presented the secret of a key that was enabled,
  from an allowed address, under a configuration in force at some time since the start, and
  the message was built from a mail request of its body that validated for that key under
  such a configuration. Each recipient's domain, in (Unicode) lowercase, is in the server's
  list, and for a configured key the address and this domain are in the key's lists.\<close>

theorem server_mail_authenticated:
  assumes "reaches env ops (server_start st issued) s"
    and "msg \<in> set (wd_sent (pr_world (srv_process s)))" and "ct_eq_correct (sn_externals env)"
  shows "\<exists>e \<in> fst ` set (srv_tasks s). \<exists>c1 \<in> set (srv_configs s). \<exists>c2 \<in> set (srv_configs s).
    \<exists>p token k auth payload v finish.
    carries e p payload finish
    \<and> source_allowed (sn_externals env) c1 p \<and> extract_token (sn_externals env) p = Some token
    \<and> last_key_with (se_api_keys (cf_security c1)) token = Some k \<and> ak_enabled k
    \<and> auth = auth_context_of (sn_externals env) c1 p k
    \<and> validate_mail_request (sn_externals env) payload c2 auth = Inr v
    \<and> build_message (sn_externals env) finish v c2 = Inr msg
    \<and> (\<forall>a \<in> set (vm_to v) \<union> set (vm_cc v). \<exists>l d. a = l @ CHR ''@'' # d \<and> CHR ''@'' \<notin> set d
         \<and> domain_permitted_globally c2 (x_to_lowercase (sn_externals env) d)
         \<and> (\<forall>k'. find_key c2 (ac_key_id auth) = Some k' \<longrightarrow>
              address_permitted_for_key k' a
              \<and> domain_permitted_for_key k' (x_to_lowercase (sn_externals env) d)))"
proof -
  let ?X = "sn_externals env"
  obtain e where e: "e \<in> fst ` set (srv_tasks s)" "authorised ?X e (set (srv_configs s)) msg"
    using bspec [OF conjunct1 [OF conjunct2 [OF server_mail_authorised [OF assms(1)]]] assms(2)]
    by (auto simp: server_start_def)
  then obtain c1 c2 p m auth payload v finish where
    c: "c1 \<in> set (srv_configs s)" "c2 \<in> set (srv_configs s)" "carries e p payload finish"
    and a: "fst (authenticate ?X c1 p m) = Inr auth"
    and v: "validate_mail_request ?X payload c2 auth = Inr v"
    and b: "build_message ?X finish v c2 = Inr msg"
    unfolding authorised_def by blast
  obtain m' where "authenticate ?X c1 p m = (Inr auth, m')" using a by (metis prod.collapse)
  then obtain token k where
    t: "source_allowed ?X c1 p" "extract_token ?X p = Some token"
      "last_key_with (se_api_keys (cf_security c1)) token = Some k" "ak_enabled k"
      "auth = auth_context_of ?X c1 p k"
    using authenticate_Inr_iff [OF assms(3)] by blast
  have permitted: "\<exists>l d. a = l @ CHR ''@'' # d \<and> CHR ''@'' \<notin> set d
      \<and> domain_permitted_globally c2 (x_to_lowercase ?X d)
      \<and> (\<forall>k'. find_key c2 (ac_key_id auth) = Some k' \<longrightarrow>
           address_permitted_for_key k' a \<and> domain_permitted_for_key k' (x_to_lowercase ?X d))"
    if "a \<in> set (vm_to v) \<union> set (vm_cc v)" for a
    using validated_recipient_policy [OF v that] by blast
  show ?thesis
    by (rule bexI [OF _ e(1)], rule bexI [OF _ c(1)], rule bexI [OF _ c(2)])
       (rule exI [of _ p], rule exI [of _ token], rule exI [of _ k], rule exI [of _ auth],
        rule exI [of _ payload], rule exI [of _ v], rule exI [of _ finish],
        use c(3) t v b permitted in blast)
qed

theorem server_mail_authenticated_witness:
  "\<exists>s msg token. reaches example_server_env (memory_ops (\<lambda>xs. xs)) (server_start example_state []) s
     \<and> fst ` set (srv_tasks s) = {Http_Send example_parts example_env}
     \<and> msg \<in> set (wd_sent (pr_world (srv_process s)))
     \<and> extract_token example_externals example_parts = Some token"
proof -
  obtain s r w where s: "reaches example_server_env (memory_ops (\<lambda>xs. xs)) (server_start example_state []) s"
    "send_mail example_externals (memory_ops (\<lambda>xs. xs)) example_env example_config example_auth example_world = (r, w)"
    "srv_process s = \<lparr>pr_config = example_config, pr_world = w\<rparr>"
    "srv_tasks s = [(Http_Send example_parts example_env, Done (Send_Reply r))]"
    by (rule example_run)
  obtain msg where "wd_sent w = [msg]" using example_sent [OF s(2)] by blast
  then have m: "msg \<in> set (wd_sent (pr_world (srv_process s)))" by (simp add: s(3))
  have e: "fst ` set (srv_tasks s) = {Http_Send example_parts example_env}" by (simp add: s(4))
  from server_mail_authenticated [OF s(1) m] example_ct_eq_correct
  obtain token where "extract_token example_externals example_parts = Some token"
    unfolding e by auto
  with s(1) e m show ?thesis by blast
qed

subsection \<open>What a reload cannot change\<close>

text \<open>C19: Whatever SIGHUPs arrive and however they interleave with requests, the settings that
  need a restart keep their values of the start: the server, SMTP and rate limit sections,
  the kind and place of the status store, and whether the bulk route exists (which the
  reloadable mail section sets).\<close>

theorem server_restart_settings:
  assumes "reaches env ops (server_start st issued) s"
  shows "cf_server (pr_config (srv_process s)) = cf_server (as_config st)
    \<and> cf_smtp (pr_config (srv_process s)) = cf_smtp (as_config st)
    \<and> cf_rate_limit (pr_config (srv_process s)) = cf_rate_limit (as_config st)
    \<and> sc_enabled (cf_status (pr_config (srv_process s))) = sc_enabled (cf_status (as_config st))
    \<and> sc_store (cf_status (pr_config (srv_process s))) = sc_store (cf_status (as_config st))
    \<and> sc_db_path (cf_status (pr_config (srv_process s))) = sc_db_path (cf_status (as_config st))
    \<and> sc_redis_url (cf_status (pr_config (srv_process s))) = sc_redis_url (cf_status (as_config st))
    \<and> srv_bulk s = ml_allow_bulk_send (cf_mail (as_config st))"
  using server_config_fixed [OF assms] server_bulk_fixed [OF assms]
  by (simp add: same_fixed_def server_start_def)

text \<open>A file that turns the bulk route on and moves the SMTP host to another port.\<close>

definition changed_config :: app_config where
  "changed_config = example_config
     \<lparr>cf_mail := (cf_mail example_config)\<lparr>ml_allow_bulk_send := True\<rparr>,
      cf_smtp := default_smtp_config\<lparr>sm_port := 2525\<rparr>\<rparr>"

definition changed_env :: server_env where
  "changed_env = example_server_env\<lparr>sn_toml := (\<lambda>_. Inr changed_config)\<rparr>"

lemma changed_load:
  "load (sn_externals changed_env) (sn_features changed_env) (sn_toml changed_env) (\<lambda>_. Inr text) (sn_path changed_env)
     = Inr changed_config"
proof -
  have "check_api_key_secret key_a = Inr ()" "check_api_key_secret key_off = Inr ()"
    by (simp_all add: check_api_key_secret_Inr_iff min_secret_len_def blocked_secrets_def starts_with_def)
  then have "validate_config example_externals no_features changed_config = Inr ()"
    by (simp add: changed_config_def validate_config_def parse_socket_addr_default default_server_config_def
        default_mail_config_def default_security_config_def default_smtp_config_def
        default_status_config_def default_rate_limit_config_def default_logging_config_def
        example_parse_address_def check_smtp_tls_def check_smtp_auth_def check_tls_files_def
        check_status_store_def check_pipe_auth_def)
  then show ?thesis by (simp add: load_def changed_env_def example_server_env_def)
qed

theorem server_restart_settings_witness:
  "\<exists>s. reaches changed_env (memory_ops (\<lambda>xs. xs)) (server_start example_state []) s
     \<and> ml_allow_bulk_send (cf_mail (pr_config (srv_process s))) \<and> \<not> srv_bulk s
     \<and> sm_port (cf_smtp (pr_config (srv_process s))) = sm_port default_smtp_config"
proof -
  let ?ops = "memory_ops (\<lambda>xs. xs)" and ?e = "Sighup (\<lambda>_. Inr [])"
  let ?s0 = "server_start example_state []"
  obtain s where run: "reaches changed_env ?ops ?s0 s"
    and s: "srv_process s = snd (run_alone (event_task changed_env ?ops (srv_bulk ?s0) ?e) (srv_process ?s0))"
    by (rule arrives_alone [of ?e ?s0]) simp_all
  have "pr_config (srv_process s) = merge_reloadable example_config changed_config"
    by (simp add: s event_task_def sighup_task_def changed_load split: prod.split)
  then have "ml_allow_bulk_send (cf_mail (pr_config (srv_process s)))"
    by (simp add: merge_reloadable_def changed_config_def)
  with server_restart_settings [OF run] run show ?thesis
    by (intro exI [of _ s]) (simp add: example_state_def default_mail_config_def)
qed

subsection \<open>Records\<close>

text \<open>
  The two properties of records are about the in-memory store. The store of a start may
  hold records, whose ids are among the issued ones.
\<close>

lemma memory_all_valid: "status_store.all_valid (\<lambda>_. True) (u :: memory_store server)"
proof -
  note ctx = mem.status_store_axioms
  show ?thesis
    by (auto simp: status_store.all_valid_def [OF ctx] status_store.event_valid_def [OF ctx]
        status_store.calls_valid_def [OF ctx] split: event.split)
qed

text \<open>C8: A record in a terminal state is final in the running server: whatever requests, reloads
  and cleanup rounds run, in any interleaving of their atomic sections and with any of
  them dropped midway, later it is gone, or it is the same record, in every field: owner,
  outcome, recipients and all times, that of the last change included.\<close>

theorem server_terminal_record_final:
  assumes "reaches env (memory_ops it) (server_start st issued) s" and "reaches env (memory_ops it) s s'"
    and "memory_ok (as_store st)"
    and "\<And>i. hm_get (ms_records (as_store st)) i \<noteq> None \<Longrightarrow> i \<in> set issued"
    and "hm_get (ms_records (wd_store (pr_world (srv_process s)))) i = Some r"
    and "is_terminal (sr_status r)"
  shows "case hm_get (ms_records (wd_store (pr_world (srv_process s')))) i of
      None \<Rightarrow> True | Some r' \<Rightarrow> r' = r"
proof -
  note ctx = mem.status_store_axioms [of it] and fctx = memf.freezing_store_axioms [of it]
  have valid: "status_store.all_valid (\<lambda>_. True) u" for u :: "memory_store server"
    by (rule memory_all_valid)
  note start = status_store.server_ok_start [OF ctx assms(3,4)]
  note ok = conjunct1 [OF status_store.server_run [OF ctx assms(1) start valid]]
  have "freezing_store.freezing_ok (memory_ops it) (\<lambda>s. hm_get (ms_records s)) (\<lambda>_. True) i (server_start st issued)"
    by (simp add: freezing_store.freezing_ok_def [OF fctx] server_start_def)
  note frozen = freezing_store.server_frozen(1) [OF fctx assms(1) start valid this]
  from freezing_store.server_frozen(2) [OF fctx assms(2) ok valid frozen assms(5,6)]
  show ?thesis by (auto split: option.split)
qed

lemma example_record:
  assumes "send_mail example_externals (memory_ops (\<lambda>xs. xs)) example_env example_config example_auth
    example_world = (r, w)"
  obtains rec where "hm_get (ms_records (wd_store w)) ''req_1'' = Some rec" "is_terminal (sr_status rec)"
    "sr_expires_at rec = ttl_nanos (sc_ttl_seconds default_status_config)"
proof -
  have "memory_ok (wd_store example_world)"
    "hm_get (ms_records (wd_store example_world)) (ev_request_id example_env) = None"
    by (simp_all add: example_world_def) (simp add: memory_new_def)
  moreover have "tracking_store.calls_ok (\<lambda>_. True) example_env (ac_key_id example_auth)
      (ev_received example_env + ttl_nanos (sc_ttl_seconds (cf_status example_config)))"
    by (simp add: tracking_store.calls_ok_def [OF mem.tracking_store_axioms] example_env_def
        default_status_config_def ttl_nanos_def)
  ultimately show ?thesis
    using tracking_store.send_mail_record [OF mem.tracking_store_axioms _ _ _ TrueI assms]
      final_status_terminal [of "map_sum re_source id r"] that by (auto simp: example_env_def)
qed

theorem server_terminal_record_final_witness:
  "\<exists>s s'. reaches example_server_env (memory_ops (\<lambda>xs. xs)) (server_start example_state []) s
     \<and> (\<exists>s1. server_step example_server_env (memory_ops (\<lambda>xs. xs)) (Arrive (Cleanup (\<lambda>_. 5))) s = Some s1
          \<and> reaches example_server_env (memory_ops (\<lambda>xs. xs)) s1 s')
     \<and> (\<exists>rec. hm_get (ms_records (wd_store (pr_world (srv_process s)))) ''req_1'' = Some rec
          \<and> (case hm_get (ms_records (wd_store (pr_world (srv_process s')))) ''req_1'' of
               None \<Rightarrow> True | Some r' \<Rightarrow> r' = rec))"
proof -
  let ?ops = "memory_ops (\<lambda>xs. xs)" and ?e = "Cleanup (\<lambda>_. 5)"
  obtain s r w where s: "reaches example_server_env ?ops (server_start example_state []) s"
    "send_mail example_externals ?ops example_env example_config example_auth example_world = (r, w)"
    "srv_process s = \<lparr>pr_config = example_config, pr_world = w\<rparr>"
    by (rule example_run)
  obtain rec where rec: "hm_get (ms_records (wd_store w)) ''req_1'' = Some rec" "is_terminal (sr_status rec)"
    by (rule example_record [OF s(2)])
  let ?t = "event_task example_server_env ?ops (srv_bulk s) ?e"
  let ?s1 = "s\<lparr>srv_tasks := srv_tasks s @ [(?e, ?t)], srv_issued := event_ids ?e @ srv_issued s\<rparr>"
  have step: "server_step example_server_env ?ops (Arrive ?e) s = Some ?s1" by simp
  obtain s' where s': "reaches example_server_env ?ops ?s1 s'"
    using reaches_alone [of "length (srv_tasks s)" ?s1 ?e ?t] by auto
  have "reaches example_server_env ?ops s s'"
    using reaches_trans [OF s' reaches.there [OF reaches.here step]] .
  from server_terminal_record_final [OF s(1) this, of "''req_1''" rec] rec
  have "case hm_get (ms_records (wd_store (pr_world (srv_process s')))) ''req_1'' of
      None \<Rightarrow> True | Some r' \<Rightarrow> r' = rec"
    by (simp add: s(3))
  with s(1,3) step s' rec show ?thesis by (intro exI [of _ s] exI [of _ s']) auto
qed

text \<open>C6: A stored record agrees with the answer of its request in the running server: when a send
  request of a fresh start has been answered, the record under its id, if it is still held
  and had not expired while the handler ran, belongs to the key that the head of the request
  authenticated under a configuration in force since the start. It is accepted for a 202,
  failed for an error of the SMTP server, and rejected for any other error, with the code of
  the error; only a disabled feature is recorded as validation_failed while the answer says
  feature_disabled. This holds whatever else ran in between.\<close>

theorem server_answers_recorded:
  assumes "reaches env (memory_ops it) (server_start st issued) s" and "memory_ok (as_store st)"
    and "\<And>i. hm_get (ms_records (as_store st)) i \<noteq> None \<Longrightarrow> i \<in> set issued"
    and "(Http_Send p ev, Done (Send_Reply res)) \<in> set (srv_tasks s)"
    and "hm_get (ms_records (wd_store (pr_world (srv_process s)))) (ev_request_id ev) = Some r"
    and "\<And>n m. ev_clock ev n m < sr_expires_at r"
  shows "(\<exists>c \<in> set (srv_configs s). \<exists>m auth.
      fst (authenticate (sn_externals env) c p m) = Inr auth \<and> sr_key_id r = ac_key_id auth)
    \<and> (case res of
         Inr _ \<Rightarrow> sr_status r = SmtpAccepted \<and> sr_code r = None
       | Inl e \<Rightarrow>
           sr_status r = (if re_source e \<in> {SmtpRejected, SmtpUnavailable} then SmtpFailed else Rejected)
           \<and> sr_code r = Some (case re_source e of
                FeatureDisabled _ \<Rightarrow> Code_ValidationFailed | other \<Rightarrow> app_error_code other))"
proof -
  note ctx = mem.status_store_axioms [of it] and tctx = mem.tracking_store_axioms [of it]
  have valid: "status_store.all_valid (\<lambda>_. True) u" for u :: "memory_store server"
    by (rule memory_all_valid)
  note start = status_store.server_ok_start [OF ctx assms(2,3)]
  have idle: "srv_tasks (server_start st issued) = []"
    and config: "pr_config (srv_process (server_start st issued)) \<in> set (srv_configs (server_start st issued))"
    by (simp_all add: server_start_def)
  have "\<not> late ev r" using assms(6) by (auto simp: late_def not_le)
  from tracking_store.server_answer_recorded [OF tctx assms(1) start valid idle config assms(4,5) this]
  show ?thesis by (auto simp: final_answer split: sum.split)
qed

theorem server_answers_recorded_witness:
  "\<exists>s r. reaches example_server_env (memory_ops (\<lambda>xs. xs)) (server_start example_state []) s
     \<and> hm_get (ms_records (wd_store (pr_world (srv_process s)))) ''req_1'' = Some r
     \<and> sr_status r = SmtpAccepted \<and> sr_code r = None"
proof -
  obtain s r w where s: "reaches example_server_env (memory_ops (\<lambda>xs. xs)) (server_start example_state []) s"
    "send_mail example_externals (memory_ops (\<lambda>xs. xs)) example_env example_config example_auth example_world = (r, w)"
    "srv_process s = \<lparr>pr_config = example_config, pr_world = w\<rparr>"
    "srv_tasks s = [(Http_Send example_parts example_env, Done (Send_Reply r))]"
    by (rule example_run)
  have r: "r = Inr (accepted_reply example_env)" using example_sent [OF s(2)] by blast
  obtain rec where rec: "hm_get (ms_records (wd_store w)) ''req_1'' = Some rec"
    "sr_expires_at rec = ttl_nanos (sc_ttl_seconds default_status_config)"
    by (rule example_record [OF s(2)])
  from server_answers_recorded [OF s(1), of example_parts example_env r rec] rec
  have "sr_status rec = SmtpAccepted \<and> sr_code rec = None"
    by (auto simp: s(3,4) r example_env_def default_status_config_def ttl_nanos_def)
  with s(1,3) rec(1) show ?thesis by (intro exI [of _ s] exI [of _ rec]) simp
qed

end
