(* ===== verification/Server_Bulk.thy ===== *)
theory Server_Bulk
  imports Server_Record Send_Bulk_Claims
begin

text \<open>
  The records of a bulk request while other tasks run: the record of each of its messages
  agrees, at the end, with the result the response reports for it. One message is followed
  at a time; what the handler does for the other messages is interference like any other.
\<close>

subsection \<open>One message of a bulk request\<close>

text \<open>The inputs of one message, in the form of those of a send request.\<close>

definition message_env :: "bulk_env \<Rightarrow> nat \<Rightarrow> send_env" where
  "message_env be m =
     \<lparr>ev_request_id = be_ids be m, ev_content_type = None, ev_body_len = 0, ev_json = None,
      ev_received = be_received be m, ev_clock = be_clock be m, ev_instant = be_instant be m,
      ev_finish = be_finish be, ev_outcome = (\<lambda>_. be_outcome be m)\<rparr>"

lemma message_env_simps [simp]:
  "ev_request_id (message_env be m) = be_ids be m" "ev_received (message_env be m) = be_received be m"
  "ev_clock (message_env be m) = be_clock be m"
  by (simp_all add: message_env_def)

text \<open>A reported result agrees with the status and the code of a record.\<close>

definition agrees :: "message_result \<Rightarrow> submission_status \<Rightarrow> error_code option \<Rightarrow> bool" where
  "agrees r st co \<longleftrightarrow>
     is_terminal st \<and> br_code r = map_option code_as_str co
     \<and> br_status r = (if st = SmtpAccepted then ''accepted'' else ''rejected'')"

lemma agrees_rejected:
  "is_terminal st \<Longrightarrow> st \<noteq> SmtpAccepted \<Longrightarrow> agrees (rejected_result m i c msg) st (Some c)"
  by (simp add: agrees_def rejected_result_def)

text \<open>The results of phase 1 name their message.\<close>

definition shaped :: "bulk_env \<Rightarrow> str \<Rightarrow> nat \<Rightarrow> message_result + prepared_message \<Rightarrow> bool" where
  "shaped be k m r \<longleftrightarrow>
     (case r of
        Inl res \<Rightarrow> br_index res = m
      | Inr p \<Rightarrow> pm_index p = m \<and> pm_req_id p = be_ids be m \<and> pm_key_id p = k)"

lemma shaped_rejected [simp]: "shaped be k m (Inl (rejected_result m i c msg))"
  by (simp add: shaped_def rejected_result_def)

lemma yields_bulk_tier:
  "yields (\<lambda>r. \<forall>e. r = Inl e \<longrightarrow> shaped be k m (Inl e)) (bulk_tier_task ops be cfg auth m tier msg check)"
  unfolding bulk_tier_task_def
  by (rule yields_bind [OF yields_True]) (auto intro!: yields_then split: sum.split)

lemma yields_phase1:
  "yields (shaped be (ac_key_id auth) m) (phase1_task X ops be cfg auth m raw)"
proof -
  let ?k = "ac_key_id auth"
  have rates: "yields (\<lambda>r. \<forall>e. r = Inl e \<longrightarrow> shaped be ?k m (Inl e)) (bulk_rates_task ops be cfg auth m)"
    unfolding bulk_rates_task_def
    by (rule yields_try [OF yields_bulk_tier], rule yields_try [OF yields_bulk_tier], rule yields_bulk_tier) simp_all
  have build: "yields (shaped be ?k m) (bulk_build_task X ops be cfg auth m raw)"
    unfolding bulk_build_task_def Let_def
    by (auto intro!: yields_then simp: shaped_def rejected_result_def split: sum.split)
  show ?thesis
    unfolding phase1_task_def by (rule yields_try [OF rates]) (simp_all add: yields_then build)
qed

context tracking_store
begin

definition reported :: "bulk_env \<Rightarrow> str \<Rightarrow> nat \<Rightarrow> message_result \<Rightarrow> 'a world \<Rightarrow> bool" where
  "reported be k m r w \<longleftrightarrow> (\<exists>st co. agrees r st co \<and> record_is (message_env be m) k st co w)"

lemma reported_others: "reported be k m r w \<Longrightarrow> others (be_ids be m) w w' \<Longrightarrow> reported be k m r w'"
  unfolding reported_def by (metis record_is_others message_env_simps(1))

lemma reported_rejected:
  "record_is (message_env be m) k st (Some c) w \<Longrightarrow> is_terminal st \<Longrightarrow> st \<noteq> SmtpAccepted \<Longrightarrow>
     reported be k m (rejected_result m i c msg) w"
  unfolding reported_def using agrees_rejected by blast

subsection \<open>Phase 1 for the message\<close>

abbreviation in_phase :: "bulk_env \<Rightarrow> str \<Rightarrow> nat \<Rightarrow> submission_status \<Rightarrow> 'a world \<Rightarrow> bool" where
  "in_phase be k m st \<equiv> record_is (message_env be m) k st None"

definition phase1_so_far :: "bulk_env \<Rightarrow> str \<Rightarrow> nat \<Rightarrow> message_result + 'r \<Rightarrow> 'a world \<Rightarrow> bool" where
  "phase1_so_far be k m r w \<longleftrightarrow>
     (case r of Inl res \<Rightarrow> reported be k m res w | Inr _ \<Rightarrow> in_phase be k m Received w)"

lemma leads_absent_quiet:
  "leads ev (absent (ev_request_id ev)) (metrics_do g) (\<lambda>_. absent (ev_request_id ev))"
  "leads ev (absent (ev_request_id ev)) (limiter_do h) (\<lambda>_. absent (ev_request_id ev))"
  unfolding leads_def metrics_do_def limiter_do_def
  by (auto intro!: survives_atomically simp: absent_def others_def split: prod.split)

lemma leads_bulk_update:
  assumes "calls_valid (be_ids be m) (be_received be m) (be_clock be m)" and "\<not> is_terminal st"
  shows "leads (message_env be m) (record_is (message_env be m) k st co)
    (bulk_update_do ops (be_clock be m n) (be_ids be m) k st' co' msg)
    (\<lambda>_. record_is (message_env be m) k st' co')"
  unfolding bulk_update_do_def
  using leads_update [of st "message_env be m" n k "\<lparr>su_status = st', su_code = co', su_message = Some msg\<rparr>" co] assms
  by (simp add: calls_valid_def)

lemma leads_bulk_tier:
  assumes v: "calls_valid (be_ids be m) (be_received be m) (be_clock be m)"
  shows "leads (message_env be m) (absent (be_ids be m)) (bulk_tier_task ops be cfg auth m tier msg check)
    (\<lambda>r w. case r of Inl res \<Rightarrow> reported be (ac_key_id auth) m res w | Inr _ \<Rightarrow> absent (be_ids be m) w)"
proof -
  let ?ev = "message_env be m" and ?k = "ac_key_id auth"
  note quiet = leads_absent_quiet [of ?ev, simplified]
  have put: "leads ?ev (absent (be_ids be m)) (store_do (so_put_received ops
      (new_received (be_received be m) (be_ids be m) ?k ttl))) (\<lambda>_. in_phase be ?k m Received)" for ttl
    using leads_put [of ?ev ?k ttl] v by simp
  show ?thesis
    unfolding bulk_tier_task_def store_rejected_do_def
    by (rule leads_bind [OF quiet(2)])
       (auto intro!: leads_then [OF quiet(1)] leads_then [OF leads_then [OF put leads_bulk_update [OF v]]]
         leads_Done reported_rejected split: sum.split)
qed

lemma leads_yields: "leads ev A t B \<Longrightarrow> yields P t \<Longrightarrow> leads ev A t (\<lambda>r w. B r w \<and> P r)"
  unfolding leads_def by (blast intro: survives_yields)

lemma leads_bulk_rates:
  assumes v: "calls_valid (be_ids be m) (be_received be m) (be_clock be m)"
  shows "leads (message_env be m) (absent (be_ids be m)) (bulk_rates_task ops be cfg auth m)
    (\<lambda>r w. case r of Inl res \<Rightarrow> reported be (ac_key_id auth) m res w | Inr _ \<Rightarrow> absent (be_ids be m) w)"
proof -
  note tier = leads_bulk_tier [OF v, where cfg = cfg and auth = auth]
  have after: "leads (message_env be m) (\<lambda>w. case Inr a of Inl res \<Rightarrow> reported be (ac_key_id auth) m res w
      | Inr _ \<Rightarrow> absent (be_ids be m) w) t B" if "leads (message_env be m) (absent (be_ids be m)) t B" for a :: unit and t B
    using that by simp
  show ?thesis
    unfolding bulk_rates_task_def
    by (rule leads_try [OF tier], rule after, rule leads_try [OF tier], rule after, rule tier) simp_all
qed

lemma leads_bulk_build:
  assumes v: "calls_valid (be_ids be m) (be_received be m) (be_clock be m)"
  shows "leads (message_env be m) (in_phase be (ac_key_id auth) m Received)
    (bulk_build_task X ops be cfg auth m raw) (phase1_so_far be (ac_key_id auth) m)"
proof -
  let ?ev = "message_env be m" and ?k = "ac_key_id auth"
  have meta: "leads ?ev (in_phase be ?k m Received)
      (store_do (so_set_recipient_metadata ops (be_clock be m n) (be_ids be m) ?k ds c))
      (\<lambda>_. in_phase be ?k m Received)" for n ds c
    using leads_metadata [of ?ev n ?k ds c] v by (simp add: calls_valid_def)
  have upd: "leads ?ev (in_phase be ?k m Received)
      (then_do (bulk_update_do ops (be_clock be m n) (be_ids be m) ?k Rejected (Some c) msg)
        (Done (Inl (rejected_result m i c msg')))) (phase1_so_far be ?k m)" for n c msg i msg'
    by (rule leads_then [OF leads_bulk_update [OF v]])
       (auto intro!: leads_Done reported_rejected simp: phase1_so_far_def)
  show ?thesis
    unfolding bulk_build_task_def Let_def
    by (auto intro!: leads_metrics_then upd leads_then [OF meta] leads_Done
        simp: phase1_so_far_def split: sum.split)
qed

lemma leads_phase1:
  assumes v: "calls_valid (be_ids be m) (be_received be m) (be_clock be m)"
  shows "leads (message_env be m) (absent (be_ids be m)) (phase1_task X ops be cfg auth m raw)
    (\<lambda>r w. phase1_so_far be (ac_key_id auth) m r w \<and> shaped be (ac_key_id auth) m r)"
proof (rule leads_yields [OF _ yields_phase1])
  let ?ev = "message_env be m" and ?k = "ac_key_id auth"
  have put: "leads ?ev (absent (be_ids be m)) (store_do (so_put_received ops
      (new_received (be_received be m) (be_ids be m) ?k ttl))) (\<lambda>_. in_phase be ?k m Received)" for ttl
    using leads_put [of ?ev ?k ttl] v by simp
  show "leads ?ev (absent (be_ids be m)) (phase1_task X ops be cfg auth m raw) (phase1_so_far be ?k m)"
    unfolding phase1_task_def
    by (rule leads_try [OF leads_bulk_rates [OF v]])
       (simp_all add: leads_then [OF put leads_bulk_build [OF v]] phase1_so_far_def)
qed

subsection \<open>The other messages\<close>

text \<open>A section for other ids is interference.\<close>

lemma store_step_others:
  assumes "store_step W C w w' C'" and "C \<subseteq> W" and "i \<notin> W" and "ok (wd_store w)"
  shows "others i w w'"
proof (cases "wd_store w' = wd_store w")
  case True
  with assms(4) show ?thesis by (simp add: others_def)
next
  case False
  with assms(1) obtain op m where op: "valid op" "\<And>i. creates op i \<Longrightarrow> i \<in> C - C'"
    "\<And>i k. writes op i k \<Longrightarrow> i \<in> W" "wd_store w' = fst (apply_op ops op (wd_store w, m))"
    unfolding store_step_def by blast
  let ?x = "(wd_store w, m)"
  have ok: "ok (fst ?x)" using assms(4) by simp
  have c: "\<not> creates op i" and wr: "\<not> writes op i k" for k using op(2,3) assms(2,3) by blast+
  have "view (wd_store w') i \<in> {view (wd_store w) i, None}"
  proof (cases "view (wd_store w) i")
    case None
    with evolves_step [OF ok op(1) c] op(4) show ?thesis
      by (cases "view (wd_store w') i") (auto simp: evolves_Some_iff)
  next
    case (Some r)
    with foreign_step [OF ok op(1) c, of r] wr op(4) show ?thesis by simp
  qed
  with ok_step [OF ok op(1)] op(4) show ?thesis by (simp add: others_def)
qed

lemma leads_other_task:
  assumes "store_task W C P t" and "C \<subseteq> W" and "ev_request_id ev \<notin> W"
    and "\<And>w w'. A w \<Longrightarrow> others (ev_request_id ev) w w' \<Longrightarrow> A w'" and "\<And>w. A w \<Longrightarrow> ok (wd_store w)"
  shows "leads ev A t (\<lambda>_. A)"
  unfolding leads_def
proof (intro allI impI)
  fix w assume "A w"
  have "survives (others (ev_request_id ev)) (\<lambda>r w. A w \<and> (\<exists>c. P r c)) t w"
  proof (rule survives_sections [OF assms(1) [unfolded store_task_def], where J = "\<lambda>C. C \<subseteq> W"])
    fix c w w' c' assume "c \<subseteq> W" "A w" "store_step W c w w' c'"
    with store_step_others [OF this(3) this(1) assms(3)] assms(4,5) show "A w' \<and> c' \<subseteq> W"
      unfolding store_step_def by blast
  qed (use assms(2,4) \<open>A w\<close> in auto)
  then show "survives (others (ev_request_id ev)) (\<lambda>_. A) t w" by (rule survives_mono) simp
qed

lemma leads_other_phase1:
  assumes "bulk_valid {be_ids be j} be" and "be_ids be j \<noteq> be_ids be m"
    and "\<And>w w'. A w \<Longrightarrow> others (be_ids be m) w w' \<Longrightarrow> A w'" and "\<And>w. A w \<Longrightarrow> ok (wd_store w)"
  shows "leads (message_env be m) A (phase1_task X ops be cfg auth j raw)
    (\<lambda>r w. A w \<and> shaped be (ac_key_id auth) j r)"
proof (rule leads_yields [OF _ yields_phase1])
  note task = store_phase1_task [OF assms(1) order_refl, of j, simplified]
  show "leads (message_env be m) A (phase1_task X ops be cfg auth j raw) (\<lambda>_. A)"
    by (rule leads_other_task [OF task]) (use assms(2-4) in auto)
qed

subsection \<open>The loop of phase 1\<close>

text \<open>What phase 1 has collected names the messages, each once.\<close>

definition collected ::
  "bulk_env \<Rightarrow> str \<Rightarrow> nat \<Rightarrow> nat \<Rightarrow> message_result list \<times> prepared_message list \<Rightarrow> bool" where
  "collected be k index n rp \<longleftrightarrow>
     mset (List.map br_index (fst rp)) + mset (List.map pm_index (snd rp)) = mset [index..<index + n]
     \<and> (\<forall>p \<in> set (snd rp). pm_req_id p = be_ids be (pm_index p) \<and> pm_key_id p = k)"

text \<open>The record of the message, after phase 1.\<close>

definition phase1_done ::
  "bulk_env \<Rightarrow> str \<Rightarrow> nat \<Rightarrow> message_result list \<times> prepared_message list \<Rightarrow> 'a world \<Rightarrow> bool" where
  "phase1_done be k m rp w \<longleftrightarrow>
     ok (wd_store w)
     \<and> (\<forall>r \<in> set (fst rp). br_index r = m \<longrightarrow> reported be k m r w)
     \<and> (\<forall>p \<in> set (snd rp). pm_index p = m \<longrightarrow> in_phase be k m Received w)"

lemma in_phase_others: "in_phase be k m st w \<Longrightarrow> others (be_ids be m) w w' \<Longrightarrow> in_phase be k m st w'"
  by (rule record_is_others) simp_all

lemma phase1_done_others:
  assumes "phase1_done be k m rp w" and "others (be_ids be m) w w'"
  shows "phase1_done be k m rp w'"
  using assms(1) reported_others [OF _ assms(2)] in_phase_others [OF _ assms(2)] assms(2)
  unfolding phase1_done_def by (auto simp: others_def [of _ w w'])

definition add_result ::
  "message_result + prepared_message \<Rightarrow> message_result list \<times> prepared_message list \<Rightarrow>
     message_result list \<times> prepared_message list" where
  "add_result r rp = (case r of Inl res \<Rightarrow> (res # fst rp, snd rp) | Inr p \<Rightarrow> (fst rp, p # snd rp))"

lemma collected_add:
  assumes "collected be k (Suc index) n rp" and "shaped be k index r"
  shows "collected be k index (Suc n) (add_result r rp)"
proof -
  have "[index..<index + Suc n] = index # [Suc index..<Suc index + n]"
    by (simp add: upt_conv_Cons del: upt_Suc)
  with assms show ?thesis
    by (auto simp: collected_def shaped_def add_result_def split: sum.splits)
qed

lemma phase1_done_add:
  assumes "phase1_done be k m rp w" and "shaped be k index r"
    and "index = m \<Longrightarrow> phase1_so_far be k m r w"
  shows "phase1_done be k m (add_result r rp) w"
  using assms by (auto simp: phase1_done_def add_result_def shaped_def phase1_so_far_def split: sum.splits)

lemma leads_loop_other:
  assumes "\<And>j. index \<le> j \<Longrightarrow> j < index + length messages \<Longrightarrow> bulk_valid {be_ids be j} be \<and> be_ids be j \<noteq> be_ids be m"
    and "\<And>w w'. A w \<Longrightarrow> others (be_ids be m) w w' \<Longrightarrow> A w'" and "\<And>w. A w \<Longrightarrow> ok (wd_store w)"
  shows "leads (message_env be m) A (phase1_loop_task X ops be cfg auth index messages)
    (\<lambda>rp w. A w \<and> collected be (ac_key_id auth) index (length messages) rp)"
  using assms(1)
proof (induction messages arbitrary: index)
  case Nil
  then show ?case by (auto intro!: leads_Done simp: collected_def)
next
  case (Cons raw messages)
  let ?k = "ac_key_id auth"
  have one: "leads (message_env be m) A (phase1_task X ops be cfg auth index raw) (\<lambda>r w. A w \<and> shaped be ?k index r)"
    using Cons.prems [of index] assms(2,3) by (intro leads_other_phase1) auto
  have rest: "leads (message_env be m) A (phase1_loop_task X ops be cfg auth (Suc index) messages)
      (\<lambda>rp w. A w \<and> collected be ?k (Suc index) (length messages) rp)"
    using Cons.prems by (intro Cons.IH) auto
  have "leads (message_env be m) (\<lambda>w. A w \<and> shaped be ?k index r)
      (bind_task (phase1_loop_task X ops be cfg auth (Suc index) messages)
        (\<lambda>(rejected, prepared). Done (case r of Inl res \<Rightarrow> (res # rejected, prepared) | Inr p \<Rightarrow> (rejected, p # prepared))))
      (\<lambda>rp w. A w \<and> collected be ?k index (length (raw # messages)) rp)" for r
  proof (cases "shaped be ?k index r")
    case True
    have "leads (message_env be m) (\<lambda>w. A w \<and> shaped be ?k index r)
        (phase1_loop_task X ops be cfg auth (Suc index) messages)
        (\<lambda>rp w. A w \<and> collected be ?k (Suc index) (length messages) rp)"
      using rest by (simp add: leads_def)
    then show ?thesis
      by (rule leads_bind)
         (use collected_add [OF _ True] in \<open>auto intro!: leads_Done simp: add_result_def split: sum.splits prod.split\<close>)
  qed (simp add: leads_def)
  then show ?case by (simp, intro leads_bind [OF one])
qed

lemma phase1_so_far_others:
  "phase1_so_far be k m r w \<Longrightarrow> others (be_ids be m) w w' \<Longrightarrow> phase1_so_far be k m r w'"
  unfolding phase1_so_far_def by (auto intro: reported_others in_phase_others split: sum.splits)

lemma phase1_so_far_ok: "phase1_so_far be k m r w \<Longrightarrow> ok (wd_store w)"
  by (auto simp: phase1_so_far_def reported_def record_is_def split: sum.splits)

lemma collected_indices:
  assumes "collected be k index n rp"
  shows "br_index ` set (fst rp) \<union> pm_index ` set (snd rp) = {index..<index + n}"
    and "distinct (List.map pm_index (snd rp))"
    and "br_index ` set (fst rp) \<inter> pm_index ` set (snd rp) = {}"
proof -
  have eq: "mset (List.map br_index (fst rp) @ List.map pm_index (snd rp)) = mset [index..<index + n]"
    using assms by (simp add: collected_def)
  show "br_index ` set (fst rp) \<union> pm_index ` set (snd rp) = {index..<index + n}"
    using mset_eq_setD [OF eq] by simp
  have "distinct (List.map br_index (fst rp) @ List.map pm_index (snd rp))"
    using mset_eq_imp_distinct_iff [OF eq] by simp
  then show "distinct (List.map pm_index (snd rp))" "br_index ` set (fst rp) \<inter> pm_index ` set (snd rp) = {}"
    by auto
qed

lemma phase1_done_later:
  assumes "ok (wd_store w)" and "collected be k index n rp" and "m < index"
  shows "phase1_done be k m rp w"
proof -
  have "x \<noteq> m" if "x \<in> br_index ` set (fst rp) \<union> pm_index ` set (snd rp)" for x
    using that assms(3) unfolding collected_indices(1) [OF assms(2)] by simp
  then have "\<forall>r \<in> set (fst rp). br_index r \<noteq> m" "\<forall>p \<in> set (snd rp). pm_index p \<noteq> m"
    by (meson UnI1 UnI2 imageI)+
  with assms(1) show ?thesis by (simp add: phase1_done_def)
qed

lemma leads_prepare:
  assumes "bulk_valid {be_ids be index} be" and "index \<noteq> m \<longrightarrow> be_ids be index \<noteq> be_ids be m"
  shows "leads (message_env be m) (absent (be_ids be m)) (phase1_task X ops be cfg auth index raw)
    (\<lambda>r w. (if index = m then phase1_so_far be (ac_key_id auth) m r w else absent (be_ids be m) w)
       \<and> shaped be (ac_key_id auth) index r)"
proof (cases "index = m")
  case True
  with assms(1) have "calls_valid (be_ids be m) (be_received be m) (be_clock be m)" by (simp add: bulk_valid_def)
  from leads_phase1 [OF this] True show ?thesis by simp
next
  case False
  with assms(2) have i: "be_ids be index \<noteq> be_ids be m" by blast
  have "leads (message_env be m) (absent (be_ids be m)) (phase1_task X ops be cfg auth index raw)
      (\<lambda>r w. absent (be_ids be m) w \<and> shaped be (ac_key_id auth) index r)"
    by (rule leads_other_phase1 [OF assms(1) i]) (erule (1) absent_others, simp add: absent_def)
  with False show ?thesis by simp
qed

lemma leads_loop:
  assumes "\<And>j. index \<le> j \<Longrightarrow> j < index + length messages \<Longrightarrow>
      bulk_valid {be_ids be j} be \<and> (j \<noteq> m \<longrightarrow> be_ids be j \<noteq> be_ids be m)"
    and "index \<le> m" and "m < index + length messages"
  shows "leads (message_env be m) (absent (be_ids be m)) (phase1_loop_task X ops be cfg auth index messages)
    (\<lambda>rp w. phase1_done be (ac_key_id auth) m rp w
       \<and> collected be (ac_key_id auth) index (length messages) rp)"
  using assms
proof (induction messages arbitrary: index)
  case Nil
  then show ?case by simp
next
  case (Cons raw messages)
  let ?k = "ac_key_id auth" and ?ev = "message_env be m" and ?n = "length messages"
  let ?rest = "phase1_loop_task X ops be cfg auth (Suc index) messages"
  let ?done = "\<lambda>rp w. phase1_done be ?k m rp w \<and> collected be ?k index (length (raw # messages)) rp"
  let ?add = "\<lambda>r. bind_task ?rest (\<lambda>(rejected, prepared).
      Done (case r of Inl res \<Rightarrow> (res # rejected, prepared) | Inr p \<Rightarrow> (rejected, p # prepared)))"
  define A where "A = (\<lambda>(r :: message_result + prepared_message) w. if index = m then phase1_so_far be ?k m r w else absent (be_ids be m) w)"
  have one: "leads ?ev (absent (be_ids be m)) (phase1_task X ops be cfg auth index raw)
      (\<lambda>r w. A r w \<and> shaped be ?k index r)"
    unfolding A_def using Cons.prems(1) [of index] by (intro leads_prepare) simp_all
  have rest: "leads ?ev (A r) ?rest (\<lambda>rp w. (index = m \<longrightarrow> A r w) \<and> phase1_done be ?k m rp w
      \<and> collected be ?k (Suc index) ?n rp)" for r
  proof (cases "index = m")
    case True
    have "leads ?ev (A r) ?rest (\<lambda>rp w. A r w \<and> collected be ?k (Suc index) ?n rp)"
      using Cons.prems(1) True phase1_so_far_others phase1_so_far_ok
      by (intro leads_loop_other) (auto simp: A_def)
    moreover have "phase1_done be ?k m rp w" if "A r w" "collected be ?k (Suc index) ?n rp" for rp w
      using that True phase1_so_far_ok by (intro phase1_done_later) (auto simp: A_def)
    ultimately show ?thesis unfolding leads_def by (blast intro: survives_mono)
  next
    case False
    then have "leads ?ev (absent (be_ids be m)) ?rest (\<lambda>rp w. phase1_done be ?k m rp w
        \<and> collected be ?k (Suc index) ?n rp)"
      using Cons.prems by (intro Cons.IH) auto
    with False show ?thesis by (simp add: A_def)
  qed
  have add: "leads ?ev (\<lambda>w. A r w \<and> shaped be ?k index r) (?add r) ?done" for r
  proof (cases "shaped be ?k index r")
    case True
    have "phase1_done be ?k m (add_result r rp) w"
      if "index = m \<longrightarrow> A r w" "phase1_done be ?k m rp w" for rp w
      using that by (intro phase1_done_add [OF _ True]) (simp_all add: A_def)
    then have "leads ?ev (A r) (?add r) ?done"
      using collected_add [OF _ True]
      by (intro leads_bind [OF rest]) (auto intro!: leads_Done simp: add_result_def split: sum.splits prod.split)
    with True show ?thesis by simp
  qed (simp add: leads_def)
  show ?case by (simp, rule leads_bind [OF one], rule add [simplified])
qed

subsection \<open>Phase 2\<close>

text \<open>The two sections of a submission.\<close>

lemma wd_store_bulk_update:
  "wd_store (bulk_update ops clk i k st co msg w)
    = fst (apply_op ops (Update_Status clk i k \<lparr>su_status = st, su_code = co, su_message = Some msg\<rparr>)
        (wd_store w, wd_metrics w))"
  by (simp add: bulk_update_def with_store_def split: prod.split)

lemma others_bulk_update:
  assumes "calls_valid j now clks" and "j \<noteq> i" and "ok (wd_store w)"
  shows "others i w (bulk_update ops (clks n) j k st co msg w)"
proof (rule store_step_others [of "{j}" "{}" w _ "{}"])
  have "valid (Update_Status (clks n) j k \<lparr>su_status = st, su_code = co, su_message = Some msg\<rparr>)"
    using assms(1) by (simp add: calls_valid_def)
  then show "store_step {j} {} w (bulk_update ops (clks n) j k st co msg w) {}"
    unfolding store_step_def wd_store_bulk_update
    by (intro conjI disjI2 exI conjI) (assumption | rule refl | simp)+
qed (use assms in auto)

lemma others_frames [simp]:
  "others i w (w'\<lparr>wd_sent := q\<rparr>) = others i w w'"
  "others i w (w'\<lparr>wd_metrics := m\<rparr>) = others i w w'"
  "others i (w\<lparr>wd_metrics := m\<rparr>) w' = others i w w'"
  by (simp_all add: others_def)

lemma phase2_others:
  assumes "bulk_valid {pm_req_id p} be" and "pm_req_id p \<noteq> i" and "ok (wd_store w)"
  shows "others i w (phase2_begin ops be p w)" and "others i w (phase2_end ops be cfg p w)"
proof -
  have v: "calls_valid (pm_req_id p) (be_received be n) (be_clock be n)" for n
    using assms(1) by (simp add: bulk_valid_def)
  note upd = others_bulk_update [OF v assms(2)]
  show "others i w (phase2_begin ops be p w)"
    using upd [of w] assms(3) by (simp add: phase2_begin_def Let_def)
  have "others i w (bulk_update ops (be_clock be n j) (pm_req_id p) k st co msg (w\<lparr>wd_metrics := m\<rparr>))" for n j k st co msg m
    using upd [of "w\<lparr>wd_metrics := m\<rparr>" n j k st co msg] assms(3) by simp
  then show "others i w (phase2_end ops be cfg p w)"
    by (simp add: phase2_end_def Let_def split: sum.split)
qed

lemma in_phase_bulk_update:
  assumes "calls_valid (be_ids be m) (be_received be m) (be_clock be m)" and "\<not> is_terminal st0"
    and "record_is (message_env be m) k st0 co0 w"
  shows "record_is (message_env be m) k st co (bulk_update ops (be_clock be m n) (be_ids be m) k st co msg w)"
  using record_is_update [OF assms(3,2), of n "\<lparr>su_status = st, su_code = co, su_message = Some msg\<rparr>"] assms(1)
  by (simp add: calls_valid_def bulk_update_def)

lemma phase2_own:
  assumes "calls_valid (be_ids be m) (be_received be m) (be_clock be m)"
    and "pm_index p = m" and "pm_req_id p = be_ids be m" and "pm_key_id p = k"
  shows "in_phase be k m Received w \<Longrightarrow> in_phase be k m SmtpSubmissionStarted (phase2_begin ops be p w)"
    and "in_phase be k m SmtpSubmissionStarted w \<Longrightarrow>
      reported be k m (phase2_result be cfg p) (phase2_end ops be cfg p w)"
proof -
  note upd = in_phase_bulk_update [OF assms(1)]
  show "in_phase be k m SmtpSubmissionStarted (phase2_begin ops be p w)" if "in_phase be k m Received w"
    using upd [OF _ that] assms(2-4) by (simp add: phase2_begin_def Let_def)
  assume st: "in_phase be k m SmtpSubmissionStarted w"
  then have st': "in_phase be k m SmtpSubmissionStarted (w\<lparr>wd_metrics := m'\<rparr>)" for m' by simp
  show "reported be k m (phase2_result be cfg p) (phase2_end ops be cfg p w)"
  proof (cases "phase2_transfer be cfg p")
    case (Inl e)
    show ?thesis
      using reported_rejected [OF upd [OF _ st', where st = SmtpFailed]] assms(2-4) Inl
      by (simp add: phase2_result_def phase2_end_def Let_def)
  next
    case (Inr u)
    have "agrees (phase2_result be cfg p) SmtpAccepted None" using Inr by (simp add: phase2_result_def agrees_def)
    then show ?thesis
      using upd [OF _ st', where st = SmtpAccepted and co = None] assms(2-4) Inr
      unfolding reported_def phase2_end_def Let_def by (intro exI conjI) auto
  qed
qed

text \<open>The record of the message while the submissions run.\<close>

definition slot ::
  "bulk_env \<Rightarrow> str \<Rightarrow> nat \<Rightarrow> nat \<Rightarrow> message_result set \<Rightarrow> 'a bulk_state \<Rightarrow> 'a world \<Rightarrow> bool" where
  "slot be k n m rej st w \<longleftrightarrow>
     ok (wd_store w)
     \<and> (\<forall>p \<in> set (bs_waiting st) \<union> set (bs_running st).
          pm_index p < n \<and> pm_req_id p = be_ids be (pm_index p) \<and> pm_key_id p = k)
     \<and> distinct (List.map pm_index (bs_waiting st @ bs_running st))
     \<and> (\<forall>r \<in> rej \<union> set (bs_submitted st). br_index r \<notin> pm_index ` (set (bs_waiting st) \<union> set (bs_running st)))
     \<and> (\<forall>p \<in> set (bs_waiting st). pm_index p = m \<longrightarrow> in_phase be k m Received w)
     \<and> (\<forall>p \<in> set (bs_running st). pm_index p = m \<longrightarrow> in_phase be k m SmtpSubmissionStarted w)
     \<and> (\<forall>r \<in> rej \<union> set (bs_submitted st). br_index r = m \<longrightarrow> reported be k m r w)"

lemma slot_others:
  assumes "slot be k n m rej st w" and "others (be_ids be m) w w'"
  shows "slot be k n m rej st w'"
proof -
  have "ok (wd_store w')" using assms(2) by (simp add: others_def)
  with assms(1) reported_others [OF _ assms(2)] in_phase_others [OF _ assms(2)] show ?thesis
    unfolding slot_def by blast
qed

text \<open>Indices are distinct: nothing else has the index of a task.\<close>

lemma slot_only:
  assumes "slot be k n m rej st w" and "p \<in> set (bs_waiting st) \<union> set (bs_running st)"
  shows "q \<in> set (bs_waiting st) \<union> set (bs_running st) \<Longrightarrow> pm_index q = pm_index p \<Longrightarrow> q = p"
    and "r \<in> rej \<union> set (bs_submitted st) \<Longrightarrow> br_index r \<noteq> pm_index p"
    and "set (bs_waiting st) \<inter> set (bs_running st) = {}"
    and "set (remove1 q (bs_waiting st)) = set (bs_waiting st) - {q}"
    and "set (remove1 q (bs_running st)) = set (bs_running st) - {q}"
proof -
  have d: "distinct (List.map pm_index (bs_waiting st @ bs_running st))"
    and r: "\<forall>r \<in> rej \<union> set (bs_submitted st). br_index r \<notin> pm_index ` (set (bs_waiting st) \<union> set (bs_running st))"
    using assms(1) by (simp_all add: slot_def)
  have l: "distinct (bs_waiting st @ bs_running st)" "inj_on pm_index (set (bs_waiting st @ bs_running st))"
    using d unfolding distinct_map by blast+
  show "q \<in> set (bs_waiting st) \<union> set (bs_running st) \<Longrightarrow> pm_index q = pm_index p \<Longrightarrow> q = p"
    using inj_onD [OF l(2)] assms(2) unfolding set_append by blast
  show "r \<in> rej \<union> set (bs_submitted st) \<Longrightarrow> br_index r \<noteq> pm_index p"
    using r assms(2) by (metis imageI)
  show "set (bs_waiting st) \<inter> set (bs_running st) = {}"
    "set (remove1 q (bs_waiting st)) = set (bs_waiting st) - {q}"
    "set (remove1 q (bs_running st)) = set (bs_running st) - {q}"
    using l(1) by (simp_all add: set_remove1_eq)
qed

lemma slot_task:
  assumes "slot be k n m rej st w" and "p \<in> set (bs_waiting st) \<union> set (bs_running st)"
  shows "pm_index p < n" and "pm_req_id p = be_ids be (pm_index p)" and "pm_key_id p = k"
    and "p \<in> set (bs_waiting st) \<Longrightarrow> pm_index p = m \<Longrightarrow> in_phase be k m Received w"
    and "p \<in> set (bs_running st) \<Longrightarrow> pm_index p = m \<Longrightarrow> in_phase be k m SmtpSubmissionStarted w"
  using assms by (auto simp: slot_def)

definition bulk_ids_ok :: "bulk_env \<Rightarrow> nat \<Rightarrow> nat \<Rightarrow> bool" where
  "bulk_ids_ok be n m \<longleftrightarrow>
     m < n \<and> (\<forall>j < n. bulk_valid {be_ids be j} be \<and> (j \<noteq> m \<longrightarrow> be_ids be j \<noteq> be_ids be m))"

lemma slotI:
  assumes "slot be k n m rej st w0" and "ok (wd_store w)"
    and "set (bs_waiting st') \<union> set (bs_running st') \<subseteq> set (bs_waiting st) \<union> set (bs_running st)"
    and "distinct (List.map pm_index (bs_waiting st' @ bs_running st'))"
    and "\<And>r q. r \<in> rej \<union> set (bs_submitted st') \<Longrightarrow> q \<in> set (bs_waiting st') \<union> set (bs_running st') \<Longrightarrow>
      br_index r \<noteq> pm_index q"
    and "\<And>q. q \<in> set (bs_waiting st') \<Longrightarrow> pm_index q = m \<Longrightarrow> in_phase be k m Received w"
    and "\<And>q. q \<in> set (bs_running st') \<Longrightarrow> pm_index q = m \<Longrightarrow> in_phase be k m SmtpSubmissionStarted w"
    and "\<And>r. r \<in> rej \<union> set (bs_submitted st') \<Longrightarrow> br_index r = m \<Longrightarrow> reported be k m r w"
  shows "slot be k n m rej st' w"
  unfolding slot_def
proof (intro conjI ballI impI)
  fix q assume "q \<in> set (bs_waiting st') \<union> set (bs_running st')"
  with assms(3) have "q \<in> set (bs_waiting st) \<union> set (bs_running st)" by blast
  from slot_task(1-3) [OF assms(1) this]
  show "pm_index q < n" "pm_req_id q = be_ids be (pm_index q)" "pm_key_id q = k" .
next
  fix r assume "r \<in> rej \<union> set (bs_submitted st')"
  then show "br_index r \<notin> pm_index ` (set (bs_waiting st') \<union> set (bs_running st'))"
    using assms(5) by (metis imageE)
next
  show "ok (wd_store w)" "distinct (List.map pm_index (bs_waiting st' @ bs_running st'))" by (fact assms(2,4))+
next
  fix q assume "q \<in> set (bs_waiting st')" "pm_index q = m"
  then show "in_phase be k m Received w" by (rule assms(6))
next
  fix q assume "q \<in> set (bs_running st')" "pm_index q = m"
  then show "in_phase be k m SmtpSubmissionStarted w" by (rule assms(7))
next
  fix r assume "r \<in> rej \<union> set (bs_submitted st')" "br_index r = m"
  then show "reported be k m r w" by (rule assms(8))
qed

lemma slot_world [simp]: "slot be k n m rej (st\<lparr>bs_world := w'\<rparr>) w = slot be k n m rej st w"
  by (simp add: slot_def)

lemma slot_begin:
  assumes s: "slot be k n m rej st w" and p: "p \<in> set (bs_waiting st)" and v: "bulk_ids_ok be n m"
  shows "slot be k n m rej (st\<lparr>bs_waiting := remove1 p (bs_waiting st), bs_running := p # bs_running st,
    bs_world := w'\<rparr>) (phase2_begin ops be p w)" (is "slot be k n m rej ?st ?w")
proof -
  have pu: "p \<in> set (bs_waiting st) \<union> set (bs_running st)" using p by simp
  note only = slot_only [OF s pu] and task = slot_task [OF s pu]
  have sub: "set (bs_waiting ?st) \<union> set (bs_running ?st) \<subseteq> set (bs_waiting st) \<union> set (bs_running st)"
    using only(4) p by auto
  have "mset (List.map pm_index (bs_waiting ?st @ bs_running ?st)) = mset (List.map pm_index (bs_waiting st @ bs_running st))"
    using p by (simp add: image_mset_Diff)
  then have dist: "distinct (List.map pm_index (bs_waiting ?st @ bs_running ?st))"
    using mset_eq_imp_distinct_iff s unfolding slot_def by blast
  have free: "br_index r \<noteq> pm_index q" if "r \<in> rej \<union> set (bs_submitted ?st)" "q \<in> set (bs_waiting ?st) \<union> set (bs_running ?st)" for r q
    using slot_only(2) [OF s, of q r] that sub by auto
  have w: "ok (wd_store w)" using s by (simp add: slot_def)
  show ?thesis
  proof (cases "pm_index p = m")
    case True
    have cv: "calls_valid (be_ids be m) (be_received be m) (be_clock be m)"
      using v by (simp add: bulk_ids_ok_def bulk_valid_def)
    have own: "in_phase be k m SmtpSubmissionStarted ?w"
      using phase2_own(1) [OF cv True _ task(3) task(4) [OF p True]] task(2) True by simp
    have waits: "pm_index q \<noteq> m" if "q \<in> set (bs_waiting ?st)" for q
      using that only(1) [of q] only(4) [of p] True by auto
    have joined: "br_index r \<noteq> m" if "r \<in> rej \<union> set (bs_submitted ?st)" for r
      using that only(2) [of r] True by simp
    show ?thesis
      using waits own joined
      by (intro slotI [OF s _ sub dist free]) (auto simp: record_is_def)
  next
    case False
    then have "others (be_ids be m) w ?w"
      using task(1,2) v w by (intro phase2_others) (auto simp: bulk_ids_ok_def)
    from slot_others [OF s this] have s': "slot be k n m rej st ?w" .
    have waits: "in_phase be k m Received ?w" if "q \<in> set (bs_waiting ?st)" "pm_index q = m" for q
      using that slot_task(4) [OF s', of q] only(4) [of p] by simp
    have runs: "in_phase be k m SmtpSubmissionStarted ?w" if "q \<in> set (bs_running ?st)" "pm_index q = m" for q
      using that slot_task(5) [OF s', of q] False by auto
    have joined: "reported be k m r ?w" if "r \<in> rej \<union> set (bs_submitted ?st)" "br_index r = m" for r
      using that s' by (simp add: slot_def)
    have "ok (wd_store ?w)" using s' by (simp add: slot_def)
    then show ?thesis by (rule slotI [OF s _ sub dist free waits runs joined])
  qed
qed

lemma slot_end:
  assumes s: "slot be k n m rej st w" and p: "p \<in> set (bs_running st)" and v: "bulk_ids_ok be n m"
  shows "slot be k n m rej (st\<lparr>bs_running := remove1 p (bs_running st),
    bs_submitted := bs_submitted st @ [phase2_result be cfg p], bs_world := w'\<rparr>) (phase2_end ops be cfg p w)"
    (is "slot be k n m rej ?st ?w")
proof -
  have pu: "p \<in> set (bs_waiting st) \<union> set (bs_running st)" using p by simp
  note only = slot_only [OF s pu] and task = slot_task [OF s pu]
  have runs: "set (bs_running ?st) = set (bs_running st) - {p}" using only(5) by simp
  have sub: "set (bs_waiting ?st) \<union> set (bs_running ?st) \<subseteq> set (bs_waiting st) \<union> set (bs_running st)"
    using runs by auto
  have gone: "q \<noteq> p" if "q \<in> set (bs_waiting ?st) \<union> set (bs_running ?st)" for q
    using that runs only(3) p by auto
  have dist: "distinct (List.map pm_index (bs_waiting ?st @ bs_running ?st))"
    using distinct_map_remove1 [of pm_index "bs_waiting st" "bs_running st" p] s by (simp add: slot_def)
  have free: "br_index r \<noteq> pm_index q" if r: "r \<in> rej \<union> set (bs_submitted ?st)" and q: "q \<in> set (bs_waiting ?st) \<union> set (bs_running ?st)" for r q
  proof (cases "r \<in> rej \<union> set (bs_submitted st)")
    case True
    with slot_only(2) [OF s, of q r] q sub show ?thesis by blast
  next
    case False
    with r have "br_index r = pm_index p" by auto
    with only(1) [of q] gone [OF q] q sub show ?thesis by auto
  qed
  have w: "ok (wd_store w)" using s by (simp add: slot_def)
  show ?thesis
  proof (cases "pm_index p = m")
    case True
    have cv: "calls_valid (be_ids be m) (be_received be m) (be_clock be m)"
      using v by (simp add: bulk_ids_ok_def bulk_valid_def)
    have own: "reported be k m (phase2_result be cfg p) ?w"
      using phase2_own(2) [OF cv True _ task(3) task(5) [OF p True]] task(2) True by simp
    then have ok': "ok (wd_store ?w)" by (auto simp: reported_def record_is_def)
    have none: "pm_index q \<noteq> m" if "q \<in> set (bs_waiting ?st) \<union> set (bs_running ?st)" for q
      using only(1) [of q] gone [OF that] that sub True by auto
    have joined: "reported be k m r ?w" if "r \<in> rej \<union> set (bs_submitted ?st)" "br_index r = m" for r
      using that only(2) [of r] True own by auto
    show ?thesis
      using none by (intro slotI [OF s ok' sub dist free _ _ joined]) auto
  next
    case False
    then have "others (be_ids be m) w ?w"
      using task(1,2) v w by (intro phase2_others) (auto simp: bulk_ids_ok_def)
    from slot_others [OF s this] have s': "slot be k n m rej st ?w" .
    have wt: "in_phase be k m Received ?w" if "q \<in> set (bs_waiting ?st)" "pm_index q = m" for q
      using that slot_task(4) [OF s', of q] by simp
    have rn: "in_phase be k m SmtpSubmissionStarted ?w" if "q \<in> set (bs_running ?st)" "pm_index q = m" for q
      using that slot_task(5) [OF s', of q] runs by auto
    have joined: "reported be k m r ?w" if "r \<in> rej \<union> set (bs_submitted ?st)" "br_index r = m" for r
      using that s' False by (auto simp: slot_def)
    have "ok (wd_store ?w)" using s' by (simp add: slot_def)
    then show ?thesis by (rule slotI [OF s _ sub dist free wt rn joined])
  qed
qed

lemma slot_fire:
  assumes "slot be k n m rej st (bs_world st)" and "bulk_ids_ok be n m"
    and "fire ops be cfg permits e st = Some st'"
  shows "slot be k n m rej st' (bs_world st')"
proof (cases e)
  case (Begin i)
  with assms(3) obtain p where "p \<in> set (bs_waiting st)"
    "st' = st\<lparr>bs_waiting := remove1 p (bs_waiting st), bs_running := p # bs_running st,
      bs_world := phase2_begin ops be p (bs_world st)\<rparr>"
    by (auto simp: fire_def dest!: find_SomeD split: option.splits if_splits)
  with slot_begin [OF assms(1) this(1) assms(2)] show ?thesis by simp
next
  case (Finish i)
  with assms(3) obtain p where "p \<in> set (bs_running st)"
    "st' = st\<lparr>bs_running := remove1 p (bs_running st), bs_submitted := bs_submitted st @ [phase2_result be cfg p],
      bs_world := phase2_end ops be cfg p (bs_world st)\<rparr>"
    by (auto simp: fire_def dest!: find_SomeD split: option.splits)
  with slot_end [OF assms(1) this(1) assms(2)] show ?thesis by simp
qed

lemma leads_schedule:
  assumes "bulk_ids_ok be n m"
  shows "leads (message_env be m) (slot be k n m rej st) (schedule_task ops be cfg permits evs st)
    (\<lambda>res w. \<forall>st'. res = Some st' \<longrightarrow> slot be k n m rej st' w)"
proof (induction evs arbitrary: st)
  case Nil
  then show ?case by (auto intro: leads_Done)
next
  case (Cons e evs)
  show ?case
    unfolding leads_def
  proof (intro allI impI, simp, intro allI impI)
    fix w w'
    assume "slot be k n m rej st w" "others (be_ids be m) w w'"
    then have s: "slot be k n m rej (st\<lparr>bs_world := w'\<rparr>) (bs_world (st\<lparr>bs_world := w'\<rparr>))"
      using slot_others by simp
    show "survives (others (be_ids be m)) (\<lambda>res w. \<forall>st'. res = Some st' \<longrightarrow> slot be k n m rej st' w)
        (case fire ops be cfg permits e (st\<lparr>bs_world := w'\<rparr>) of None \<Rightarrow> Done None
         | Some st' \<Rightarrow> schedule_task ops be cfg permits evs st')
        (case fire ops be cfg permits e (st\<lparr>bs_world := w'\<rparr>) of None \<Rightarrow> w' | Some st' \<Rightarrow> bs_world st')"
    proof (cases "fire ops be cfg permits e (st\<lparr>bs_world := w'\<rparr>)")
      case (Some st')
      have "slot be k n m rej st' (bs_world st')" by (rule slot_fire [OF s assms Some])
      with Cons.IH [of st'] Some show ?thesis by (simp add: leads_def)
    qed simp
  qed
qed

text \<open>The results that a schedule collects are those of the prepared messages.\<close>

lemma yields_schedule:
  "tasks_inv be cfg permits prepared st \<Longrightarrow>
     yields (\<lambda>res. \<forall>st'. res = Some st' \<longrightarrow> tasks_inv be cfg permits prepared st')
       (schedule_task ops be cfg permits evs st)"
proof (induction evs arbitrary: st)
  case Nil
  then show ?case by simp
next
  case (Cons e evs)
  have "yields (\<lambda>res. \<forall>st'. res = Some st' \<longrightarrow> tasks_inv be cfg permits prepared st')
      (case fire ops be cfg permits e (st\<lparr>bs_world := w\<rparr>) of None \<Rightarrow> Done None
       | Some st' \<Rightarrow> schedule_task ops be cfg permits evs st')" for w
  proof (cases "fire ops be cfg permits e (st\<lparr>bs_world := w\<rparr>)")
    case (Some st')
    have "tasks_inv be cfg permits prepared (st\<lparr>bs_world := w\<rparr>)" using Cons.prems by (simp add: tasks_inv_def)
    from fire_inv [OF Some this] Some show ?thesis by (simp add: Cons.IH)
  qed simp
  then show ?case by auto
qed

subsection \<open>The bulk task\<close>

text \<open>The response reports every message, and the record of the message agrees with its result.\<close>

definition bulk_matches ::
  "bulk_env \<Rightarrow> str \<Rightarrow> nat \<Rightarrow> request_id \<Rightarrow> nat \<Rightarrow> (app_error + http_reply) option \<Rightarrow> 'a world \<Rightarrow> bool" where
  "bulk_matches be k n rid m res w \<longleftrightarrow>
     (\<forall>reply. res = Some (Inr reply) \<longrightarrow>
        (\<exists>results. reply = bulk_reply rid n results \<and> List.map br_index results = [0..<n]
           \<and> reported be k m (results ! m) w))"

lemma slot_start:
  assumes "phase1_done be k m rp w" and "collected be k 0 n rp"
  shows "slot be k n m (set (fst rp)) \<lparr>bs_waiting = snd rp, bs_running = [], bs_submitted = [], bs_world = w'\<rparr> w"
proof -
  note ix = collected_indices [OF assms(2)]
  have "pm_index p < n" if "p \<in> set (snd rp)" for p
    using ix(1) that by (metis UnI2 add_0 atLeastLessThan_iff imageI)
  moreover have "pm_req_id p = be_ids be (pm_index p)" "pm_key_id p = k" if "p \<in> set (snd rp)" for p
    using assms(2) that by (simp_all add: collected_def)
  moreover have "br_index r \<notin> pm_index ` set (snd rp)" if "r \<in> set (fst rp)" for r
    using ix(3) that by blast
  ultimately show ?thesis
    using assms(1) ix(2) unfolding slot_def phase1_done_def by simp
qed

lemma slot_reply:
  assumes "slot be k n m (set (fst rp)) st w" and "collected be k 0 n rp"
    and "tasks_inv be cfg permits (snd rp) st" and "all_joined st" and "m < n"
  shows "bulk_matches be k n rid m (Some (Inr (bulk_reply rid n (merge_results (fst rp) (bs_submitted st))))) w"
proof -
  let ?rs = "merge_results (fst rp) (bs_submitted st)"
  have "mset (bs_submitted st) = mset (List.map (phase2_result be cfg) (snd rp))"
    using assms(3,4) by (simp add: tasks_inv_def all_joined_def)
  then have "image_mset br_index (mset (bs_submitted st))
      = image_mset br_index (mset (List.map (phase2_result be cfg) (snd rp)))" by (rule arg_cong)
  then have "mset (List.map br_index (bs_submitted st)) = mset (List.map pm_index (snd rp))"
    by (simp add: multiset.map_comp comp_def)
  then have "mset (List.map br_index (fst rp @ bs_submitted st)) = mset [0..<n]"
    using assms(2) by (simp add: collected_def)
  from map_sort_key_upt [OF this] have ix: "List.map br_index ?rs = [0..<n]"
    unfolding merge_results_def .
  then have len: "length ?rs = n" by (metis diff_zero length_map length_upt)
  have "br_index (?rs ! m) = m" using ix len assms(5) by (metis add_0 nth_map nth_upt)
  moreover have "?rs ! m \<in> set (fst rp) \<union> set (bs_submitted st)"
    using nth_mem [of m ?rs] len assms(5) by (simp add: merge_results_def)
  ultimately have "reported be k m (?rs ! m) w" using assms(1) by (simp add: slot_def)
  with ix show ?thesis unfolding bulk_matches_def by blast
qed

lemma bulk_matches_trivial: "\<forall>reply. res \<noteq> Some (Inr reply) \<Longrightarrow> bulk_matches be k n rid m res w"
  by (simp add: bulk_matches_def)

lemma bulk_matches_others:
  "bulk_matches be k n rid m res w \<Longrightarrow> others (be_ids be m) w w' \<Longrightarrow> bulk_matches be k n rid m res w'"
  unfolding bulk_matches_def by (blast intro: reported_others)

lemma slot_metrics [simp]: "slot be k n m rej st (w\<lparr>wd_metrics := x\<rparr>) = slot be k n m rej st w"
  by (simp add: slot_def reported_def)

definition join_task ::
  "request_id \<Rightarrow> nat \<Rightarrow> message_result list \<Rightarrow> 'a bulk_state option \<Rightarrow>
     ('a world, (app_error + http_reply) option) task" where
  "join_task rid n rejected res =
     (case res of
        None \<Rightarrow> Done None
      | Some st \<Rightarrow>
          if all_joined st
          then then_do (metrics_do (inc_request ''2xx''))
                 (Done (Some (Inr (bulk_reply rid n (merge_results rejected (bs_submitted st))))))
          else Done None)"

lemma bulk_task_phases:
  assumes "messages \<noteq> []" and "\<not> length messages > unat (ml_max_bulk_messages (cf_mail cfg))"
  shows "bulk_task X ops be cfg auth rid messages schedule =
    bind_task (phase1_loop_task X ops be cfg auth 0 messages) (\<lambda>rp.
    bind_task (atomically (\<lambda>w. (w, w))) (\<lambda>w.
    bind_task (schedule_task ops be cfg (bulk_concurrency cfg (length (snd rp))) schedule
        \<lparr>bs_waiting = snd rp, bs_running = [], bs_submitted = [], bs_world = w\<rparr>)
      (join_task rid (length messages) (fst rp))))"
  using assms unfolding bulk_task_def join_task_def case_prod_unfold by simp

lemma leads_join:
  assumes "collected be k 0 n rp" and "m < n"
  shows "leads (message_env be m)
    (\<lambda>w. (\<forall>st'. res = Some st' \<longrightarrow> slot be k n m (set (fst rp)) st' w)
       \<and> (\<forall>st'. res = Some st' \<longrightarrow> tasks_inv be cfg permits (snd rp) st'))
    (join_task rid n (fst rp) res) (bulk_matches be k n rid m)"
proof (cases "\<exists>st. res = Some st \<and> all_joined st \<and> tasks_inv be cfg permits (snd rp) st")
  case True
  then obtain st where st: "res = Some st" "all_joined st" "tasks_inv be cfg permits (snd rp) st" by blast
  let ?reply = "Some (Inr (bulk_reply rid n (merge_results (fst rp) (bs_submitted st))))"
  have metrics: "leads (message_env be m) (slot be k n m (set (fst rp)) st) (metrics_do g)
      (\<lambda>_. slot be k n m (set (fst rp)) st)" for g
    unfolding leads_def metrics_do_def by (auto intro!: survives_atomically dest: slot_others)
  have reply: "bulk_matches be k n rid m ?reply w" if "slot be k n m (set (fst rp)) st w" for w
    by (rule slot_reply [OF that assms(1) st(3,2) assms(2)])
  have "leads (message_env be m) (slot be k n m (set (fst rp)) st)
      (then_do (metrics_do (inc_request ''2xx'')) (Done ?reply)) (bulk_matches be k n rid m)"
    by (rule leads_then [OF metrics leads_Done]) (rule reply)
  with st show ?thesis by (simp add: join_task_def leads_def)
next
  case False
  show ?thesis
  proof (cases res)
    case None
    then show ?thesis by (auto simp: join_task_def intro!: leads_Done bulk_matches_trivial)
  next
    case (Some st)
    show ?thesis
    proof (cases "all_joined st")
      case True
      with False Some show ?thesis by (simp add: leads_def)
    next
      case no: False
      with Some show ?thesis by (auto simp: join_task_def intro!: leads_Done bulk_matches_trivial)
    qed
  qed
qed

lemma leads_phase2:
  assumes v: "bulk_ids_ok be n m" and c: "collected be k 0 n rp"
  shows "leads (message_env be m) (phase1_done be k m rp)
    (bind_task (schedule_task ops be cfg (bulk_concurrency cfg (length (snd rp))) schedule
        \<lparr>bs_waiting = snd rp, bs_running = [], bs_submitted = [], bs_world = w0\<rparr>)
      (join_task rid n (fst rp))) (bulk_matches be k n rid m)"
proof -
  let ?permits = "bulk_concurrency cfg (length (snd rp))"
  let ?st = "\<lparr>bs_waiting = snd rp, bs_running = [], bs_submitted = [], bs_world = w0\<rparr>"
  have inv: "tasks_inv be cfg ?permits (snd rp) ?st" by (simp add: tasks_inv_def)
  have m: "m < n" using v by (simp add: bulk_ids_ok_def)
  have "leads (message_env be m) (phase1_done be k m rp) (schedule_task ops be cfg ?permits schedule ?st)
      (\<lambda>res w. \<forall>st'. res = Some st' \<longrightarrow> slot be k n m (set (fst rp)) st' w)"
    using leads_schedule [OF v, of k "set (fst rp)" ?st] slot_start [OF _ c] unfolding leads_def by simp
  from leads_yields [OF this yields_schedule [OF inv]] show ?thesis
    by (rule leads_bind) (rule leads_join [OF c m])
qed

lemma leads_bulk_task:
  assumes v: "bulk_ids_ok be (length messages) m"
  shows "leads (message_env be m) (absent (be_ids be m)) (bulk_task X ops be cfg auth rid messages schedule)
    (bulk_matches be (ac_key_id auth) (length messages) rid m)"
proof (cases "messages = [] \<or> length messages > unat (ml_max_bulk_messages (cf_mail cfg))")
  case True
  then show ?thesis by (auto simp: bulk_task_def intro!: leads_Done bulk_matches_trivial)
next
  case False
  then have ms: "messages \<noteq> []" "\<not> length messages > unat (ml_max_bulk_messages (cf_mail cfg))" by simp_all
  let ?n = "length messages" and ?k = "ac_key_id auth" and ?ev = "message_env be m"
  define Q where "Q = (\<lambda>rp w. phase1_done be ?k m rp w \<and> collected be ?k 0 ?n rp)"
  have loop: "leads ?ev (absent (be_ids be m)) (phase1_loop_task X ops be cfg auth 0 messages) Q"
    unfolding Q_def
  proof (rule leads_loop)
    show "0 \<le> m" by simp
    show "m < 0 + length messages" using v by (simp add: bulk_ids_ok_def)
    show "bulk_valid {be_ids be j} be \<and> (j \<noteq> m \<longrightarrow> be_ids be j \<noteq> be_ids be m)"
      if "j < 0 + length messages" for j
      using v that by (simp add: bulk_ids_ok_def)
  qed
  have snap: "leads ?ev (Q rp) (atomically (\<lambda>w. (w, w))) (\<lambda>_. Q rp)" for rp
    unfolding leads_def
  proof (intro allI impI survives_atomically)
    fix w w' assume "Q rp w" and "others (ev_request_id ?ev) w w'"
    then show "Q rp (snd (w', w'))" using phase1_done_others [of be ?k m rp w w'] by (simp add: Q_def)
  qed
  have rest: "leads ?ev (Q rp)
      (bind_task (schedule_task ops be cfg (bulk_concurrency cfg (length (snd rp))) schedule
          \<lparr>bs_waiting = snd rp, bs_running = [], bs_submitted = [], bs_world = w0\<rparr>)
        (join_task rid ?n (fst rp))) (bulk_matches be ?k ?n rid m)" for rp w0
  proof (cases "collected be ?k 0 ?n rp")
    case True
    from leads_phase2 [OF v True, of cfg schedule w0 rid] show ?thesis by (simp add: leads_def Q_def)
  qed (simp add: leads_def Q_def)
  show ?thesis
    unfolding bulk_task_phases [OF ms] by (rule leads_bind [OF loop leads_bind [OF snap rest]])
qed

subsection \<open>The answers to bulk requests\<close>

definition bulk_answer_ok :: "app_config set \<Rightarrow> externals \<Rightarrow> event \<Rightarrow> request_id \<Rightarrow> outcome \<Rightarrow> 'a process \<Rightarrow> bool" where
  "bulk_answer_ok V X e i o' p \<longleftrightarrow>
     (\<forall>parts be rid messages schedule m r.
        e = Http_Bulk parts be rid messages schedule \<longrightarrow> m < length messages \<longrightarrow> be_ids be m = i \<longrightarrow>
        o' = Bulk_Reply r \<longrightarrow>
          (\<exists>c\<in>V. \<exists>x auth. fst (authenticate X c parts x) = Inr auth
             \<and> bulk_matches be (ac_key_id auth) (length messages) rid m (Some r) (pr_world p)))"

lemma bulk_answer_stable:
  assumes "bulk_answer_ok V X e i o' p" and "process_others V i p p'"
  shows "bulk_answer_ok V X e i o' p'"
  unfolding bulk_answer_ok_def
proof (intro allI impI)
  fix parts be rid messages schedule m r
  assume h: "e = Http_Bulk parts be rid messages schedule" "m < length messages" "be_ids be m = i" "o' = Bulk_Reply r"
  with assms(1) obtain c x auth where a: "c \<in> V" "fst (authenticate X c parts x) = Inr auth"
    "bulk_matches be (ac_key_id auth) (length messages) rid m (Some r) (pr_world p)"
    unfolding bulk_answer_ok_def by blast
  from bulk_matches_others [OF a(3)] assms(2) h(3)
  have "bulk_matches be (ac_key_id auth) (length messages) rid m (Some r) (pr_world p')"
    by (simp add: process_others_def)
  with a(1,2) show "\<exists>c\<in>V. \<exists>x auth. fst (authenticate X c parts x) = Inr auth
      \<and> bulk_matches be (ac_key_id auth) (length messages) rid m (Some r) (pr_world p')" by blast
qed

lemma bulk_event_ids_ok:
  assumes "event_valid (Http_Bulk parts be rid messages schedule)"
    and "distinct (event_ids (Http_Bulk parts be rid messages schedule))" and "m < length messages"
  shows "bulk_ids_ok be (length messages) m"
proof -
  have inj: "inj_on (be_ids be) {0..<length messages}" using assms(2) by (simp add: distinct_map)
  have ne: "be_ids be j \<noteq> be_ids be m" if "j < length messages" "j \<noteq> m" for j
    using inj_onD [OF inj, of j m] that assms(3) by auto
  have "bulk_valid {be_ids be j} be" if "j < length messages" for j
    using assms(1) that by (simp add: bulk_valid_def event_valid_def)
  with ne assms(3) show ?thesis unfolding bulk_ids_ok_def by blast
qed

lemma survives_bulk_event:
  assumes "bulk_ids_ok be (length messages) m" and "fresh (be_ids be m) p"
    and unique: "\<And>j. j < length messages \<Longrightarrow> be_ids be j = be_ids be m \<Longrightarrow> j = m"
  shows "survives (process_others V (be_ids be m))
    (bulk_answer_ok V (sn_externals env) (Http_Bulk parts be rid messages schedule) (be_ids be m))
    (event_task env ops bulk (Http_Bulk parts be rid messages schedule)) p"
proof -
  let ?i = "be_ids be m" and ?X = "sn_externals env" and ?e = "Http_Bulk parts be rid messages schedule"
  have "survives (process_others V ?i) (bulk_answer_ok V ?X ?e ?i)
      (authenticated ?X parts (\<lambda>cfg auth.
        bind_task (on_world (bulk_task ?X ops be cfg auth rid messages schedule)) (\<lambda>r.
          Done (case r of Some r \<Rightarrow> Bulk_Reply r | None \<Rightarrow> Bulk_Abandoned)))) p"
  proof (rule survives_authenticated [OF assms(2)])
    fix cfg auth c x and p :: "'a process"
    assume p: "fresh ?i p" and auth: "c \<in> V" "fst (authenticate ?X c parts x) = Inr auth"
    have "survives (others ?i) (bulk_matches be (ac_key_id auth) (length messages) rid m)
        (bulk_task ?X ops be cfg auth rid messages schedule) (pr_world p)"
      using leads_bulk_task [OF assms(1)] p by (simp add: leads_def)
    from survives_on_world [OF this]
    show "survives (process_others V ?i) (bulk_answer_ok V ?X ?e ?i)
        (bind_task (on_world (bulk_task ?X ops be cfg auth rid messages schedule)) (\<lambda>r.
          Done (case r of Some r \<Rightarrow> Bulk_Reply r | None \<Rightarrow> Bulk_Abandoned))) p"
    proof (rule survives_bind)
      fix r and p' :: "'a process"
      assume r: "bulk_matches be (ac_key_id auth) (length messages) rid m r (pr_world p')"
      show "survives (process_others V ?i) (bulk_answer_ok V ?X ?e ?i)
          (Done (case r of Some r \<Rightarrow> Bulk_Reply r | None \<Rightarrow> Bulk_Abandoned)) p'"
        using r auth unique by (auto simp: bulk_answer_ok_def split: option.splits)
    qed
  qed (simp add: bulk_answer_ok_def)
  then show ?thesis by (simp add: event_task_def Let_def bulk_answer_ok_def)
qed

lemma tracks_bulk: "tracks V env (bulk_answer_ok V (sn_externals env))"
  unfolding tracks_def
proof (intro conjI allI impI)
  fix e i bulk p
  assume e: "event_valid e" "distinct (event_ids e)" "i \<in> set (event_ids e)" "fresh i p"
  show "survives (process_others V i) (bulk_answer_ok V (sn_externals env) e i) (event_task env ops bulk e) p"
  proof (cases "\<exists>parts be rid messages schedule. e = Http_Bulk parts be rid messages schedule")
    case True
    then obtain parts be rid messages schedule where b: "e = Http_Bulk parts be rid messages schedule" by blast
    with e(3) obtain m where m: "m < length messages" "i = be_ids be m" by auto
    have ids: "bulk_ids_ok be (length messages) m" using bulk_event_ids_ok e(1,2) m(1) b by blast
    then have "j = m" if "j < length messages" "be_ids be j = be_ids be m" for j
      using that by (auto simp: bulk_ids_ok_def)
    from survives_bulk_event [OF ids _ this] e(4) b m(2) show ?thesis by blast
  next
    case False
    then show ?thesis by (intro survives_vacuous) (simp add: bulk_answer_ok_def)
  qed
qed (simp add: bulk_answer_ok_def, erule bulk_answer_stable)

text \<open>A bulk request that has been answered: the record of each message agrees with its result.\<close>

lemma server_bulk_recorded:
  assumes "reaches env ops s s'" and "server_ok D s" and "all_valid s'" and "srv_tasks s = []"
    and "pr_config (srv_process s) \<in> set (srv_configs s)"
    and "(Http_Bulk p be rid messages schedule, Done (Bulk_Reply (Inr reply))) \<in> set (srv_tasks s')"
    and "m < length messages"
    and "server_view s' (be_ids be m) = Some r" and "\<And>n k. be_clock be m n k < sr_expires_at r"
  shows "\<exists>c \<in> set (srv_configs s'). \<exists>x auth results. fst (authenticate (sn_externals env) c p x) = Inr auth
    \<and> sr_key_id r = ac_key_id auth \<and> reply = bulk_reply rid (length messages) results
    \<and> List.map br_index results = [0..<length messages]
    \<and> agrees (results ! m) (sr_status r) (sr_code r)"
proof -
  have "bulk_answer_ok (set (srv_configs s')) (sn_externals env) (Http_Bulk p be rid messages schedule) (be_ids be m)
      (Bulk_Reply (Inr reply)) (srv_process s')"
    by (rule answered [OF assms(1-5) tracks_bulk assms(6)]) (use assms(7) in simp)
  then obtain c x auth where a: "c \<in> set (srv_configs s')" "fst (authenticate (sn_externals env) c p x) = Inr auth"
    "bulk_matches be (ac_key_id auth) (length messages) rid m (Some (Inr reply)) (pr_world (srv_process s'))"
    using assms(7) unfolding bulk_answer_ok_def by blast
  then obtain results where b: "reply = bulk_reply rid (length messages) results"
    "List.map br_index results = [0..<length messages]"
    "reported be (ac_key_id auth) m (results ! m) (pr_world (srv_process s'))"
    unfolding bulk_matches_def by blast
  have "\<not> late (message_env be m) r" using assms(9) by (auto simp: late_def not_le)
  with b(3) assms(8) have "sr_key_id r = ac_key_id auth \<and> agrees (results ! m) (sr_status r) (sr_code r)"
    by (auto simp: reported_def record_is_def)
  with a(1,2) b(1,2) show ?thesis by blast
qed

end

end
