(* ===== verification/Server_Bulk_Claims.thy ===== *)
theory Server_Bulk_Claims
  imports Server_Bulk Server_Claims
begin

text \<open>
  The records of bulk requests in the running server, over the in-memory store: the
  record of a message agrees with the result the response reports for it.
\<close>

subsection \<open>A message leaves a record\<close>

definition holds_record :: "request_id \<Rightarrow> time \<Rightarrow> memory_store world \<Rightarrow> bool" where
  "holds_record i e w \<longleftrightarrow> (\<exists>r. hm_get (ms_records (wd_store w)) i = Some r \<and> sr_expires_at r = e)"

lemma holds_frames [simp]:
  "holds_record i e (w\<lparr>wd_metrics := m\<rparr>) = holds_record i e w"
  "holds_record i e (w\<lparr>wd_limiter := l\<rparr>) = holds_record i e w"
  "holds_record i e (w\<lparr>wd_sent := q\<rparr>) = holds_record i e w"
  by (simp_all add: holds_record_def)

lemma holds_update:
  "holds_record i e w \<Longrightarrow> holds_record i e (bulk_update (memory_ops it) clk j k st c msg w)"
  by (auto simp: holds_record_def bulk_update_def with_store_def split_beta update_status_get updated_record_def)

lemma holds_metadata:
  "holds_record i e w \<Longrightarrow>
     holds_record i e (store_call (memory_set_recipient_metadata clk j k ds n) w)"
  by (auto simp: holds_record_def with_store_def split_beta set_metadata_get)

lemma holds_put:
  assumes "hm_get (ms_records (wd_store w)) i = None"
  shows "holds_record i (now + ttl_nanos ttl) (store_call (so_put_received (memory_ops it) (new_received now i k ttl)) w)"
  using assms
  by (simp add: holds_record_def with_store_def split_beta put_received_records new_received_def hm_contains_def)

lemma holds_fire:
  "fire (memory_ops it) be cfg permits ev st = Some st' \<Longrightarrow> holds_record i e (bs_world st) \<Longrightarrow>
     holds_record i e (bs_world st')"
  by (auto simp: fire_def phase2_begin_def phase2_end_def Let_def holds_update
      split: bulk_event.splits option.splits if_splits sum.split)

lemma holds_schedule:
  "run_schedule (memory_ops it) be cfg permits evs st = Some st' \<Longrightarrow> holds_record i e (bs_world st) \<Longrightarrow>
     holds_record i e (bs_world st')"
  by (induction evs arbitrary: st) (auto simp: bind_eq_Some_conv dest: holds_fire)

lemma holds_build:
  "holds_record i e w \<Longrightarrow> holds_record i e (snd (bulk_build X (memory_ops it) be cfg auth index raw w))"
  by (auto simp: bulk_build_def Let_def holds_update holds_metadata split: sum.split)

lemma holds_rate_limited:
  assumes "bulk_rate_limited (memory_ops it) be cfg auth index tier msg w = (r, w')"
    and "hm_get (ms_records (wd_store w)) (be_ids be index) = None"
  shows "holds_record (be_ids be index) (be_received be index + ttl_nanos (sc_ttl_seconds (cf_status cfg))) w'"
proof -
  have "w' = snd (bulk_rate_limited (memory_ops it) be cfg auth index tier msg w)" using assms(1) by simp
  then show ?thesis
    unfolding bulk_rate_limited_def store_rejected_def snd_conv
    by (simp only:) (rule holds_update, rule holds_put, simp add: assms(2))
qed

lemma holds_prepare:
  assumes "hm_get (ms_records (wd_store w)) (be_ids be index) = None"
  shows "holds_record (be_ids be index) (be_received be index + ttl_nanos (sc_ttl_seconds (cf_status cfg)))
    (snd (phase1_prepare X (memory_ops it) be cfg auth index raw w))"
proof -
  obtain r w1 where rates: "bulk_rates (memory_ops it) be cfg auth index w = (r, w1)" by (rule prod.exhaust)
  show ?thesis
  proof (cases r)
    case (Inl e)
    then obtain tier msg rl where
      "bulk_rate_limited (memory_ops it) be cfg auth index tier msg (w\<lparr>wd_limiter := rl\<rparr>) = (Inl e, w1)"
      using rates by (auto simp: bulk_rates_def split: prod.splits sum.splits)
    from holds_rate_limited [OF this] assms
    show ?thesis using rates Inl by (simp add: phase1_prepare_def)
  next
    case (Inr u)
    then have "hm_get (ms_records (wd_store w1)) (be_ids be index) = None"
      using rates assms by (auto simp: bulk_rates_def bulk_rate_limited_def split: prod.splits sum.splits)
    from holds_build [OF holds_put [OF this]] rates Inr show ?thesis by (simp add: phase1_prepare_def)
  qed
qed

lemma bulk_leaves_record:
  assumes "send_bulk X (memory_ops it) be cfg auth rid [raw] schedule w = Some (Inr reply, w')"
    and "hm_get (ms_records (wd_store w)) (be_ids be 0) = None"
  shows "holds_record (be_ids be 0) (be_received be 0 + ttl_nanos (sc_ttl_seconds (cf_status cfg))) w'"
proof -
  obtain rejected prepared w1 where p: "phase1_loop X (memory_ops it) be cfg auth 0 [raw] w = ((rejected, prepared), w1)"
    by (metis surj_pair)
  then have "w1 = snd (phase1_prepare X (memory_ops it) be cfg auth 0 raw w)"
    by (auto split: prod.splits sum.splits)
  with holds_prepare [OF assms(2)]
  have h: "holds_record (be_ids be 0) (be_received be 0 + ttl_nanos (sc_ttl_seconds (cf_status cfg))) w1" by simp
  from assms(1) p obtain st where "run_schedule (memory_ops it) be cfg (bulk_concurrency cfg (length prepared)) schedule
      \<lparr>bs_waiting = prepared, bs_running = [], bs_submitted = [], bs_world = w1\<rparr> = Some st"
    "w' = on_metrics (inc_request ''2xx'') (bs_world st)"
    by (auto simp: send_bulk_def split: if_splits option.splits)
  with holds_schedule [OF this(1)] h show ?thesis by simp
qed

subsection \<open>A bulk request that is served\<close>

definition bulk_config :: app_config where
  "bulk_config = example_config\<lparr>cf_mail := (cf_mail example_config)\<lparr>ml_allow_bulk_send := True\<rparr>\<rparr>"

definition bulk_state :: "memory_store app_state" where
  "bulk_state = example_state\<lparr>as_config := bulk_config\<rparr>"

lemma bulk_authenticates:
  "authenticate example_externals bulk_config example_parts m = (Inr example_auth, m)"
  using example_authenticates [of m] by (simp add: authenticate_def bulk_config_def)

lemma bulk_start [simp]:
  "srv_tasks (server_start bulk_state ids) = []" "srv_bulk (server_start bulk_state ids)"
  "srv_process (server_start bulk_state ids) = \<lparr>pr_config = bulk_config, pr_world = example_world\<rparr>"
  by (simp_all add: server_start_def bulk_state_def example_state_def example_world_def bulk_config_def)

lemma bulk_run:
  obtains schedule reply s w where
    "reaches example_server_env (memory_ops (\<lambda>xs. xs)) (server_start bulk_state []) s"
    "send_bulk example_externals (memory_ops (\<lambda>xs. xs)) example_bulk_env bulk_config example_auth ''req_b''
       [example_request] schedule example_world = Some (Inr reply, w)"
    "srv_process s = \<lparr>pr_config = bulk_config, pr_world = w\<rparr>"
    "srv_tasks s = [(Http_Bulk example_parts example_bulk_env ''req_b'' [example_request] schedule,
       Done (Bulk_Reply (Inr reply)))]"
proof -
  let ?ops = "memory_ops (\<lambda>xs. xs)" and ?s0 = "server_start bulk_state []"
  obtain schedule reply w where run: "send_bulk example_externals ?ops example_bulk_env bulk_config example_auth
      ''req_b'' [example_request] schedule example_world = Some (Inr reply, w)"
    using send_bulk_completes [of "[example_request]" bulk_config example_externals ?ops example_bulk_env
        example_auth "''req_b''" example_world]
    by (auto simp: bulk_config_def default_mail_config_def)
  let ?e = "Http_Bulk example_parts example_bulk_env ''req_b'' [example_request] schedule"
  have "run_alone (bulk_task example_externals ?ops example_bulk_env bulk_config example_auth ''req_b''
      [example_request] schedule) example_world = (Some (Inr reply), w)"
    using run by (simp add: bulk_task_alone split: prod.splits option.splits)
  then have alone: "run_alone (event_task example_server_env ?ops True ?e)
        \<lparr>pr_config = bulk_config, pr_world = example_world\<rparr>
      = (Bulk_Reply (Inr reply), \<lparr>pr_config = bulk_config, pr_world = w\<rparr>)"
    by (simp add: event_task_def authenticated_def Let_def bulk_authenticates)
  obtain s where "reaches example_server_env ?ops ?s0 s"
    "srv_process s = snd (run_alone (event_task example_server_env ?ops (srv_bulk ?s0) ?e) (srv_process ?s0))"
    "srv_tasks s = srv_tasks ?s0 @ [(?e, Done (fst (run_alone
        (event_task example_server_env ?ops (srv_bulk ?s0) ?e) (srv_process ?s0))))]"
    by (rule arrives_alone [of ?e ?s0]) (simp_all add: server_start_def)
  with alone run show ?thesis by (intro that [of s schedule reply w]) simp_all
qed

subsection \<open>Properties\<close>

text \<open>C7: The records of a bulk request agree with its answer in the running server: when a bulk
  request of a fresh start has been answered, the answer reports every message once, and the
  record of a message, if it is still held and had not expired while the handler ran, belongs
  to the key that the head of the request authenticated under a configuration in force since
  the start, is terminal, and has the outcome and the code that the result at its place
  reports, whatever else ran in between.\<close>

theorem server_bulk_answers_recorded:
  assumes "reaches env (memory_ops it) (server_start st issued) s" and "memory_ok (as_store st)"
    and "\<And>i. hm_get (ms_records (as_store st)) i \<noteq> None \<Longrightarrow> i \<in> set issued"
    and "(Http_Bulk p be rid messages schedule, Done (Bulk_Reply (Inr reply))) \<in> set (srv_tasks s)"
    and "m < length messages"
    and "hm_get (ms_records (wd_store (pr_world (srv_process s)))) (be_ids be m) = Some r"
    and "\<And>n k. be_clock be m n k < sr_expires_at r"
  shows "\<exists>c \<in> set (srv_configs s). \<exists>x auth results. fst (authenticate (sn_externals env) c p x) = Inr auth
    \<and> sr_key_id r = ac_key_id auth
    \<and> reply = bulk_reply rid (length messages) results
    \<and> List.map br_index results = [0..<length messages]
    \<and> is_terminal (sr_status r)
    \<and> br_status (results ! m) = (if sr_status r = SmtpAccepted then ''accepted'' else ''rejected'')
    \<and> br_code (results ! m) = map_option code_as_str (sr_code r)"
proof -
  note ctx = mem.status_store_axioms [of it] and tctx = mem.tracking_store_axioms [of it]
  have valid: "status_store.all_valid (\<lambda>_. True) u" for u :: "memory_store server"
    by (rule memory_all_valid)
  note start = status_store.server_ok_start [OF ctx assms(2,3)]
  have idle: "srv_tasks (server_start st issued) = []"
    and config: "pr_config (srv_process (server_start st issued)) \<in> set (srv_configs (server_start st issued))"
    by (simp_all add: server_start_def)
  from tracking_store.server_bulk_recorded [OF tctx assms(1) start valid idle config assms(4-7)]
  show ?thesis unfolding agrees_def by blast
qed

theorem server_bulk_answers_recorded_witness:
  "\<exists>schedule s r reply results.
     reaches example_server_env (memory_ops (\<lambda>xs. xs)) (server_start bulk_state []) s
     \<and> srv_tasks s = [(Http_Bulk example_parts example_bulk_env ''req_b'' [example_request] schedule,
          Done (Bulk_Reply (Inr reply)))]
     \<and> hm_get (ms_records (wd_store (pr_world (srv_process s)))) (be_ids example_bulk_env 0) = Some r
     \<and> reply = bulk_reply ''req_b'' 1 results \<and> is_terminal (sr_status r)
     \<and> br_code (results ! 0) = map_option code_as_str (sr_code r)"
proof -
  let ?ops = "memory_ops (\<lambda>xs. xs)"
  obtain schedule reply s w where s:
    "reaches example_server_env ?ops (server_start bulk_state []) s"
    "send_bulk example_externals ?ops example_bulk_env bulk_config example_auth ''req_b''
       [example_request] schedule example_world = Some (Inr reply, w)"
    "srv_process s = \<lparr>pr_config = bulk_config, pr_world = w\<rparr>"
    "srv_tasks s = [(Http_Bulk example_parts example_bulk_env ''req_b'' [example_request] schedule,
       Done (Bulk_Reply (Inr reply)))]"
    by (rule bulk_run)
  have none: "hm_get (ms_records (wd_store example_world)) i = None" for i
    by (simp add: example_world_def) (simp add: memory_new_def)
  obtain r where r: "hm_get (ms_records (wd_store w)) (be_ids example_bulk_env 0) = Some r" "0 < sr_expires_at r"
    using bulk_leaves_record [OF s(2) none]
    by (auto simp: holds_record_def example_bulk_env_def bulk_config_def default_status_config_def ttl_nanos_def)
  have clocks: "be_clock example_bulk_env 0 n k < sr_expires_at r" for n k
    using r(2) by (simp add: example_bulk_env_def)
  have store: "memory_ok (as_store bulk_state)"
    "hm_get (ms_records (as_store bulk_state)) i \<noteq> None \<Longrightarrow> i \<in> set []" for i
    by (simp_all add: bulk_state_def)
  from server_bulk_answers_recorded [OF s(1) store, of example_parts example_bulk_env "''req_b''"
      "[example_request]" schedule reply 0 r] s(3,4) r(1) clocks
  obtain results where "reply = bulk_reply ''req_b'' 1 results" "is_terminal (sr_status r)"
    "br_code (results ! 0) = map_option code_as_str (sr_code r)" by auto
  with s r(1) show ?thesis
    by (intro exI [of _ schedule] exI [of _ s] exI [of _ r] exI [of _ reply] exI [of _ results]) simp
qed

end
