(* ===== verification/Startup.thy ===== *)
theory Startup
  imports App_State
begin

text \<open>
  The start of the process: \<open>main\<close> of \<open>cli/src/main.rs\<close>, with \<open>logging.rs\<close> and the
  restrictions of \<open>security.rs\<close> for the platforms other than OpenBSD. A start is the list of
  the actions taken, in their order, and how it ends: the process exits with status 1, is
  aborted in \<open>AppState::new\<close> (a panic, or status 1 when the store does not open), or serves. What the operating system and the libraries answer is a parameter:
  the file, the sockets, the signal handler, the TLS files, the opening of the store.
\<close>

subsection \<open>\<open>logging.rs\<close>\<close>

datatype log_format = Json_Format | Text_Format

text \<open>
  \<open>env_filter\<close> is the filter of the environment, if it is set and parses; \<open>new_filter\<close> is the
  filter that \<open>EnvFilter::new\<close> makes of a level.
\<close>

definition init_logging :: "'f option \<Rightarrow> (str \<Rightarrow> 'f) \<Rightarrow> logging_config \<Rightarrow> log_format \<times> 'f" where
  "init_logging env_filter new_filter config =
     (if lg_format config = ''json'' then Json_Format else Text_Format,
      case env_filter of Some f \<Rightarrow> f | None \<Rightarrow> new_filter (lg_level config))"

subsection \<open>Actions and their sequence\<close>

type_synonym sock = "ip_addr \<times> nat"

datatype 'f action =
    Warn_Unrestricted
  | Read_Config str
  | Init_Logging log_format 'f
  | New_State
  | Listen str
  | Spawn_Sighup
  | Spawn_Cleanup u64
  | Log_Started str
  | Build_Router
  | Load_Tls str str
  | Listen_Tls sock

datatype 's ending =
    Exit_One
  | Aborted
  | Serve_Plain "'s app_state" sock
  | Serve_Tls "'s app_state" sock

text \<open>A stage of the start: its actions, and the end of the process or a value.\<close>

type_synonym ('f, 's, 'a) stage = "'f action list \<times> ('s ending + 'a)"

definition stage_then :: "('f, 's, 'a) stage \<Rightarrow> ('a \<Rightarrow> ('f, 's, 'b) stage) \<Rightarrow> ('f, 's, 'b) stage" where
  "stage_then t h =
     (case t of
        (acts, Inl e) \<Rightarrow> (acts, Inl e)
      | (acts, Inr a) \<Rightarrow> (case h a of (acts', r) \<Rightarrow> (acts @ acts', r)))"

definition act :: "'f action \<Rightarrow> ('f, 's, unit) stage" where
  "act a = ([a], Inr ())"

definition or_exit :: "'e + 'a \<Rightarrow> ('f, 's, 'a) stage" where
  "or_exit r = ([], case r of Inl _ \<Rightarrow> Inl Exit_One | Inr a \<Rightarrow> Inr a)"

definition or_abort :: "'a option \<Rightarrow> ('f, 's, 'a) stage" where
  "or_abort r = ([], case r of None \<Rightarrow> Inl Aborted | Some a \<Rightarrow> Inr a)"

subsection \<open>\<open>security.rs\<close> elsewhere than on OpenBSD\<close>

definition apply_initial_restrictions :: "str \<Rightarrow> ('f, 's, str + unit) stage" where
  "apply_initial_restrictions config_path = ([Warn_Unrestricted], Inr (Inr ()))"

definition apply_sqlite_restrictions :: "str \<Rightarrow> str + unit" where
  "apply_sqlite_restrictions db_path = Inr ()"

definition apply_runtime_restrictions :: "runtime_mode \<Rightarrow> bool \<Rightarrow> str + unit" where
  "apply_runtime_restrictions mode has_sqlite = Inr ()"

subsection \<open>\<open>main\<close>\<close>

text \<open>
  \<open>su_new\<close> is what \<open>AppState::new\<close> does outside the program (\<open>app_state_new\<close>): the TLS
  parameters of the relay host, the opening of the store and the clock. A socket is opened
  while the sockets \<open>held\<close> are listening: \<open>su_listen\<close> resolves and binds a text,
  \<open>su_listen_tls\<close> binds an address. \<open>su_pem_ok\<close> tells whether the TLS files load.
\<close>

record ('f, 's) start_env =
  su_externals :: externals
  su_features :: features
  su_toml :: "str \<Rightarrow> str + app_config"
  su_read_file :: "str \<Rightarrow> str + str"
  su_env_filter :: "'f option"
  su_new_filter :: "str \<Rightarrow> 'f"
  su_relay_ok :: "str \<Rightarrow> bool"
  su_open_store :: "store_choice \<Rightarrow> status_config \<Rightarrow> 's option"
  su_now :: instant
  su_listen :: "sock list \<Rightarrow> str \<Rightarrow> str + sock"
  su_pem_ok :: "str \<Rightarrow> str \<Rightarrow> bool"
  su_listen_tls :: "sock list \<Rightarrow> sock \<Rightarrow> str + sock"

text \<open>Steps 1 to 5: the configuration, the logging and the shared state.\<close>

definition boot :: "('f, 's) start_env \<Rightarrow> str list \<Rightarrow> ('f, 's, 's app_state) stage" where
  "boot E args =
     (let config_path = parse_config_path args in
      stage_then (apply_initial_restrictions config_path) (\<lambda>r.
      stage_then (or_exit r) (\<lambda>_.
      stage_then (act (Read_Config config_path)) (\<lambda>_.
      stage_then (or_exit (load (su_externals E) (su_features E) (su_toml E) (su_read_file E) config_path)) (\<lambda>config.
      stage_then (act (case init_logging (su_env_filter E) (su_new_filter E) (cf_logging config) of
                         (fmt, flt) \<Rightarrow> Init_Logging fmt flt)) (\<lambda>_.
      stage_then (act New_State) (\<lambda>_.
        or_abort (app_state_new (su_relay_ok E) (su_features E) (su_open_store E) (su_now E) config))))))))"

text \<open>Step 7: the restrictions of the running process.\<close>

definition restrict :: "app_config \<Rightarrow> ('f, 's, unit) stage" where
  "restrict config =
     (let has_sqlite = sc_store (cf_status config) = ''sqlite'' in
      stage_then
        (if has_sqlite
         then (case sc_db_path (cf_status config) of
                 Some db_path \<Rightarrow> or_exit (apply_sqlite_restrictions db_path)
               | None \<Rightarrow> ([], Inr ()))
         else ([], Inr ())) (\<lambda>_.
        or_exit (apply_runtime_restrictions (runtime_mode_of (cf_smtp config)) has_sqlite)))"

text \<open>Steps 8 and 9: the tasks in the background.\<close>

definition spawn_tasks :: "app_config \<Rightarrow> ('f, 's, unit) stage" where
  "spawn_tasks config =
     stage_then (act Spawn_Sighup) (\<lambda>_.
       if sc_enabled (cf_status config)
       then act (Spawn_Cleanup (sc_cleanup_interval_seconds (cf_status config)))
       else ([], Inr ()))"

text \<open>
  Step 11: over TLS when the build has it and both files are set. The plain listener stays
  open until the end of \<open>main\<close>.
\<close>

definition serve :: "('f, 's) start_env \<Rightarrow> app_config \<Rightarrow> 's app_state \<Rightarrow> sock \<Rightarrow> ('f, 's, 's ending) stage" where
  "serve E config state listener =
     (case (ft_tls (su_features E), sv_tls_cert (cf_server config), sv_tls_key (cf_server config)) of
        (True, Some cert, Some key) \<Rightarrow>
          stage_then (act (Load_Tls cert key)) (\<lambda>_.
          stage_then (or_exit (guard_err (\<not> su_pem_ok E cert key) ())) (\<lambda>_.
          stage_then (or_exit (ok_or (parse_socket_addr (sv_bind_address (cf_server config))) ())) (\<lambda>addr.
          stage_then (act (Listen_Tls addr)) (\<lambda>_.
          stage_then (or_exit (su_listen_tls E [listener] addr)) (\<lambda>s.
            ([], Inr (Serve_Tls state s)))))))
      | _ \<Rightarrow> ([], Inr (Serve_Plain state listener)))"

definition start_stages :: "('f, 's) start_env \<Rightarrow> str list \<Rightarrow> ('f, 's, 's ending) stage" where
  "start_stages E args =
     stage_then (boot E args) (\<lambda>state.
       let config = as_config state; bind_addr = sv_bind_address (cf_server config) in
       stage_then (act (Listen bind_addr)) (\<lambda>_.
       stage_then (or_exit (su_listen E [] bind_addr)) (\<lambda>listener.
       stage_then (restrict config) (\<lambda>_.
       stage_then (spawn_tasks config) (\<lambda>_.
       stage_then (act (Log_Started bind_addr)) (\<lambda>_.
       stage_then (act Build_Router) (\<lambda>_.
         serve E config state listener)))))))"

definition start :: "('f, 's) start_env \<Rightarrow> str list \<Rightarrow> 'f action list \<times> 's ending" where
  "start E args =
     (case start_stages E args of
        (acts, Inl e) \<Rightarrow> (acts, e)
      | (acts, Inr e) \<Rightarrow> (acts, e))"

end
