(* ===== verification/Startup_Claims.thy ===== *)
theory Startup_Claims
  imports Startup Server_Claims
begin

text \<open>
  The properties of a start, and of a server from its start on: when the process serves and
  what it has done by then, that a build with TLS cannot serve over it, and that every
  configuration in force has passed the validation of its secrets.
\<close>

subsection \<open>Stages\<close>

lemma stage_then_act [simp]: "stage_then (act a) h = (case h () of (acts, r) \<Rightarrow> (a # acts, r))"
  by (simp add: stage_then_def act_def split: prod.split)

lemma stage_then_exit [simp]:
  "stage_then (or_exit (Inr a)) h = h a"
  "stage_then (or_exit (Inl e)) h = ([], Inl Exit_One)"
  by (simp_all add: stage_then_def or_exit_def split: prod.split)

lemma stage_then_abort [simp]:
  "stage_then (or_abort (Some a)) h = h a"
  "stage_then (or_abort None) h = ([], Inl Aborted)"
  by (simp_all add: stage_then_def or_abort_def split: prod.split)

lemma stage_then_Inr [simp]:
  "stage_then (acts, Inr a) h = (case h a of (acts', r) \<Rightarrow> (acts @ acts', r))"
  by (simp add: stage_then_def)

lemma initial_restrictions_then [simp]:
  "stage_then (apply_initial_restrictions path) h =
     (case h (Inr ()) of (acts, r) \<Rightarrow> (Warn_Unrestricted # acts, r))"
  by (simp add: stage_then_def apply_initial_restrictions_def split: prod.split)

lemma restrict_passes [simp]: "restrict config = ([], Inr ())"
  by (simp add: restrict_def Let_def apply_sqlite_restrictions_def apply_runtime_restrictions_def
      or_exit_def split: option.split)

lemma spawn_tasks_passes:
  "spawn_tasks config =
     (Spawn_Sighup # (if sc_enabled (cf_status config)
        then [Spawn_Cleanup (sc_cleanup_interval_seconds (cf_status config))] else []), Inr ())"
  by (simp add: spawn_tasks_def) (simp add: act_def)

definition boot_actions :: "('f, 's) start_env \<Rightarrow> str \<Rightarrow> app_config \<Rightarrow> 'f action list" where
  "boot_actions E path config =
     [Warn_Unrestricted, Read_Config path,
      case_prod Init_Logging (init_logging (su_env_filter E) (su_new_filter E) (cf_logging config)), New_State]"

lemma boot_Inr_iff:
  "boot E args = (acts, Inr st) \<longleftrightarrow>
     (\<exists>config. load (su_externals E) (su_features E) (su_toml E) (su_read_file E) (parse_config_path args) = Inr config
        \<and> app_state_new (su_relay_ok E) (su_features E) (su_open_store E) (su_now E) config = Some st
        \<and> acts = boot_actions E (parse_config_path args) config)"
proof (cases "load (su_externals E) (su_features E) (su_toml E) (su_read_file E) (parse_config_path args)")
  case (Inl e)
  then show ?thesis by (simp add: boot_def Let_def)
next
  case (Inr config)
  then show ?thesis
    by (cases "app_state_new (su_relay_ok E) (su_features E) (su_open_store E) (su_now E) config")
       (auto simp: boot_def Let_def boot_actions_def or_abort_def split: prod.split)
qed

lemma app_state_new_config:
  "app_state_new relay_ok F open_store now config = Some st \<Longrightarrow> as_config st = config"
  by (auto simp: app_state_new_def split: sum.splits store_choice.splits)

text \<open>What a start has done when it serves without TLS.\<close>

definition start_actions :: "('f, 's) start_env \<Rightarrow> str \<Rightarrow> app_config \<Rightarrow> 'f action list" where
  "start_actions E path config =
     boot_actions E path config @ [Listen (sv_bind_address (cf_server config)), Spawn_Sighup]
     @ (if sc_enabled (cf_status config)
        then [Spawn_Cleanup (sc_cleanup_interval_seconds (cf_status config))] else [])
     @ [Log_Started (sv_bind_address (cf_server config)), Build_Router]"

definition tls_files :: "('f, 's) start_env \<Rightarrow> app_config \<Rightarrow> (str \<times> str) option" where
  "tls_files E config =
     (case (ft_tls (su_features E), sv_tls_cert (cf_server config), sv_tls_key (cf_server config)) of
        (True, Some cert, Some key) \<Rightarrow> Some (cert, key)
      | _ \<Rightarrow> None)"

lemma serve_plain: "tls_files E config = None \<Longrightarrow> serve E config st s = ([], Inr (Serve_Plain st s))"
  by (auto simp: serve_def tls_files_def split: option.splits bool.splits)

lemma serve_tls:
  "tls_files E config = Some (cert, key) \<Longrightarrow> serve E config st s =
     (if su_pem_ok E cert key
      then (case parse_socket_addr (sv_bind_address (cf_server config)) of
              None \<Rightarrow> ([Load_Tls cert key], Inl Exit_One)
            | Some addr \<Rightarrow> ([Load_Tls cert key, Listen_Tls addr],
                 case su_listen_tls E [s] addr of Inl _ \<Rightarrow> Inl Exit_One | Inr s' \<Rightarrow> Inr (Serve_Tls st s')))
      else ([Load_Tls cert key], Inl Exit_One))"
  by (auto simp: serve_def tls_files_def ok_or_def guard_err_def split: option.splits bool.splits sum.splits)

lemma start_stages_booted:
  assumes "boot E args = (acts, Inr st)"
  shows "start_stages E args =
    (case su_listen E [] (sv_bind_address (cf_server (as_config st))) of
       Inl _ \<Rightarrow> (acts @ [Listen (sv_bind_address (cf_server (as_config st)))], Inl Exit_One)
     | Inr s \<Rightarrow> (case serve E (as_config st) st s of (acts', r) \<Rightarrow>
         (acts @ [Listen (sv_bind_address (cf_server (as_config st))), Spawn_Sighup]
            @ (if sc_enabled (cf_status (as_config st))
               then [Spawn_Cleanup (sc_cleanup_interval_seconds (cf_status (as_config st)))] else [])
            @ [Log_Started (sv_bind_address (cf_server (as_config st))), Build_Router] @ acts', r)))"
  unfolding start_stages_def assms
  by (cases "su_listen E [] (sv_bind_address (cf_server (as_config st)))")
     (simp_all add: Let_def spawn_tasks_passes split_beta)

subsection \<open>When the process serves\<close>

lemma start_not_booted:
  assumes "boot E args = (acts, Inl e)"
  shows "start E args = (acts, e)"
  using assms by (simp add: start_def start_stages_def stage_then_def)

lemma boot_Inl:
  assumes "boot E args = (acts, Inl e)"
  shows "e = Exit_One \<or> e = Aborted"
proof (cases "load (su_externals E) (su_features E) (su_toml E) (su_read_file E) (parse_config_path args)")
  case (Inl e)
  with assms show ?thesis by (auto simp: boot_def Let_def)
next
  case (Inr config)
  with assms show ?thesis
    by (cases "app_state_new (su_relay_ok E) (su_features E) (su_open_store E) (su_now E) config")
       (auto simp: boot_def Let_def or_abort_def split: prod.splits)
qed

text \<open>C17: The process serves plain HTTP exactly when its configuration file loads and validates, the
  shared state is built, the address can be listened on and no TLS is configured (or built
  in); it has then read the file of its command line, set up logging, built the state, bound
  the address, and only afterwards started the SIGHUP handler, the cleanup (exactly if the
  store is enabled) and the router.\<close>

theorem start_serves_exactly:
  "start E args = (acts, Serve_Plain st s) \<longleftrightarrow>
     (\<exists>config. load (su_externals E) (su_features E) (su_toml E) (su_read_file E) (parse_config_path args) = Inr config
        \<and> app_state_new (su_relay_ok E) (su_features E) (su_open_store E) (su_now E) config = Some st
        \<and> su_listen E [] (sv_bind_address (cf_server config)) = Inr s
        \<and> tls_files E config = None
        \<and> acts = start_actions E (parse_config_path args) config)"
proof (cases "boot E args")
  case (Pair bacts r)
  show ?thesis
  proof (cases r)
    case (Inl e)
    from Pair [unfolded Inl] have "start E args = (bacts, e)" "e = Exit_One \<or> e = Aborted"
      by (rule start_not_booted, rule boot_Inl)
    moreover have "boot E args \<noteq> (bacts', Inr st)" for bacts' using Pair Inl by simp
    ultimately show ?thesis using boot_Inr_iff by fastforce
  next
    case (Inr st')
    note booted = Pair [unfolded Inr]
    then obtain config where config:
      "load (su_externals E) (su_features E) (su_toml E) (su_read_file E) (parse_config_path args) = Inr config"
      "app_state_new (su_relay_ok E) (su_features E) (su_open_store E) (su_now E) config = Some st'"
      "bacts = boot_actions E (parse_config_path args) config" by (auto simp: boot_Inr_iff)
    have c: "as_config st' = config" using app_state_new_config [OF config(2)] .
    show ?thesis
    proof (cases "tls_files E config")
      case None
      show ?thesis
        using start_stages_booted [OF booted] serve_plain [OF None] None config
        by (auto simp: start_def c start_actions_def split: sum.splits)
    next
      case (Some files)
      then obtain cert key where files: "tls_files E config = Some (cert, key)" by (cases files) simp
      show ?thesis
        using start_stages_booted [OF booted] serve_tls [OF files] files config
        by (auto simp: start_def c split: sum.splits if_splits option.splits)
    qed
  qed
qed

subsection \<open>TLS\<close>

text \<open>
  The listeners of the operating system: a text that is an address with a port binds that
  address, and an address with a port on which a socket is listening cannot be bound again.
\<close>

definition exclusive_listeners :: "('f, 's) start_env \<Rightarrow> bool" where
  "exclusive_listeners E \<longleftrightarrow>
     (\<forall>held text s ip port. su_listen E held text = Inr s \<longrightarrow> parse_socket_addr text = Some (ip, port) \<longrightarrow>
        port \<noteq> 0 \<longrightarrow> s = (ip, port))
     \<and> (\<forall>held ip port. (ip, port) \<in> set held \<longrightarrow> port \<noteq> 0 \<longrightarrow> (\<exists>e. su_listen_tls E held (ip, port) = Inl e))"

text \<open>C18: A process with TLS configured and a fixed port never serves: it binds its address for the
  plain listener first, keeps that listener open, and then cannot bind the same address
  for TLS, so it exits with status 1 (or earlier, for another reason).\<close>

theorem https_never_serves:
  assumes "exclusive_listeners E"
    and "load (su_externals E) (su_features E) (su_toml E) (su_read_file E) (parse_config_path args) = Inr config"
    and "tls_files E config = Some (cert, key)"
    and "parse_socket_addr (sv_bind_address (cf_server config)) = Some (ip, port)" and "port \<noteq> 0"
  shows "snd (start E args) = Exit_One \<or> snd (start E args) = Aborted"
proof (cases "boot E args")
  case (Pair bacts r)
  show ?thesis
  proof (cases r)
    case (Inl e)
    from Pair [unfolded Inl] show ?thesis using start_not_booted boot_Inl by (metis snd_conv)
  next
    case (Inr st)
    note booted = Pair [unfolded Inr]
    then have c: "as_config st = config"
      using assms(2) by (auto simp: boot_Inr_iff dest: app_state_new_config)
    show ?thesis
    proof (cases "su_listen E [] (sv_bind_address (cf_server config))")
      case (Inl e)
      with start_stages_booted [OF booted] show ?thesis by (simp add: start_def c)
    next
      case (Inr s)
      with assms(1,4,5) have s: "s = (ip, port)" unfolding exclusive_listeners_def by blast
      obtain e where "su_listen_tls E [s] (ip, port) = Inl e"
        using assms(1,5) unfolding exclusive_listeners_def s by (metis list.set_intros(1))
      then have "\<exists>acts. serve E config st s = (acts, Inl Exit_One)"
        using serve_tls [OF assms(3), of st s] assms(4) by simp
      then show ?thesis
        using start_stages_booted [OF booted] Inr by (auto simp: start_def c)
    qed
  qed
qed

text \<open>A machine on which everything succeeds, and whose addresses are exclusive.\<close>

definition example_listen :: "sock list \<Rightarrow> str \<Rightarrow> str + sock" where
  "example_listen held text =
     (case parse_socket_addr text of
        Some a \<Rightarrow> if a \<in> set held then Inl ''in use'' else Inr a
      | None \<Rightarrow> Inl ''no address'')"

definition example_start_env :: "features \<Rightarrow> app_config \<Rightarrow> (str, memory_store) start_env" where
  "example_start_env F config =
     \<lparr>su_externals = example_externals, su_features = F, su_toml = (\<lambda>_. Inr config),
      su_read_file = (\<lambda>_. Inr []), su_env_filter = None, su_new_filter = (\<lambda>level. level),
      su_relay_ok = (\<lambda>_. True), su_open_store = (\<lambda>_ c. Some (memory_new c)), su_now = 0,
      su_listen = example_listen, su_pem_ok = (\<lambda>_ _. True),
      su_listen_tls = (\<lambda>held a. if a \<in> set held then Inl ''in use'' else Inr a)\<rparr>"

definition tls_config :: app_config where
  "tls_config = example_config\<lparr>cf_server := (default_server_config ''127.0.0.1:8080'')
     \<lparr>sv_tls_cert := Some ''cert.pem'', sv_tls_key := Some ''key.pem''\<rparr>\<rparr>"

definition tls_features :: features where
  "tls_features = \<lparr>ft_tls = True, ft_sqlite = False, ft_redis = False\<rparr>"

lemma tls_config_valid: "validate_config example_externals tls_features tls_config = Inr ()"
proof -
  have "check_api_key_secret key_a = Inr ()" "check_api_key_secret key_off = Inr ()"
    by (simp_all add: check_api_key_secret_Inr_iff min_secret_len_def blocked_secrets_def starts_with_def)
  then show ?thesis
    by (simp add: tls_config_def tls_features_def validate_config_def parse_socket_addr_default
        default_server_config_def default_mail_config_def default_security_config_def
        default_smtp_config_def default_status_config_def default_rate_limit_config_def
        default_logging_config_def example_parse_address_def check_smtp_tls_def check_smtp_auth_def
        check_tls_files_def check_status_store_def check_pipe_auth_def)
qed

theorem https_never_serves_witness:
  "snd (start (example_start_env tls_features tls_config) [''relay'']) \<in> {Exit_One, Aborted}"
proof -
  let ?E = "example_start_env tls_features tls_config"
  have "exclusive_listeners ?E"
    by (auto simp: exclusive_listeners_def example_start_env_def example_listen_def
        split: option.splits if_splits)
  moreover have "load (su_externals ?E) (su_features ?E) (su_toml ?E) (su_read_file ?E)
      (parse_config_path [''relay'']) = Inr tls_config"
    by (simp add: load_def example_start_env_def tls_config_valid)
  moreover have "tls_files ?E tls_config = Some (''cert.pem'', ''key.pem'')"
    by (simp add: tls_files_def example_start_env_def tls_features_def tls_config_def)
  moreover have "parse_socket_addr (sv_bind_address (cf_server tls_config)) = Some (localhost_v4, 8080)"
    by (simp add: tls_config_def default_server_config_def parse_socket_addr_default)
  ultimately show ?thesis
    using https_never_serves [of ?E "[''relay'']" tls_config "''cert.pem''" "''key.pem''" localhost_v4 8080]
    by simp
qed

subsection \<open>The configurations of a process\<close>

text \<open>The sections a reload takes from the file have passed validation.\<close>

definition reloadable_valid :: "externals \<Rightarrow> app_config \<Rightarrow> bool" where
  "reloadable_valid X c \<longleftrightarrow>
     (\<exists>k \<in> set (se_api_keys (cf_security c)). ak_enabled k)
     \<and> (\<forall>k \<in> set (se_api_keys (cf_security c)). 32 \<le> length (expose (ak_secret k))
          \<and> (\<forall>b \<in> {''your-secret-here'', ''generate-with-openssl-rand-base64-32'', ''changeme'', ''secret'',
                 ''password'', ''example-secret'', ''replace-me''}.
               \<not> contains_str (expose (ak_secret k)) b))
     \<and> (\<forall>cidr \<in> set (se_trusted_source_cidrs (cf_security c))
                 \<union> set (se_allowed_source_cidrs (cf_security c)). x_parse_net X cidr \<noteq> None)
     \<and> x_parse_address X (ml_default_from (cf_mail c)) \<noteq> None"

lemma validate_reloadable: "validate_config X F c = Inr u \<Longrightarrow> reloadable_valid X c"
  using validate_config_facts(2,3,9,10) [of X F c u]
  unfolding reloadable_valid_def min_secret_len_def blocked_secrets_def by simp

lemma load_valid: "load X F toml read_file path = Inr c \<Longrightarrow> reloadable_valid X c"
  by (auto simp: load_def and_then_Inr_iff split: sum.splits intro: validate_reloadable)

lemma reload_closed_valid: "reload_closed env (reloadable_valid (sn_externals env))"
  unfolding reload_closed_def
  by (auto dest!: load_valid simp: reloadable_valid_def merge_reloadable_def)

lemma serve_state:
  "serve E c st s = (acts, Inr (Serve_Plain u b)) \<Longrightarrow> u = st"
  "serve E c st s = (acts, Inr (Serve_Tls u b)) \<Longrightarrow> u = st"
  "serve E c st s = (acts, Inl e) \<Longrightarrow> e = Exit_One"
  by (cases "tls_files E c"; auto simp: serve_plain serve_tls split: if_splits option.splits sum.splits)+

lemma start_serves_loaded:
  assumes "start E args = (acts, Serve_Plain st a) \<or> start E args = (acts, Serve_Tls st a)"
  shows "\<exists>path. load (su_externals E) (su_features E) (su_toml E) (su_read_file E) path = Inr (as_config st)"
proof (cases "boot E args")
  case (Pair bacts r)
  show ?thesis
  proof (cases r)
    case (Inl e)
    from Pair [unfolded Inl] have "start E args = (bacts, e)" "e = Exit_One \<or> e = Aborted"
      by (rule start_not_booted, rule boot_Inl)
    with assms show ?thesis by auto
  next
    case (Inr st')
    note booted = Pair [unfolded Inr]
    have "st = st'"
      using assms start_stages_booted [OF booted]
      by (auto simp: start_def split: sum.splits prod.splits dest: serve_state)
    with booted show ?thesis by (auto simp: boot_Inr_iff dest: app_state_new_config)
  qed
qed

text \<open>C16: From a start on, in any run and across all reloads, every configuration that is ever in
  force has an enabled key, no secret under 32 bytes or with one of the seven placeholders in
  it, trusted and allowed source ranges that parse (the ranges of the monitoring hosts are
  never checked), and a sender address that parses.\<close>

theorem server_secrets_strong:
  assumes "start E args = (acts, Serve_Plain st a) \<or> start E args = (acts, Serve_Tls st a)"
    and "sn_externals env = su_externals E"
    and "reaches env ops (server_start st issued) s" and "c \<in> set (srv_configs s)"
  shows "(\<exists>k \<in> set (se_api_keys (cf_security c)). ak_enabled k)
    \<and> (\<forall>k \<in> set (se_api_keys (cf_security c)). 32 \<le> length (expose (ak_secret k))
         \<and> (\<forall>b \<in> {''your-secret-here'', ''generate-with-openssl-rand-base64-32'', ''changeme'', ''secret'',
                 ''password'', ''example-secret'', ''replace-me''}.
              \<not> contains_str (expose (ak_secret k)) b))
    \<and> (\<forall>cidr \<in> set (se_trusted_source_cidrs (cf_security c))
                \<union> set (se_allowed_source_cidrs (cf_security c)). x_parse_net (su_externals E) cidr \<noteq> None)
    \<and> x_parse_address (su_externals E) (ml_default_from (cf_mail c)) \<noteq> None"
proof -
  obtain path where "load (su_externals E) (su_features E) (su_toml E) (su_read_file E) path = Inr (as_config st)"
    using start_serves_loaded [OF assms(1)] by blast
  then have "reloadable_valid (sn_externals env) (pr_config (srv_process (server_start st issued)))"
    using load_valid by (simp add: server_start_def assms(2))
  from server_config_invariant [OF assms(3) _ _ reload_closed_valid this] assms(4)
  have "reloadable_valid (sn_externals env) c" by (simp add: server_start_def)
  then show ?thesis unfolding reloadable_valid_def assms(2) .
qed

lemma example_starts:
  "start (example_start_env no_features example_config) [''relay''] =
     (start_actions (example_start_env no_features example_config) default_config_path example_config,
      Serve_Plain example_state (localhost_v4, 8080))"
proof -
  let ?E = "example_start_env no_features example_config"
  have "load (su_externals ?E) (su_features ?E) (su_toml ?E) (su_read_file ?E) default_config_path
      = Inr example_config"
    by (simp add: load_def example_start_env_def example_config_valid)
  moreover have "app_state_new (su_relay_ok ?E) (su_features ?E) (su_open_store ?E) (su_now ?E) example_config
      = Some example_state"
    by (simp add: example_start_env_def app_state_new_def example_state_def build_transport_def
        default_smtp_config_def choose_store_def default_status_config_def example_transport_def no_features_def)
  ultimately have "boot ?E [''relay''] = (boot_actions ?E default_config_path example_config, Inr example_state)"
    by (simp add: boot_Inr_iff parse_config_path_def)
  from start_stages_booted [OF this] show ?thesis
    by (simp add: start_def start_actions_def serve_plain tls_files_def example_state_def example_start_env_def
        example_listen_def default_server_config_def parse_socket_addr_default no_features_def)
qed

theorem server_secrets_strong_witness:
  "\<exists>k \<in> set (se_api_keys (cf_security example_config)). ak_enabled k \<and> 32 \<le> length (expose (ak_secret k))"
proof -
  have "reaches example_server_env (memory_ops (\<lambda>xs. xs)) (server_start example_state [])
      (server_start example_state [])" by (rule reaches.here)
  moreover have "example_config \<in> set (srv_configs (server_start example_state []))"
    by (simp add: server_start_def example_state_def)
  moreover have "sn_externals example_server_env = su_externals (example_start_env no_features example_config)"
    by (simp add: example_start_env_def)
  ultimately show ?thesis
    using server_secrets_strong [OF disjI1 [OF example_starts]] by blast
qed

end
