(* ===== verification/Spec2Isabelle.thy ===== *)
theory Spec2Isabelle
  imports Auth_Claims Validation_Claims Rate_Limit_Claims Status_Memory_Claims Send_Claims Send_Bulk_Claims Api_Claims
    Status_Sqlite_Claims Status_Redis_Claims Server_Claims Server_Bulk_Claims Startup_Claims
begin

text \<open>
  A verification development for http-smtp-rele, an HTTP server that accepts authenticated
  mail requests and submits them over SMTP. File names below are those of
  \<open>src/crates/http-smtp-rele/src\<close>; \<open>main.rs\<close> is that of \<open>src/crates/cli/src\<close>.

  The program. \<open>main.rs\<close> loads and validates a TOML configuration (\<open>config.rs\<close>), builds the
  shared state (\<open>lib.rs\<close>: the current configuration, the SMTP transport, the rate limiter, the
  metrics, the status store) and serves the routes of \<open>api.rs\<close>. A request is authenticated
  by the extractor of \<open>auth.rs\<close>. \<open>POST /v1/send\<close> (\<open>api/send.rs\<close>) creates a status record,
  checks the payload, takes a token of each tier of the rate limiter (\<open>rate_limit.rs\<close>), validates
  the mail request (\<open>validation.rs\<close>, with \<open>sanitize.rs\<close> and \<open>policy.rs\<close>), builds the message
  (\<open>mail.rs\<close>), submits it (\<open>smtp.rs\<close>), and moves the record along. \<open>POST /v1/send-bulk\<close> does
  so for many messages with concurrent submissions. \<open>GET /v1/submissions\<close> reads a record.
  SIGHUP reloads a part of the configuration; a task in the background expires records.
\<close>

section \<open>Theories and files\<close>

text \<open>
  \<^item> Foundations: \<open>Prelude\<close> (machine integers at their width, \<open>Result\<close> as a sum with its \<open>?\<close>
    operator, loops with an early return), \<open>Rust_Str\<close> (operations of \<open>str\<close>, a list of bytes),
    \<open>F64\<close> (the double arithmetic of the token buckets), \<open>Hash_Map\<close>, \<open>Ip_Addr\<close> (addresses and
    their parsers in the standard library), \<open>Externals\<close> (the record of the third-party functions).
  \<^item> \<open>Errors\<close>: \<open>error.rs\<close>, the errors with their status, code and JSON response.
  \<^item> \<open>Config\<close>, \<open>Config_Validate\<close>: \<open>config.rs\<close>, \<open>config/validate.rs\<close>, a record per section, the
    defaults, the checks in their order, the merge of a reload.
  \<^item> \<open>Sanitize\<close>, \<open>Policy\<close>, \<open>Validation\<close>: the files of these names. \<open>Validation_Spec\<close> describes the
    acceptable requests declaratively and proves the pipeline equivalent to it;
    \<open>Validation_Claims\<close> draws the consequences for headers, recipients and sizes.
  \<^item> \<open>Auth\<close>, \<open>Auth_Claims\<close>: \<open>auth.rs\<close>, resolution of the client address, token, key, extractor.
  \<^item> \<open>Rate_Limit\<close>: \<open>rate_limit.rs\<close>. \<open>Rate_Gate\<close> is the contract of a tier (locales \<open>token_gate\<close>,
    \<open>rated_gate\<close>), \<open>Rate_Limit_Props\<close> interprets it for the bucket and the three tiers.
  \<^item> \<open>Status\<close>: \<open>status.rs\<close>. \<open>Status_Contract\<close> is the contract of a store (locales
    \<open>status_store\<close>, \<open>tracking_store\<close>); \<open>Status_Memory\<close>, \<open>Status_Sqlite\<close>, \<open>Status_Redis\<close> model the
    three backends, their \<open>_Props\<close> theories interpret the contract, their \<open>_Claims\<close> theories
    state what is particular to each.
  \<^item> \<open>Request_Id\<close>, \<open>Metrics\<close>, \<open>Mail\<close>, \<open>Smtp\<close>: the files of these names.
  \<^item> \<open>Send\<close>, \<open>Send_Bulk\<close>, \<open>Api\<close>, \<open>App_State\<close>: the handlers, the routes and \<open>lib.rs\<close>, as functions
    on the part of the shared state they use; \<open>Send_Props\<close> proves what holds of the send
    handler over any store of the contract.
  \<^item> \<open>Tasks\<close>, \<open>Send_Task\<close>, \<open>Server\<close>: the running process. \<open>Tasks\<close> is a theory of programs made of atomic
    sections, \<open>Send_Task\<close> gives the handlers in this form, \<open>Server\<close> the step relation of a
    server with any number of tasks. \<open>Server_Mail\<close>, \<open>Server_Store\<close>, \<open>Server_Record\<close> are its
    invariants: configurations and mail, store, records. \<open>Server_Final\<close> (locale \<open>freezing_store\<close>) shows
    that terminal records do not change at all. \<open>Server_Bulk\<close> follows one message of a bulk
    request through both phases while the other messages and tasks interfere.
  \<^item> \<open>Startup\<close>: \<open>main.rs\<close>, \<open>logging.rs\<close>, and \<open>security.rs\<close> where it is not in \<open>App_State\<close>.
  \<^item> \<open>Examples\<close>, \<open>Example_Codec\<close>: concrete inputs that show that the hypotheses can hold.
\<close>

section \<open>State and operations\<close>

text \<open>
  A struct is a record with the fields of the source and a prefix, an enum a datatype, an
  \<open>Option\<close> an option, an error a value. Integers are words where the program can wrap, times
  are integers in nanoseconds. A function that changes state returns the new state; the
  clock is an argument, one reading per read of the source. A status store is the record
  \<open>status_ops\<close> of its methods, as the trait object of the source. \<open>world\<close> is what a request
  changes (store, limiter, metrics, messages handed to the transport), \<open>process\<close> adds the
  current configuration, \<open>server\<close> the tasks in flight.

  Granularity of the server: a section is one call of the store, of a tier, of the metrics,
  or one message handed over, as each holds its own lock or is one atomic operation; the
  code between two sections sees nothing shared. Each half of a bulk submission, up to the transfer
  and after it, is one section too. Two of these calls take their lock more than
  once in the source (an expired record is removed under a second lock in \<open>status_memory.rs\<close>,
  the statements of one method in \<open>status_sqlite.rs\<close> run under one) and are one section here. A
  dropped request may stop at any section, which covers the points at which its future can
  be dropped. Overlapping SIGHUPs are allowed although the program handles them in turn. A
  generated request id is assumed to be new (ULIDs carry 80 random bits); this is the guard
  of \<open>Arrive\<close>.
\<close>

section \<open>Properties\<close>

text \<open>
  Requests: exactly the acceptable requests validate, none with CR or LF in a header field,
  beyond the allowlists (which see a domain in its Unicode lowercase) or above the limits; a request authenticates exactly with the
  secret of an enabled key; proxy headers of others are ignored. Rates: a key never gets
  more than burst plus rate times time. The handlers: when mail is sent and what it says, the
  record at the end, independence of the store and of the schedule of the bulk tasks. Stores:
  terminal states are final in all three, queries are exact, sizes are bounded, rows are
  well typed, the loop over a Redis scan returns exactly when the scan ends.

  The server: whatever runs concurrently, each message stems from a request of the run whose
  own head authenticated and whose body validated, terminal records are never changed again,
  a record belongs to the authenticated key and agrees with the answer to its request (for a bulk request, with the result of its message), the
  settings that need a restart do not change, and every configuration ever in force has passed
  the checks of its secrets. The start: when the process serves, and that it cannot serve
  over TLS. Each property names the definitions it is about; a theorem with hypotheses is
  followed by a witness, a concrete input on which they hold.
\<close>

section \<open>Parameters and hypotheses\<close>

text \<open>
  Third-party code is an argument. Hypotheses on it are named: \<open>ct_eq_correct\<close> (constant-time
  comparison is equality), \<open>lowercase_ascii\<close> (\<open>to_lowercase\<close> on ASCII, used
  only for what is said of ASCII domains), \<open>address_has_at\<close> (a parsed
  address contains an at sign), \<open>permutes\<close> and \<open>row_permutes\<close> (an iteration or an unordered
  \<open>SELECT\<close> yields every element once), \<open>codec_ok\<close> and \<open>json_ok\<close> (RFC 3339 texts and JSON are read
  back, and texts are ordered as their times), \<open>exclusive_listeners\<close> (an address with a
  listening socket cannot be bound again). SQLite and Redis fail as an arbitrary oracle says,
  Redis also drops keys at any time. The TOML parser, files, sockets, clocks, ULIDs and the outcome
  of an SMTP transfer are inputs.

  Termination: every definition is total, with two exceptions. \<open>redis_scan_loop\<close> is a partial
  function, as nothing in the program bounds the loop; \<open>redis_count_returns\<close> states when it
  returns. A bulk schedule that does not run all tasks to their end gives \<open>None\<close>;
  \<open>bulk_tasks_progress\<close> states that every schedule can be completed. No fuel is used.
\<close>

section \<open>Not modelled\<close>

text \<open>
  \<^item> Routing, body limits, timeouts and the concurrency layer of axum and tower: third-party
    code; their effect on a handler is that it is dropped or not reached. The route table is \<open>build_router\<close>.
  \<^item> The rendering of messages and the SMTP protocol of lettre, the text encoder and the
    registry of prometheus, the tracing subscriber; log events, except as actions of a start.
  \<^item> The derived and trivial trait implementations (\<open>Debug\<close>, \<open>Default\<close>, \<open>AsRef\<close>), re-exports, and the tests.
  \<^item> Poisoned locks: a lock is poisoned by a panic while it is held, and no modelled operation panics.
  \<^item> The interleaving of bulk tasks is inside the task of their request: the schedule is an
    argument of the event, and other tasks run between any two sections.
\<close>

end
